(* ===== verification/Prelude.thy ===== *)
theory Prelude
  imports Complex_Main "HOL-Library.Word"
begin

text \<open>
  Shared vocabulary of the development: the machine types used by the hasher, the
  hexadecimal digit tables shared by the digest encoder and the URI encoder, and a
  small state-and-exception action type.  The action type is how the request
  handlers of \<^verbatim>\<open>src/src/index.js\<close> are modelled: a JavaScript handler mutates the
  global database and the response object and may throw part-way through; the
  mutations done before the throw stay visible, so an action returns its final
  state together with either the exception (\<open>Inl\<close>) or its value (\<open>Inr\<close>).
\<close>

type_synonym byte = "8 word"
type_synonym w32 = "32 word"

named_theorems act_simps "unfolding rules of the state-and-exception actions"
named_theorems js_simps "evaluation rules of the JavaScript runtime model"
named_theorems store_simps "evaluation rules of the user store"

subsection \<open>Hexadecimal digits\<close>

definition hex_lower :: "nat \<Rightarrow> char" where
  "hex_lower n = (if n < 10 then char_of (48 + n) else char_of (87 + n))"

definition hex_upper :: "nat \<Rightarrow> char" where
  "hex_upper n = (if n < 10 then char_of (48 + n) else char_of (55 + n))"

definition lower_hex_digits :: string where
  "lower_hex_digits = ''0123456789abcdef''"

definition upper_hex_digits :: string where
  "upper_hex_digits = ''0123456789ABCDEF''"

text \<open>Joining strings with a separator character, as \<^verbatim>\<open>Array.prototype.join\<close> does
  and as the lines of a template literal are joined.\<close>

fun join_with :: "char \<Rightarrow> string list \<Rightarrow> string" where
  "join_with c [] = []"
| "join_with c [s] = s"
| "join_with c (s # ss) = s @ c # join_with c ss"

text \<open>The values of a list of computations that may fail, evaluated left to right:
  the first failure, or all the values.\<close>

fun all_Inr :: "('e + 'a) list \<Rightarrow> 'e + 'a list" where
  "all_Inr [] = Inr []"
| "all_Inr (Inl e # rs) = Inl e"
| "all_Inr (Inr a # rs) = map_sum id (Cons a) (all_Inr rs)"

subsection \<open>State-and-exception actions\<close>

type_synonym ('s, 'e, 'a) act = "'s \<Rightarrow> ('e + 'a) \<times> 's"

definition ret :: "'a \<Rightarrow> ('s, 'e, 'a) act" where
  "ret a s = (Inr a, s)"

definition raise :: "'e \<Rightarrow> ('s, 'e, 'a) act" where
  "raise e s = (Inl e, s)"

definition liftE :: "'e + 'a \<Rightarrow> ('s, 'e, 'a) act" where
  "liftE r s = (r, s)"

definition bindA :: "('s, 'e, 'a) act \<Rightarrow> ('a \<Rightarrow> ('s, 'e, 'b) act) \<Rightarrow> ('s, 'e, 'b) act" where
  "bindA m f s = (case m s of (Inl e, s') \<Rightarrow> (Inl e, s') | (Inr a, s') \<Rightarrow> f a s')"

definition when_do :: "bool \<Rightarrow> ('s, 'e, unit) act \<Rightarrow> ('s, 'e, unit) act" where
  "when_do b m = (if b then m else ret ())"

lemmas [act_simps] = ret_def raise_def liftE_def bindA_def when_do_def

subsection \<open>Generic lemmas\<close>

lemma bindA_Inr [simp]: "m s = (Inr a, s') \<Longrightarrow> bindA m f s = f a s'"
  by (simp add: bindA_def)

lemma bindA_Inl [simp]: "m s = (Inl e, s') \<Longrightarrow> bindA m f s = (Inl e, s')"
  by (simp add: bindA_def)

lemma when_do_False [simp]: "when_do False m s = (Inr (), s)"
  by (simp add: when_do_def ret_def)

lemma when_do_True [simp]: "when_do True m = m"
  by (simp add: when_do_def)

lemma liftE_apply [simp]: "liftE r s = (r, s)"
  by (simp add: liftE_def)

lemma map_sum_id_Inl [simp]: "map_sum id f x = Inl e \<longleftrightarrow> x = Inl e"
  by (cases x) simp_all

lemma map_sum_id_Inr [simp]: "map_sum id f x = Inr y \<longleftrightarrow> (\<exists>z. x = Inr z \<and> y = f z)"
  by (cases x) auto

lemma all_Inr_Inl: "all_Inr rs = Inl e \<Longrightarrow> Inl e \<in> set rs"
  by (induction rs rule: all_Inr.induct) auto

lemma map_le_upd_fresh [intro]: "m k = None \<Longrightarrow> m \<subseteq>\<^sub>m m(k \<mapsto> v)"
  by (auto simp: map_le_def)

lemma hex_lower_table: "map hex_lower [0..<16] = ''0123456789abcdef''"
  by (simp add: hex_lower_def upt_rec char_of_eq_iff)

lemma hex_upper_table: "map hex_upper [0..<16] = ''0123456789ABCDEF''"
  by (simp add: hex_upper_def upt_rec char_of_eq_iff)

lemma hex_lower_range: "n < 16 \<Longrightarrow> hex_lower n \<in> set lower_hex_digits"
proof -
  assume "n < 16"
  then have "hex_lower n \<in> set (map hex_lower [0..<16])" by simp
  then show ?thesis by (simp only: hex_lower_table lower_hex_digits_def)
qed

lemma hex_upper_range: "n < 16 \<Longrightarrow> hex_upper n \<in> set upper_hex_digits"
proof -
  assume "n < 16"
  then have "hex_upper n \<in> set (map hex_upper [0..<16])" by simp
  then show ?thesis by (simp only: hex_upper_table upper_hex_digits_def)
qed

end
