(* ===== verification/JsRuntime.thy ===== *)
theory JsRuntime
  imports Prelude
begin

text \<open>
  The part of the JavaScript runtime that \<^verbatim>\<open>src/src/index.js\<close> relies on: the values
  a form field can take after \<^verbatim>\<open>body-parser\<close> (a string, or \<^verbatim>\<open>undefined\<close> when the
  field is absent; \<^verbatim>\<open>null\<close> for the explicit null checks of the source), the
  conversions \<^verbatim>\<open>String(v)\<close> (used for property keys and by \<^verbatim>\<open>RegExp.test\<close>) and
  \<^verbatim>\<open>v.toString()\<close> (which throws a \<^verbatim>\<open>TypeError\<close> on \<^verbatim>\<open>undefined\<close> and \<^verbatim>\<open>null\<close>),
  truthiness, \<^verbatim>\<open>Number.prototype.toString\<close> on the millisecond clock, the property
  names every plain object inherits from \<^verbatim>\<open>Object.prototype\<close>, UTF-8 encoding and
  \<^verbatim>\<open>encodeURIComponent\<close>.  These are built-ins, modelled from the ECMAScript
  specification.  A JavaScript string is a sequence of UTF-16 code units; the model's
  \<open>string\<close> is a list of 8-bit \<open>char\<close>s, so it covers the strings whose code units
  are below 256 (Latin-1), on which \<open>length\<close> agrees with the source's \<^verbatim>\<open>.length\<close>.
\<close>

datatype jsval = Undefined | Null | Str string | Arr "jsval list" | Obj "(string \<times> jsval) list"

datatype exn = TypeError | HeadersSent

subsection \<open>Conversions\<close>

text \<open>\<^verbatim>\<open>String(v)\<close>, the abstract operation ToString.  On an array it is
  \<^verbatim>\<open>Array.prototype.join\<close>: \<^verbatim>\<open>undefined\<close> and \<^verbatim>\<open>null\<close> elements give the empty
  string, the others are converted in order, and the results are joined with commas.
  On an object, ToPrimitive calls \<^verbatim>\<open>toString\<close> and then \<^verbatim>\<open>valueOf\<close>: an object with
  an own \<^verbatim>\<open>toString\<close> property (a form field \<^verbatim>\<open>x[toString]=...\<close> gives one, whose
  value is not callable) gets no primitive from either, since the inherited
  \<^verbatim>\<open>valueOf\<close> returns the object itself, and throws a \<^verbatim>\<open>TypeError\<close>; any other
  object converts to \<^verbatim>\<open>[object Object]\<close>.\<close>

fun js_String :: "jsval \<Rightarrow> exn + string" where
  "js_String Undefined = Inr ''undefined''"
| "js_String Null = Inr ''null''"
| "js_String (Str s) = Inr s"
| "js_String (Arr vs) =
     map_sum id (join_with CHR '','')
       (all_Inr (map (\<lambda>v. if v = Undefined \<or> v = Null then Inr [] else js_String v) vs))"
| "js_String (Obj fs) =
     (if ''toString'' \<in> set (map fst fs) then Inl TypeError else Inr ''[object Object]'')"

text \<open>The method call \<^verbatim>\<open>v.toString()\<close>: a \<^verbatim>\<open>TypeError\<close> on \<^verbatim>\<open>undefined\<close> and
  \<^verbatim>\<open>null\<close>, and on an object whose own \<^verbatim>\<open>toString\<close> is not a function; otherwise
  the inherited method, which agrees with \<open>js_String\<close>.\<close>

fun js_toString :: "jsval \<Rightarrow> exn + string" where
  "js_toString Undefined = Inl TypeError"
| "js_toString Null = Inl TypeError"
| "js_toString v = js_String v"

fun js_truthy :: "jsval \<Rightarrow> bool" where
  "js_truthy Undefined = False"
| "js_truthy Null = False"
| "js_truthy (Str s) = (s \<noteq> [])"
| "js_truthy (Arr vs) = True"
| "js_truthy (Obj fs) = True"

text \<open>Strict equality \<^verbatim>\<open>===\<close>: primitives by value; arrays and objects by
  reference.  The source only compares a value of the store with one of the request
  or with a fresh string, which are never the same object, so two arrays or objects
  are never strictly equal here.\<close>

fun js_strict_eq :: "jsval \<Rightarrow> jsval \<Rightarrow> bool" where
  "js_strict_eq Undefined Undefined = True"
| "js_strict_eq Null Null = True"
| "js_strict_eq (Str a) (Str b) = (a = b)"
| "js_strict_eq _ _ = False"

text \<open>\<^verbatim>\<open>a || b || ...\<close> on operands that may throw: the first operand that
  throws or is true decides, and the later ones are not evaluated.\<close>

fun js_or :: "(exn + bool) list \<Rightarrow> exn + bool" where
  "js_or [] = Inr False"
| "js_or (Inl e # rs) = Inl e"
| "js_or (Inr b # rs) = (if b then Inr True else js_or rs)"

text \<open>\<^verbatim>\<open>Date.now().toString()\<close>: the decimal digits of the clock value.\<close>

fun decimal :: "nat \<Rightarrow> string" where
  "decimal n = (if n < 10 then [char_of (48 + n)] else decimal (n div 10) @ [char_of (48 + n mod 10)])"

declare decimal.simps [simp del]

text \<open>Own-property-less names that still read as truthy on a plain \<^verbatim>\<open>{}\<close>.\<close>

definition object_proto_keys :: "string list" where
  "object_proto_keys = [''constructor'', ''__defineGetter__'', ''__defineSetter__'',
     ''hasOwnProperty'', ''__lookupGetter__'', ''__lookupSetter__'', ''isPrototypeOf'',
     ''propertyIsEnumerable'', ''toString'', ''valueOf'', ''__proto__'', ''toLocaleString'']"

subsection \<open>Character classes\<close>

definition is_ascii_digit :: "char \<Rightarrow> bool" where
  "is_ascii_digit c \<longleftrightarrow> 48 \<le> (of_char c :: nat) \<and> (of_char c :: nat) \<le> 57"

definition is_ascii_alpha :: "char \<Rightarrow> bool" where
  "is_ascii_alpha c \<longleftrightarrow>
     (65 \<le> (of_char c :: nat) \<and> (of_char c :: nat) \<le> 90) \<or>
     (97 \<le> (of_char c :: nat) \<and> (of_char c :: nat) \<le> 122)"

subsection \<open>UTF-8 and encodeURIComponent\<close>

text \<open>A code unit below 128 is one byte; one from 128 to 255 is two bytes.\<close>

definition utf8_char :: "char \<Rightarrow> byte list" where
  "utf8_char c =
     (let n = (of_char c :: nat) in
      if n < 128 then [of_nat n]
      else [of_nat (192 + n div 64), of_nat (128 + n mod 64)])"

definition utf8_encode :: "string \<Rightarrow> byte list" where
  "utf8_encode s = concat (map utf8_char s)"

definition uri_unreserved :: "char \<Rightarrow> bool" where
  "uri_unreserved c \<longleftrightarrow> is_ascii_alpha c \<or> is_ascii_digit c \<or> c \<in> set ''-_.!~*'()''"

definition pct_byte :: "byte \<Rightarrow> string" where
  "pct_byte b = [CHR ''%'', hex_upper (unat b div 16), hex_upper (unat b mod 16)]"

definition encodeURIComponent :: "string \<Rightarrow> string" where
  "encodeURIComponent s =
     concat (map (\<lambda>c. if uri_unreserved c then [c] else concat (map pct_byte (utf8_char c))) s)"

subsection \<open>decodeURIComponent\<close>

text \<open>The decoding the client applies to a fragment (\<^verbatim>\<open>decodeURIComponent\<close>): a
  character other than \<^verbatim>\<open>%\<close> stands for itself, \<^verbatim>\<open>%XX\<close> is a byte, and the bytes
  form UTF-8 sequences.  Sequences for code points of 256 and above, which \<open>string\<close>
  cannot hold, and malformed ones (a \<^verbatim>\<open>URIError\<close>) give \<open>None\<close>.\<close>

definition hex_value :: "char \<Rightarrow> nat option" where
  "hex_value c =
     (let n = (of_char c :: nat) in
      if 48 \<le> n \<and> n \<le> 57 then Some (n - 48)
      else if 65 \<le> n \<and> n \<le> 70 then Some (n - 55)
      else if 97 \<le> n \<and> n \<le> 102 then Some (n - 87)
      else None)"

fun uri_decode :: "string \<Rightarrow> string option" where
  "uri_decode [] = Some []"
| "uri_decode (c # cs) =
     (if c \<noteq> CHR ''%'' then map_option (Cons c) (uri_decode cs)
      else case cs of
        h1 # h2 # r \<Rightarrow>
          (case (hex_value h1, hex_value h2) of
             (Some a, Some b) \<Rightarrow>
               (let n = 16 * a + b in
                if n < 128 then map_option (Cons (char_of n)) (uri_decode r)
                else if 194 \<le> n \<and> n \<le> 195 then
                  (case r of
                     p # h3 # h4 # r' \<Rightarrow>
                       (case (hex_value h3, hex_value h4) of
                          (Some a', Some b') \<Rightarrow>
                            (let m = 16 * a' + b' in
                             if p = CHR ''%'' \<and> 128 \<le> m \<and> m \<le> 191
                             then map_option (Cons (char_of ((n - 192) * 64 + (m - 128)))) (uri_decode r')
                             else None)
                        | _ \<Rightarrow> None)
                   | _ \<Rightarrow> None)
                else None)
           | _ \<Rightarrow> None)
      | _ \<Rightarrow> None)"

subsection \<open>Numbers\<close>

text \<open>A Number as the relational operators see it.  The conversions below are exact
  on the rationals; the rounding of a decimal literal to a double is applied where a
  number is compared with a constant (see the Validator).\<close>

datatype jsnum = NaN | Fin rat | PosInf | NegInf

text \<open>StringToNumber: leading and trailing white space and line terminators (those
  below 256: tab, line feed, vertical tab, form feed, carriage return, space and
  no-break space) are removed; the empty string is 0; otherwise the text is a
  binary, octal or hexadecimal integer (\<^verbatim>\<open>0b\<close>, \<^verbatim>\<open>0o\<close>, \<^verbatim>\<open>0x\<close>, either case, no
  sign), or a signed decimal literal with optional fraction and exponent, or
  \<^verbatim>\<open>Infinity\<close> with an optional sign; anything else is NaN.\<close>

definition trim_space :: "string \<Rightarrow> string" where
  "trim_space s =
     (let sp = (\<lambda>c. (of_char c :: nat) \<in> {9, 10, 11, 12, 13, 32, 160})
      in rev (dropWhile sp (rev (dropWhile sp s))))"

text \<open>The value of a non-empty sequence of digits in the given base.\<close>

definition radix_value :: "nat \<Rightarrow> string \<Rightarrow> nat option" where
  "radix_value base ds =
     (if ds \<noteq> [] \<and> (\<forall>c\<in>set ds. case hex_value c of Some d \<Rightarrow> d < base | None \<Rightarrow> False)
      then Some (foldl (\<lambda>a c. base * a + the (hex_value c)) 0 ds)
      else None)"

definition nondecimal :: "string \<Rightarrow> nat option" where
  "nondecimal t =
     (case t of
        c0 # c1 # ds \<Rightarrow>
          if c0 \<noteq> CHR ''0'' then None
          else if c1 = CHR ''x'' \<or> c1 = CHR ''X'' then radix_value 16 ds
          else if c1 = CHR ''o'' \<or> c1 = CHR ''O'' then radix_value 8 ds
          else if c1 = CHR ''b'' \<or> c1 = CHR ''B'' then radix_value 2 ds
          else None
      | _ \<Rightarrow> None)"

text \<open>The signed integer after \<^verbatim>\<open>e\<close> or \<^verbatim>\<open>E\<close>.\<close>

definition exponent_value :: "string \<Rightarrow> int option" where
  "exponent_value x =
     (case x of
        c # ds \<Rightarrow>
          if c = CHR ''+'' then map_option int (radix_value 10 ds)
          else if c = CHR ''-'' then map_option (\<lambda>n. - int n) (radix_value 10 ds)
          else map_option int (radix_value 10 x)
      | [] \<Rightarrow> None)"

text \<open>StrUnsignedDecimalLiteral: \<^verbatim>\<open>Infinity\<close>, or digits with an optional point
  (at least one digit on either side of it) and an optional exponent.\<close>

definition unsigned_decimal :: "string \<Rightarrow> jsnum option" where
  "unsigned_decimal s =
     (if s = ''Infinity'' then Some PosInf
      else
        (let mark = (\<lambda>c. c = CHR ''e'' \<or> c = CHR ''E'');
             m = takeWhile (\<lambda>c. \<not> mark c) s;
             x = dropWhile (\<lambda>c. \<not> mark c) s;
             ip = takeWhile (\<lambda>c. c \<noteq> CHR ''.'') m;
             fp = drop 1 (dropWhile (\<lambda>c. c \<noteq> CHR ''.'') m)
         in case (radix_value 10 (ip @ fp), if x = [] then Some 0 else exponent_value (tl x)) of
              (Some n, Some e) \<Rightarrow>
                Some (Fin (of_nat n / 10 ^ length fp *
                           (if 0 \<le> e then 10 ^ nat e else 1 / 10 ^ nat (- e))))
            | _ \<Rightarrow> None))"

fun js_neg :: "jsnum \<Rightarrow> jsnum" where
  "js_neg NaN = NaN"
| "js_neg (Fin r) = Fin (- r)"
| "js_neg PosInf = NegInf"
| "js_neg NegInf = PosInf"

definition str_to_number :: "string \<Rightarrow> jsnum" where
  "str_to_number s =
     (let t = trim_space s in
      if t = [] then Fin 0
      else case nondecimal t of
        Some n \<Rightarrow> Fin (of_nat n)
      | None \<Rightarrow>
          (case (if hd t = CHR ''+'' then unsigned_decimal (tl t)
                 else if hd t = CHR ''-'' then map_option js_neg (unsigned_decimal (tl t))
                 else unsigned_decimal t) of
             Some r \<Rightarrow> r
           | None \<Rightarrow> NaN))"

text \<open>ToNumber.  An array or object is first turned into a primitive (hint number):
  the inherited \<^verbatim>\<open>valueOf\<close> returns the object itself, so the string of
  \<open>js_String\<close> is converted, or its \<^verbatim>\<open>TypeError\<close> is thrown.\<close>

fun js_ToNumber :: "jsval \<Rightarrow> exn + jsnum" where
  "js_ToNumber Undefined = Inr NaN"
| "js_ToNumber Null = Inr (Fin 0)"
| "js_ToNumber (Str s) = Inr (str_to_number s)"
| "js_ToNumber (Arr vs) = map_sum id str_to_number (js_String (Arr vs))"
| "js_ToNumber (Obj fs) = map_sum id str_to_number (js_String (Obj fs))"

lemmas [js_simps] = js_String.simps js_toString.simps js_truthy.simps js_or.simps js_strict_eq.simps

subsection \<open>Lemmas\<close>

lemma js_toString_Inr: "js_toString v = Inr s \<Longrightarrow> js_String v = Inr s"
  by (cases v) auto

lemma js_String_Inl_TypeError: "js_String v = Inl e \<Longrightarrow> e = TypeError"
proof (induction v rule: js_String.induct)
  case (4 vs)
  then obtain v where "v \<in> set vs" "v \<noteq> Undefined \<and> v \<noteq> Null" "js_String v = Inl e"
    by (auto dest!: all_Inr_Inl split: if_splits)
  with "4.IH" show ?case by blast
qed (auto split: if_splits)

lemma js_strict_eq_Str [simp]: "js_strict_eq v (Str h) \<longleftrightarrow> v = Str h"
  by (cases v) simp_all

lemma decimal_nonempty: "decimal n \<noteq> []"
  by (subst decimal.simps) simp

lemma decimal_digits: "c \<in> set (decimal n) \<Longrightarrow> is_ascii_digit c"
proof (induction n rule: decimal.induct)
  case (1 n)
  have digit: "d < 10 \<Longrightarrow> is_ascii_digit (char_of (48 + d))" for d :: nat
    by (simp add: is_ascii_digit_def of_char_of)
  show ?case
  proof (cases "n < 10")
    case True
    with "1.prems" show ?thesis by (simp add: decimal.simps [of n] digit)
  next
    case False
    with "1.prems" have "c \<in> set (decimal (n div 10)) \<or> c = char_of (48 + n mod 10)"
      by (auto simp: decimal.simps [of n])
    with False "1.IH" show ?thesis by (auto intro: digit)
  qed
qed

lemma digit_char_value: "d < 10 \<Longrightarrow> hex_value (char_of (48 + d)) = Some d"
  by (simp add: hex_value_def of_char_of)

lemma hex_value_digit: "is_ascii_digit c \<Longrightarrow> \<exists>d<10. hex_value c = Some d"
  by (simp add: hex_value_def is_ascii_digit_def Let_def; linarith)

lemma decimal_value: "foldl (\<lambda>a c. 10 * a + the (hex_value c)) 0 (decimal n) = n"
proof (induction n rule: decimal.induct)
  case (1 n)
  show ?case
  proof (cases "n < 10")
    case True
    then show ?thesis by (simp add: decimal.simps [of n] digit_char_value)
  next
    case False
    then have "foldl (\<lambda>a c. 10 * a + the (hex_value c)) 0 (decimal n) =
               10 * (n div 10) + n mod 10"
      using "1.IH" by (simp add: decimal.simps [of n] digit_char_value)
    then show ?thesis by simp
  qed
qed

lemma radix_value_decimal: "radix_value 10 (decimal n) = Some n"
proof -
  have "\<forall>c\<in>set (decimal n). case hex_value c of Some d \<Rightarrow> d < 10 | None \<Rightarrow> False"
    using decimal_digits hex_value_digit by fastforce
  then show ?thesis by (simp add: radix_value_def decimal_nonempty decimal_value)
qed

text \<open>A string of ASCII digits reads as the number it spells.\<close>

lemma str_to_number_digits:
  assumes ne: "t \<noteq> []" and dg: "\<forall>c\<in>set t. is_ascii_digit c" and v: "radix_value 10 t = Some k"
  shows "str_to_number t = Fin (of_nat k)"
proof -
  let ?sp = "\<lambda>c. (of_char c :: nat) \<in> {9, 10, 11, 12, 13, 32, 160}"
  have nsp: "\<not> ?sp c" if "is_ascii_digit c" for c
    using that by (auto simp: is_ascii_digit_def)
  have "dropWhile ?sp t = t"
    using ne dg nsp [of "hd t"] by (simp add: dropWhile_eq_self_iff)
  moreover have "dropWhile ?sp (rev t) = rev t"
    using ne dg nsp [of "last t"] by (simp add: dropWhile_eq_self_iff hd_rev)
  ultimately have trim: "trim_space t = t"
    by (simp add: trim_space_def)
  have hd: "is_ascii_digit (hd t)"
    using dg ne by simp
  have nd: "nondecimal t = None"
    using dg by (auto simp: nondecimal_def is_ascii_digit_def split: list.splits)
  have sign: "hd t \<noteq> CHR ''+'' \<and> hd t \<noteq> CHR ''-''"
    using hd by (auto simp: is_ascii_digit_def)
  have "t \<noteq> ''Infinity''" using dg by (auto simp: is_ascii_digit_def)
  moreover have nd_e: "\<forall>c\<in>set t. c \<noteq> CHR ''e'' \<and> c \<noteq> CHR ''E''"
    and nd_p: "\<forall>c\<in>set t. c \<noteq> CHR ''.''"
    using dg by (auto simp: is_ascii_digit_def)
  then have tw: "takeWhile (\<lambda>c. \<not> (c = CHR ''e'' \<or> c = CHR ''E'')) t = t"
    and "dropWhile (\<lambda>c. \<not> (c = CHR ''e'' \<or> c = CHR ''E'')) t = []"
    and tp: "takeWhile (\<lambda>c. c \<noteq> CHR ''.'') t = t" "dropWhile (\<lambda>c. c \<noteq> CHR ''.'') t = []"
    by (simp_all add: takeWhile_eq_all_conv dropWhile_eq_Nil_conv)
  ultimately have "unsigned_decimal t = Some (Fin (of_nat k))"
    using v unfolding unsigned_decimal_def Let_def tw tp by simp
  with ne trim nd sign show ?thesis by (simp add: str_to_number_def)
qed

lemma str_to_number_decimal: "str_to_number (decimal n) = Fin (of_nat n)"
  using decimal_nonempty decimal_digits radix_value_decimal by (intro str_to_number_digits) auto

lemma utf8_char_length: "length (utf8_char c) \<in> {1, 2}"
  by (simp add: utf8_char_def Let_def)

lemma pct_byte_chars: "set (pct_byte b) \<subseteq> insert (CHR ''%'') (set upper_hex_digits)"
proof -
  have "unat b < 256"
    using unsigned_less [of b] by simp
  then have "unat b div 16 < 16" and "unat b mod 16 < 16"
    by simp_all
  then show ?thesis
    by (simp add: pct_byte_def hex_upper_range)
qed

text \<open>\<^verbatim>\<open>encodeURIComponent\<close> only produces unreserved characters, percent
  signs and uppercase hexadecimal digits.\<close>

lemma encodeURIComponent_alphabet:
  "set (encodeURIComponent s) \<subseteq> {c. uri_unreserved c} \<union> insert (CHR ''%'') (set upper_hex_digits)"
proof -
  have "set (concat (map pct_byte bs)) \<subseteq> insert (CHR ''%'') (set upper_hex_digits)" for bs
    using pct_byte_chars by (induction bs) auto
  then show ?thesis
    by (auto simp: encodeURIComponent_def split: if_splits)
qed

lemma hex_value_table: "map (hex_value \<circ> hex_upper) [0..<16] = map Some [0..<16]"
  by (simp add: hex_value_def hex_upper_def upt_rec)

lemma hex_value_upper: "k < 16 \<Longrightarrow> hex_value (hex_upper k) = Some k"
proof -
  assume "k < 16"
  have "map (hex_value \<circ> hex_upper) [0..<16] ! k = map Some [0..<16] ! k"
    by (simp only: hex_value_table)
  with \<open>k < 16\<close> show ?thesis by simp
qed

lemma pct_byte_decode:
  assumes "n < 256"
  shows "pct_byte (of_nat n) = [CHR ''%'', hex_upper (n div 16), hex_upper (n mod 16)]"
  using assms by (simp add: pct_byte_def unat_of_nat)

lemma uri_unreserved_not_pct: "uri_unreserved c \<Longrightarrow> c \<noteq> CHR ''%''"
  by (auto simp: uri_unreserved_def is_ascii_alpha_def is_ascii_digit_def)

lemma uri_decode_char:
  "uri_decode ((if uri_unreserved c then [c] else concat (map pct_byte (utf8_char c))) @ rest) =
   map_option (Cons c) (uri_decode rest)"
proof (cases "uri_unreserved c")
  case True
  then show ?thesis by (simp add: uri_unreserved_not_pct)
next
  case False
  define n where "n = (of_char c :: nat)"
  have n256: "n < 256" using of_char_mod_256 [of c] unfolding n_def
    by (metis mod_less_divisor zero_less_numeral)
  have cn: "char_of n = c" by (simp add: n_def)
  show ?thesis
  proof (cases "n < 128")
    case True
    have "16 * (n div 16) + n mod 16 = n" by simp
    with True False n256 cn show ?thesis
      by (simp add: utf8_char_def Let_def n_def [symmetric] pct_byte_decode hex_value_upper)
  next
    case big: False
    define a where "a = 192 + n div 64"
    define m where "m = 128 + n mod 64"
    have a: "a < 256" "194 \<le> a" "a \<le> 195" and m: "m < 256" "128 \<le> m" "m \<le> 191"
      using n256 big by (simp_all add: a_def m_def)
    have u: "utf8_char c = [of_nat a, of_nat m]"
      using big by (simp add: utf8_char_def Let_def a_def m_def del: of_nat_add flip: n_def)
    have hv: "hex_value (hex_upper (a div 16)) = Some (a div 16)"
             "hex_value (hex_upper (a mod 16)) = Some (a mod 16)"
             "hex_value (hex_upper (m div 16)) = Some (m div 16)"
             "hex_value (hex_upper (m mod 16)) = Some (m mod 16)"
      using a m by (simp_all add: hex_value_upper)
    have fin: "char_of ((a - 192) * 64 + m - 128) = c"
      using cn by (simp add: a_def m_def)
    have e: "16 * (a div 16) + a mod 16 = a" "16 * (m div 16) + m mod 16 = m"
      by simp_all
    show ?thesis
      using False a m
      by (simp add: u pct_byte_decode hv e fin del: of_nat_add)
  qed
qed

lemma uri_decode_encode: "uri_decode (encodeURIComponent s) = Some s"
  by (induction s) (simp_all add: encodeURIComponent_def uri_decode_char [simplified])

end
