(* ===== verification/Hasher.thy ===== *)
theory Hasher
  imports JsRuntime
begin

unbundle bit_operations_syntax

text \<open>
  The Hasher of the spec: the helper \<^verbatim>\<open>sha256(password, salt)\<close> of
  \<^verbatim>\<open>src/src/index.js\<close> (lines 94--97), which calls Node's
  \<^verbatim>\<open>crypto.createHmac('sha256', salt.toString()).update(password.toString()).digest('hex')\<close>.
  The library call is modelled from its standards: SHA-256 as in FIPS 180-4 (on 32-bit
  words, so that every addition wraps modulo \<open>2^32\<close> as the standard requires), HMAC as in
  FIPS 198-1 with block size 64, the string arguments UTF-8 encoded as Node does for
  string keys and data, and the digest rendered as lowercase hexadecimal.  The helper
  itself evaluates \<^verbatim>\<open>salt.toString()\<close> first and \<^verbatim>\<open>password.toString()\<close> second;
  either throws a \<^verbatim>\<open>TypeError\<close> on \<^verbatim>\<open>undefined\<close> or \<^verbatim>\<open>null\<close>.
\<close>

subsection \<open>SHA-256 (FIPS 180-4, section 6.2)\<close>

definition K256 :: "w32 list" where
  "K256 = [
    0x428A2F98, 0x71374491, 0xB5C0FBCF, 0xE9B5DBA5, 0x3956C25B, 0x59F111F1, 0x923F82A4, 0xAB1C5ED5,
    0xD807AA98, 0x12835B01, 0x243185BE, 0x550C7DC3, 0x72BE5D74, 0x80DEB1FE, 0x9BDC06A7, 0xC19BF174,
    0xE49B69C1, 0xEFBE4786, 0x0FC19DC6, 0x240CA1CC, 0x2DE92C6F, 0x4A7484AA, 0x5CB0A9DC, 0x76F988DA,
    0x983E5152, 0xA831C66D, 0xB00327C8, 0xBF597FC7, 0xC6E00BF3, 0xD5A79147, 0x06CA6351, 0x14292967,
    0x27B70A85, 0x2E1B2138, 0x4D2C6DFC, 0x53380D13, 0x650A7354, 0x766A0ABB, 0x81C2C92E, 0x92722C85,
    0xA2BFE8A1, 0xA81A664B, 0xC24B8B70, 0xC76C51A3, 0xD192E819, 0xD6990624, 0xF40E3585, 0x106AA070,
    0x19A4C116, 0x1E376C08, 0x2748774C, 0x34B0BCB5, 0x391C0CB3, 0x4ED8AA4A, 0x5B9CCA4F, 0x682E6FF3,
    0x748F82EE, 0x78A5636F, 0x84C87814, 0x8CC70208, 0x90BEFFFA, 0xA4506CEB, 0xBEF9A3F7, 0xC67178F2]"

text \<open>The eight working variables \<open>a, \<dots>, h\<close> (and the hash value \<open>H0, \<dots>, H7\<close>).\<close>

datatype h8 = H8 w32 w32 w32 w32 w32 w32 w32 w32

definition H0_256 :: h8 where
  "H0_256 = H8 0x6A09E667 0xBB67AE85 0x3C6EF372 0xA54FF53A 0x510E527F 0x9B05688C 0x1F83D9AB 0x5BE0CD19"

definition bsig0 :: "w32 \<Rightarrow> w32" where
  "bsig0 x = word_rotr 2 x XOR word_rotr 13 x XOR word_rotr 22 x"

definition bsig1 :: "w32 \<Rightarrow> w32" where
  "bsig1 x = word_rotr 6 x XOR word_rotr 11 x XOR word_rotr 25 x"

definition ssig0 :: "w32 \<Rightarrow> w32" where
  "ssig0 x = word_rotr 7 x XOR word_rotr 18 x XOR drop_bit 3 x"

definition ssig1 :: "w32 \<Rightarrow> w32" where
  "ssig1 x = word_rotr 17 x XOR word_rotr 19 x XOR drop_bit 10 x"

definition Ch :: "w32 \<Rightarrow> w32 \<Rightarrow> w32 \<Rightarrow> w32" where
  "Ch x y z = (x AND y) XOR (NOT x AND z)"

definition Maj :: "w32 \<Rightarrow> w32 \<Rightarrow> w32 \<Rightarrow> w32" where
  "Maj x y z = (x AND y) XOR (x AND z) XOR (y AND z)"

text \<open>
  Message schedule.  The list \<open>r\<close> holds the words computed so far, latest first, so
  \<open>W(t-2), W(t-7), W(t-15), W(t-16)\<close> are \<open>r ! 1, r ! 6, r ! 14, r ! 15\<close>.
\<close>

fun sched_ext :: "nat \<Rightarrow> w32 list \<Rightarrow> w32 list" where
  "sched_ext 0 r = r"
| "sched_ext (Suc n) r = sched_ext n ((ssig1 (r ! 1) + r ! 6 + ssig0 (r ! 14) + r ! 15) # r)"

definition schedule :: "w32 list \<Rightarrow> w32 list" where
  "schedule ws = rev (sched_ext 48 (rev ws))"

fun sha_round :: "h8 \<Rightarrow> w32 \<times> w32 \<Rightarrow> h8" where
  "sha_round (H8 a b c d e f g h) (k, w) =
     (let t1 = h + bsig1 e + Ch e f g + k + w;
          t2 = bsig0 a + Maj a b c
      in H8 (t1 + t2) a b c (d + t1) e f g)"

fun h8_add :: "h8 \<Rightarrow> h8 \<Rightarrow> h8" where
  "h8_add (H8 a b c d e f g h) (H8 a' b' c' d' e' f' g' h') =
     H8 (a + a') (b + b') (c + c') (d + d') (e + e') (f + f') (g + g') (h + h')"

text \<open>Big-endian conversion between bytes and words.\<close>

fun be_words :: "byte list \<Rightarrow> w32 list" where
  "be_words (a # b # c # d # rest) =
     (push_bit 24 (ucast a) OR push_bit 16 (ucast b) OR push_bit 8 (ucast c) OR ucast d) # be_words rest"
| "be_words _ = []"

definition be32_bytes :: "w32 \<Rightarrow> byte list" where
  "be32_bytes w = [ucast (drop_bit 24 w), ucast (drop_bit 16 w), ucast (drop_bit 8 w), ucast w]"

definition be64_length :: "nat \<Rightarrow> byte list" where
  "be64_length n = map (\<lambda>i. ucast (drop_bit (56 - 8 * i) (of_nat n :: 64 word))) [0..<8]"

definition compress :: "h8 \<Rightarrow> byte list \<Rightarrow> h8" where
  "compress hs blk = h8_add hs (foldl sha_round hs (zip K256 (schedule (be_words blk))))"

text \<open>Padding (5.1.1): a one bit, zeros up to 56 mod 64 bytes, the bit length in 64 bits.\<close>

definition sha256_pad :: "byte list \<Rightarrow> byte list" where
  "sha256_pad m = m @ [0x80] @ replicate ((119 - length m mod 64) mod 64) 0 @ be64_length (8 * length m)"

function blocks64 :: "byte list \<Rightarrow> byte list list" where
  "blocks64 xs = (if xs = [] then [] else take 64 xs # blocks64 (drop 64 xs))"
  by pat_completeness auto
termination
  by (relation "measure length") auto

declare blocks64.simps [simp del]

fun h8_bytes :: "h8 \<Rightarrow> byte list" where
  "h8_bytes (H8 a b c d e f g h) = concat (map be32_bytes [a, b, c, d, e, f, g, h])"

definition SHA256 :: "byte list \<Rightarrow> byte list" where
  "SHA256 m = h8_bytes (foldl compress H0_256 (blocks64 (sha256_pad m)))"

subsection \<open>HMAC (FIPS 198-1) over SHA-256\<close>

definition hmac_K0 :: "byte list \<Rightarrow> byte list" where
  "hmac_K0 k = (if 64 < length k then SHA256 k @ replicate 32 0 else k @ replicate (64 - length k) 0)"

definition HMAC_SHA256 :: "byte list \<Rightarrow> byte list \<Rightarrow> byte list" where
  "HMAC_SHA256 k text =
     (let k0 = hmac_K0 k
      in SHA256 (map (\<lambda>b. b XOR 0x5c) k0 @ SHA256 (map (\<lambda>b. b XOR 0x36) k0 @ text)))"

subsection \<open>Hex digest and the source's helper\<close>

definition hex_byte :: "byte \<Rightarrow> string" where
  "hex_byte b = [hex_lower (unat b div 16), hex_lower (unat b mod 16)]"

definition hex_digest :: "byte list \<Rightarrow> string" where
  "hex_digest bs = concat (map hex_byte bs)"

text \<open>\<^verbatim>\<open>crypto.createHmac('sha256', key).update(data).digest('hex')\<close> on strings.\<close>

definition hmac_hex :: "string \<Rightarrow> string \<Rightarrow> string" where
  "hmac_hex key data = hex_digest (HMAC_SHA256 (utf8_encode key) (utf8_encode data))"

definition sha256 :: "jsval \<Rightarrow> jsval \<Rightarrow> exn + string" where
  "sha256 password salt =
     (case js_toString salt of
        Inl e \<Rightarrow> Inl e
      | Inr key \<Rightarrow>
          (case js_toString password of
             Inl e \<Rightarrow> Inl e
           | Inr data \<Rightarrow> Inr (hmac_hex key data)))"

subsection \<open>Lemmas: lengths, padding, the helper's outcomes\<close>

lemma length_be32_bytes [simp]: "length (be32_bytes w) = 4"
  by (simp add: be32_bytes_def)

lemma length_h8_bytes [simp]: "length (h8_bytes h) = 32"
  by (cases h) simp

lemma length_SHA256 [simp]: "length (SHA256 m) = 32"
  by (simp add: SHA256_def)

lemma length_hmac_K0 [simp]: "length (hmac_K0 k) = 64"
  by (simp add: hmac_K0_def)

lemma length_HMAC_SHA256 [simp]: "length (HMAC_SHA256 k t) = 32"
  by (simp add: HMAC_SHA256_def Let_def)

lemma length_hex_digest [simp]: "length (hex_digest bs) = 2 * length bs"
  by (induction bs) (simp_all add: hex_digest_def hex_byte_def)

lemma hex_byte_chars: "set (hex_byte b) \<subseteq> set lower_hex_digits"
proof -
  have "unat b < 256"
    using unsigned_less [of b] by simp
  then have "unat b div 16 < 16" and "unat b mod 16 < 16"
    by simp_all
  then show ?thesis
    by (simp add: hex_byte_def hex_lower_range)
qed

lemma hex_digest_chars: "set (hex_digest bs) \<subseteq> set lower_hex_digits"
proof -
  have "set (hex_digest bs) = (\<Union>b\<in>set bs. set (hex_byte b))"
    by (simp add: hex_digest_def)
  also have "\<dots> \<subseteq> set lower_hex_digits"
    by (rule UN_least) (rule hex_byte_chars)
  finally show ?thesis .
qed

lemma length_hmac_hex [simp]: "length (hmac_hex k d) = 64"
  by (simp add: hmac_hex_def)

lemma length_be64_length [simp]: "length (be64_length n) = 8"
  by (simp add: be64_length_def)

lemma length_sha256_pad: "length (sha256_pad m) = length m + 9 + (119 - length m mod 64) mod 64"
  by (simp add: sha256_pad_def)

lemma pad_arith: "((n::nat) + 9 + (119 - n mod 64) mod 64) mod 64 = 0"
proof -
  define r where "r = n mod 64"
  have r: "r < 64" and n: "n = 64 * (n div 64) + r"
    by (simp_all add: r_def)
  have k: "(119 - r) mod 64 = (if r \<le> 55 then 55 - r else 119 - r)"
  proof (cases "r \<le> 55")
    case True
    then have "119 - r = (55 - r) + 64" by simp
    then have "(119 - r) mod 64 = (55 - r) mod 64" by (simp only: mod_add_self2)
    then show ?thesis using True by simp
  next
    case False
    with r show ?thesis by simp
  qed
  have "n + 9 + (119 - r) mod 64 = 64 * (n div 64 + (if r \<le> 55 then 1 else 2))"
    using r by (subst n, simp only: k) auto
  then show ?thesis by (simp add: r_def)
qed

lemma sha256_pad_dvd: "64 dvd length (sha256_pad m)"
  unfolding dvd_eq_mod_eq_0 length_sha256_pad by (rule pad_arith)

lemma blocks64_length: "64 dvd length xs \<Longrightarrow> blk \<in> set (blocks64 xs) \<Longrightarrow> length blk = 64"
proof (induction xs rule: blocks64.induct)
  case (1 xs)
  show ?case
  proof (cases "xs = []")
    case True
    with "1.prems" show ?thesis by (simp add: blocks64.simps [of "[]"])
  next
    case False
    with "1.prems"(1) have len: "64 \<le> length xs"
      by (auto dest: dvd_imp_le)
    from "1.prems"(1) have "64 dvd length (drop 64 xs)"
      by (simp add: dvd_diff_nat)
    with False "1.prems"(2) "1.IH" len show ?thesis
      by (auto simp: blocks64.simps [of xs])
  qed
qed

lemma sha256_Inr_iff:
  "sha256 password salt = Inr h \<longleftrightarrow>
     (\<exists>p k. js_toString password = Inr p \<and> js_toString salt = Inr k \<and> h = hmac_hex k p)"
  by (auto simp: sha256_def split: sum.splits)

lemma sha256_Str [simp]: "sha256 (Str p) (Str k) = Inr (hmac_hex k p)"
  by (simp add: sha256_def)

lemma sha256_Str_salt [simp]: "sha256 password (Str k) = map_sum id (hmac_hex k) (js_toString password)"
  by (simp add: sha256_def split: sum.split)

lemma sha256_Inl_iff:
  "sha256 password salt = Inl e \<longleftrightarrow>
     js_toString salt = Inl e \<or> (\<exists>k. js_toString salt = Inr k \<and> js_toString password = Inl e)"
  by (auto simp: sha256_def split: sum.splits)

lemma sha256_Inl_TypeError: "sha256 password salt = Inl e \<Longrightarrow> e = TypeError"
proof -
  have t: "js_toString v = Inl e \<Longrightarrow> e = TypeError" for v
    by (cases v) (auto simp del: js_String.simps dest: js_String_Inl_TypeError)
  show "sha256 password salt = Inl e \<Longrightarrow> e = TypeError"
    by (auto simp: sha256_Inl_iff dest: t)
qed

lemma hmac_hex_neq: "length s \<noteq> 64 \<Longrightarrow> hmac_hex k d \<noteq> s"
  by auto

text \<open>C15: the helper \<^verbatim>\<open>sha256\<close> returns a value exactly when both arguments are
  strings, and the value is the HMAC-SHA256 of the password keyed by the salt, written
  as 64 lowercase hexadecimal digits; otherwise it throws a \<^verbatim>\<open>TypeError\<close>.\<close>

theorem sha256_result:
  assumes "sha256 pw salt = Inr h"
  shows "(\<exists>p k. js_toString pw = Inr p \<and> js_toString salt = Inr k \<and> h = hmac_hex k p) \<and>
         length h = 64 \<and> set h \<subseteq> set lower_hex_digits"
  using assms hex_digest_chars by (auto simp: sha256_Inr_iff hmac_hex_def)

theorem sha256_result_witness:
  "sha256 (Str ''secret1'') (Str ''1700000000000'') = Inr (hmac_hex ''1700000000000'' ''secret1'') \<and>
   (\<exists>p k. js_toString (Str ''secret1'') = Inr p \<and> js_toString (Str ''1700000000000'') = Inr k \<and>
          hmac_hex ''1700000000000'' ''secret1'' = hmac_hex k p) \<and>
   length (hmac_hex ''1700000000000'' ''secret1'') = 64 \<and>
   set (hmac_hex ''1700000000000'' ''secret1'') \<subseteq> set lower_hex_digits"
  using sha256_result [of "Str ''secret1''" "Str ''1700000000000''" "hmac_hex ''1700000000000'' ''secret1''"]
  by simp

text \<open>The padded message splits into whole 64-byte blocks and is longer than the
  message.\<close>

theorem sha256_pad_blocks:
  assumes "blk \<in> set (blocks64 (sha256_pad m))"
  shows "length blk = 64 \<and> length m < length (sha256_pad m)"
  using blocks64_length [OF sha256_pad_dvd assms] by (simp add: length_sha256_pad)

theorem sha256_pad_blocks_witness:
  "sha256_pad [] \<in> set (blocks64 (sha256_pad [])) \<and>
   length (sha256_pad ([]::byte list)) = 64 \<and> length ([]::byte list) < length (sha256_pad ([]::byte list))"
proof -
  have len: "length (sha256_pad ([]::byte list)) = 64"
    by (simp add: length_sha256_pad)
  then have "blocks64 (sha256_pad []) = [sha256_pad []]"
    by (auto simp: blocks64.simps [of "sha256_pad []"] blocks64.simps [of "[]"])
  then show ?thesis
    using sha256_pad_blocks [of "sha256_pad []" "[]"] by simp
qed





end
