(* ===== verification/UserStore.thy ===== *)
theory UserStore
  imports JsRuntime
begin

text \<open>
  The UserStore of the spec: the global object \<^verbatim>\<open>db\<close> of \<^verbatim>\<open>src/src/index.js\<close>, loaded
  from \<^verbatim>\<open>db/database.json\<close> at start-up (lines 18--26), rewritten in full by
  \<^verbatim>\<open>writeDB\<close> (30--34), read by \<^verbatim>\<open>getUser\<close> (35--40) and \<^verbatim>\<open>authUser\<close> (50--55), and
  extended by \<^verbatim>\<open>saveUser\<close> (41--49).

  \<^verbatim>\<open>db\<close> is a plain object literal \<^verbatim>\<open>{}\<close>, so a read \<^verbatim>\<open>db[k]\<close> finds an own property
  (a user record), or else a property inherited from \<^verbatim>\<open>Object.prototype\<close> (a built-in
  function, truthy), or else \<^verbatim>\<open>undefined\<close>; the key is \<^verbatim>\<open>String(username)\<close>.  The own
  properties are a map from strings to user records.  A user record has the four
  fields the registration handler writes; each holds a JavaScript value, since a field
  missing from the form is stored as \<^verbatim>\<open>undefined\<close> and a record loaded from disk may
  lack fields; a field holds whatever the body parser delivered, so it may be an
  array or an object.  The key of a read or a write is ToString of the user name,
  which throws on an object with an own \<^verbatim>\<open>toString\<close>.  The persisted file is
  modelled at the level of the JSON document: \<open>None\<close> is a file that is missing or
  does not parse, \<open>Some j\<close> a document whose top level maps user names to objects
  whose fields are JSON values (the shape \<^verbatim>\<open>JSON.stringify(db)\<close> writes).  The text
  encoding of JSON is the library's and is not modelled.
\<close>

record user =
  username :: jsval
  name :: jsval
  password :: jsval
  date :: jsval

type_synonym db = "string \<rightharpoonup> user"

datatype jleaf = JNull | JStr string | JArr "jleaf list" | JObj "(string \<times> jleaf) list"

type_synonym jobj = "string \<rightharpoonup> jleaf"
type_synonym snapshot = "string \<rightharpoonup> jobj"

record store =
  db :: db
  disk :: "snapshot option"

text \<open>The three outcomes of a property read \<^verbatim>\<open>db[k]\<close>.\<close>

datatype lookup = Own user | Inherited | Absent

definition db_get :: "db \<Rightarrow> string \<Rightarrow> lookup" where
  "db_get d k =
     (case d k of
        Some u \<Rightarrow> Own u
      | None \<Rightarrow> if k \<in> set object_proto_keys then Inherited else Absent)"

fun lookup_truthy :: "lookup \<Rightarrow> bool" where
  "lookup_truthy (Own u) = True"
| "lookup_truthy Inherited = True"
| "lookup_truthy Absent = False"

subsection \<open>The persisted snapshot\<close>

text \<open>\<^verbatim>\<open>JSON.stringify\<close> omits a property whose value is \<^verbatim>\<open>undefined\<close> and writes
  an \<^verbatim>\<open>undefined\<close> array element as \<^verbatim>\<open>null\<close>; an object's own properties are
  written in the object's property order, which the association list follows.  A
  \<^verbatim>\<open>toJSON\<close> property from the body parser is a string, not a method, and is
  written like any other.\<close>

fun leaf_of :: "jsval \<Rightarrow> jleaf option" where
  "leaf_of Undefined = None"
| "leaf_of Null = Some JNull"
| "leaf_of (Str s) = Some (JStr s)"
| "leaf_of (Arr vs) = Some (JArr (map (\<lambda>v. case leaf_of v of None \<Rightarrow> JNull | Some l \<Rightarrow> l) vs))"
| "leaf_of (Obj fs) =
     Some (JObj (concat (map (\<lambda>f. case leaf_of (snd f) of None \<Rightarrow> [] | Some l \<Rightarrow> [(fst f, l)]) fs)))"

text \<open>\<^verbatim>\<open>JSON.parse\<close> builds the value back; a missing field reads as \<^verbatim>\<open>undefined\<close>.\<close>

fun jval :: "jleaf \<Rightarrow> jsval" where
  "jval JNull = Null"
| "jval (JStr s) = Str s"
| "jval (JArr ls) = Arr (map jval ls)"
| "jval (JObj fs) = Obj (map (\<lambda>f. (fst f, jval (snd f))) fs)"

fun val_of_leaf :: "jleaf option \<Rightarrow> jsval" where
  "val_of_leaf None = Undefined"
| "val_of_leaf (Some l) = jval l"

text \<open>The values that survive the round trip: no \<^verbatim>\<open>undefined\<close> inside an array or
  an object.\<close>

fun json_safe :: "jsval \<Rightarrow> bool" where
  "json_safe (Arr vs) = (\<forall>v\<in>set vs. v \<noteq> Undefined \<and> json_safe v)"
| "json_safe (Obj fs) = (\<forall>f\<in>set fs. snd f \<noteq> Undefined \<and> json_safe (snd f))"
| "json_safe _ = True"

definition user_safe :: "user \<Rightarrow> bool" where
  "user_safe u \<longleftrightarrow> json_safe (username u) \<and> json_safe (name u) \<and> json_safe (password u) \<and> json_safe (date u)"

definition db_safe :: "db \<Rightarrow> bool" where
  "db_safe d \<longleftrightarrow> (\<forall>u\<in>ran d. user_safe u)"

definition user_json :: "user \<Rightarrow> jobj" where
  "user_json u =
     (\<lambda>k. if k = ''username'' then leaf_of (username u)
          else if k = ''name'' then leaf_of (name u)
          else if k = ''password'' then leaf_of (password u)
          else if k = ''date'' then leaf_of (date u)
          else None)"

definition json_user :: "jobj \<Rightarrow> user" where
  "json_user j =
     \<lparr>username = val_of_leaf (j ''username''), name = val_of_leaf (j ''name''),
      password = val_of_leaf (j ''password''), date = val_of_leaf (j ''date'')\<rparr>"

definition snapshot_of :: "db \<Rightarrow> snapshot" where
  "snapshot_of d = (\<lambda>k. map_option user_json (d k))"

text \<open>Start-up: parse the file, or start from \<^verbatim>\<open>{}\<close> when it is missing or corrupt.\<close>

definition load_db :: "snapshot option \<Rightarrow> db" where
  "load_db f = (case f of None \<Rightarrow> Map.empty | Some j \<Rightarrow> (\<lambda>k. map_option json_user (j k)))"

definition writeDB :: "store \<Rightarrow> store" where
  "writeDB s = s\<lparr>disk := Some (snapshot_of (db s))\<rparr>"

subsection \<open>Operations\<close>

text \<open>\<^verbatim>\<open>getUser\<close> returns \<^verbatim>\<open>db[username]\<close> when it is truthy and \<^verbatim>\<open>false\<close> (here
  \<open>Absent\<close>) otherwise; the key conversion may throw.\<close>

definition getUser :: "store \<Rightarrow> jsval \<Rightarrow> exn + lookup" where
  "getUser s u =
     map_sum id (\<lambda>k. let v = db_get (db s) k in if lookup_truthy v then v else Absent) (js_String u)"

text \<open>\<^verbatim>\<open>saveUser\<close> is an action on the store: it converts the key, refuses a
  truthy slot, and otherwise adds the record and writes the file.\<close>

definition saveUser :: "user \<Rightarrow> (store, exn, bool) act" where
  "saveUser u s =
     (case js_String (username u) of
        Inl e \<Rightarrow> (Inl e, s)
      | Inr k \<Rightarrow>
          if lookup_truthy (db_get (db s) k) then (Inr False, s)
          else (Inr True, writeDB (s\<lparr>db := (db s)(k \<mapsto> u)\<rparr>)))"

text \<open>\<^verbatim>\<open>authUser\<close> is defined but never called; \<^verbatim>\<open>db[username].password\<close> throws on
  a missing user and reads \<^verbatim>\<open>undefined\<close> on an inherited built-in.\<close>

definition authUser :: "store \<Rightarrow> jsval \<Rightarrow> jsval \<Rightarrow> exn + bool" where
  "authUser s u pw =
     (case js_String u of
        Inl e \<Rightarrow> Inl e
      | Inr k \<Rightarrow>
          (case db_get (db s) k of
             Own r \<Rightarrow> Inr (js_strict_eq (password r) pw)
           | Inherited \<Rightarrow> Inr (js_strict_eq Undefined pw)
           | Absent \<Rightarrow> Inl TypeError))"

text \<open>The durability invariant: reloading the file reproduces the in-memory store.\<close>

definition store_consistent :: "store \<Rightarrow> bool" where
  "store_consistent s \<longleftrightarrow> load_db (disk s) = db s"

lemmas [store_simps] = db_get_def getUser_def saveUser_def writeDB_def

subsection \<open>Lemmas\<close>

lemma leaf_of_None_iff: "leaf_of v = None \<longleftrightarrow> v = Undefined"
  by (cases v) simp_all

lemma leaf_roundtrip: "json_safe v \<Longrightarrow> val_of_leaf (leaf_of v) = v"
proof (induction v rule: leaf_of.induct)
  case (4 vs)
  have "jval (case leaf_of v of None \<Rightarrow> JNull | Some l \<Rightarrow> l) = v" if "v \<in> set vs" for v
  proof -
    have "val_of_leaf (leaf_of v) = v" and "v \<noteq> Undefined"
      using that 4 by auto
    then show ?thesis by (cases "leaf_of v") (simp_all add: leaf_of_None_iff)
  qed
  then have "map (\<lambda>v. jval (case leaf_of v of None \<Rightarrow> JNull | Some l \<Rightarrow> l)) vs = vs"
    by (rule map_idI)
  then show ?case by (simp add: comp_def)
next
  case (5 fs)
  then have pt: "\<forall>f\<in>set fs. snd f \<noteq> Undefined \<and> val_of_leaf (leaf_of (snd f)) = snd f"
    by (metis prod.collapse json_safe.simps(2))
  have "map (\<lambda>f. (fst f, jval (snd f)))
          (concat (map (\<lambda>f. case leaf_of (snd f) of None \<Rightarrow> [] | Some l \<Rightarrow> [(fst f, l)]) fs)) = fs"
    using pt
  proof (induction fs)
    case (Cons f fs)
    then show ?case by (cases "leaf_of (snd f)") (auto simp: prod_eq_iff leaf_of_None_iff)
  qed simp
  then show ?case by simp
qed simp_all

lemma jval_safe: "json_safe (jval l)"
proof (induction l rule: jval.induct)
  case (3 ls)
  then show ?case by (auto elim: jval.elims)
next
  case (4 fs)
  then show ?case by (auto elim: jval.elims)
qed simp_all

lemma val_of_leaf_safe: "json_safe (val_of_leaf l)"
  by (cases l) (simp_all add: jval_safe)

lemma json_user_user_json: "user_safe u \<Longrightarrow> json_user (user_json u) = u"
  by (simp add: json_user_def user_json_def user_safe_def leaf_roundtrip)

lemma json_user_safe: "user_safe (json_user j)"
  by (simp add: json_user_def user_safe_def val_of_leaf_safe)

lemma load_db_safe: "db_safe (load_db f)"
  by (auto simp: db_safe_def load_db_def ran_def json_user_safe split: option.splits)

lemma load_snapshot: "db_safe d \<Longrightarrow> load_db (Some (snapshot_of d)) = d"
proof
  fix k
  assume safe: "db_safe d"
  show "load_db (Some (snapshot_of d)) k = d k"
  proof (cases "d k")
    case (Some u)
    with safe have "user_safe u" by (auto simp: db_safe_def ran_def)
    with Some show ?thesis by (simp add: load_db_def snapshot_of_def json_user_user_json)
  qed (simp add: load_db_def snapshot_of_def)
qed

lemma db_safe_upd: "db_safe d \<Longrightarrow> user_safe u \<Longrightarrow> db_safe (d(k \<mapsto> u))"
  by (auto simp: db_safe_def ran_def)

lemma db_get_Own [simp]: "d k = Some u \<Longrightarrow> db_get d k = Own u"
  by (simp add: db_get_def)

lemma db_get_truthy_iff: "lookup_truthy (db_get d k) \<longleftrightarrow> k \<in> dom d \<or> k \<in> set object_proto_keys"
  by (auto simp: db_get_def split: option.splits)

lemma db_get_Absent_iff: "db_get d k = Absent \<longleftrightarrow> d k = None \<and> k \<notin> set object_proto_keys"
  by (auto simp: db_get_def split: option.splits)

lemma not_truthy_Absent: "\<not> lookup_truthy v \<longleftrightarrow> v = Absent"
  by (cases v) simp_all

lemma getUser_db_get: "js_String u = Inr k \<Longrightarrow> getUser s u = Inr (db_get (db s) k)"
  by (cases "db_get (db s) k") (auto simp: getUser_def)

lemma getUser_throws: "js_String u = Inl e \<Longrightarrow> getUser s u = Inl e"
  by (simp add: getUser_def)

lemma saveUser_fresh:
  assumes "js_String (username u) = Inr k" and "db_get (db s) k = Absent"
  shows "saveUser u s = (Inr True, s\<lparr>db := (db s)(k \<mapsto> u), disk := Some (snapshot_of ((db s)(k \<mapsto> u)))\<rparr>)"
  using assms by (simp add: saveUser_def writeDB_def)

lemma saveUser_taken:
  "js_String (username u) = Inr k \<Longrightarrow> lookup_truthy (db_get (db s) k) \<Longrightarrow> saveUser u s = (Inr False, s)"
  by (simp add: saveUser_def)

lemma saveUser_throws:
  "js_String (username u) = Inl e \<Longrightarrow> saveUser u s = (Inl e, s)"
  by (simp add: saveUser_def)

lemma saveUser_db_cases:
  "db (snd (saveUser u st)) k = Some v \<Longrightarrow> db st k = Some v \<or> v = u"
  by (auto simp: saveUser_def writeDB_def split: if_splits sum.splits)

lemma saveUser_safe: "db_safe (db s) \<Longrightarrow> user_safe u \<Longrightarrow> db_safe (db (snd (saveUser u s)))"
  by (auto simp: saveUser_def writeDB_def db_safe_upd split: sum.splits)

lemma saveUser_consistent:
  assumes "store_consistent s" and "db_safe (db s)" and "user_safe u"
  shows "store_consistent (snd (saveUser u s)) \<and> db_safe (db (snd (saveUser u s)))"
  using assms
  by (auto simp: saveUser_def writeDB_def store_consistent_def load_snapshot db_safe_upd split: sum.splits)

lemma saveUser_mono: "db s \<subseteq>\<^sub>m db (snd (saveUser u s))"
  by (auto simp: saveUser_def writeDB_def db_get_def map_le_def split: option.splits sum.splits)

text \<open>C17: writing the store and reading it back is the identity on every store
  whose records hold no \<^verbatim>\<open>undefined\<close> inside an array or object (a field that is
  \<^verbatim>\<open>undefined\<close> itself is omitted and read back as missing, \<^verbatim>\<open>null\<close> and nested
  arrays and objects are kept), and every store read from a file is of that kind, so
  a second write and read changes nothing.\<close>

theorem snapshot_roundtrip:
  assumes "db_safe d"
  shows "load_db (Some (snapshot_of d)) = d \<and>
         load_db (Some (snapshot_of (load_db f))) = load_db f"
  using assms by (simp add: load_snapshot load_db_safe)

theorem snapshot_roundtrip_witness:
  "let d = [''alice1'' \<mapsto> \<lparr>username = Str ''alice1'', name = Arr [Str ''A'', Obj [(''x'', Null)]],
                           password = Undefined, date = Str ''1''\<rparr>]
   in db_safe d \<and> load_db (Some (snapshot_of d)) = d \<and>
      load_db (Some (snapshot_of (load_db None))) = load_db None"
proof -
  let ?d = "[''alice1'' \<mapsto> \<lparr>username = Str ''alice1'', name = Arr [Str ''A'', Obj [(''x'', Null)]],
                           password = Undefined, date = Str ''1''\<rparr>]"
  have s: "db_safe ?d" by (simp add: db_safe_def user_safe_def)
  show ?thesis using snapshot_roundtrip [OF s, of None] s by simp
qed

text \<open>C21: for a user name whose key converts, \<^verbatim>\<open>saveUser\<close> succeeds exactly when
  the key is neither an own record nor an inherited property; it never drops a
  record; and on success the new record is what \<^verbatim>\<open>getUser\<close> finds and the file on
  disk is the snapshot of the new store.\<close>

theorem saveUser_result:
  assumes "js_String (username u) = Inr k"
  shows "fst (saveUser u s) = Inr (k \<notin> dom (db s) \<and> k \<notin> set object_proto_keys) \<and>
         db s \<subseteq>\<^sub>m db (snd (saveUser u s)) \<and>
         (k \<notin> dom (db s) \<and> k \<notin> set object_proto_keys \<longrightarrow>
            getUser (snd (saveUser u s)) (username u) = Inr (Own u) \<and>
            disk (snd (saveUser u s)) = Some (snapshot_of (db (snd (saveUser u s)))))"
proof (cases "db_get (db s) k = Absent")
  case True
  then show ?thesis
    using assms saveUser_mono [of s u]
    by (simp add: saveUser_fresh getUser_db_get db_get_Absent_iff domIff)
next
  case False
  then have "lookup_truthy (db_get (db s) k)"
    by (simp add: not_truthy_Absent [symmetric])
  with False assms show ?thesis
    by (auto simp: saveUser_taken db_get_Absent_iff domIff)
qed

theorem saveUser_result_witness:
  "let u = \<lparr>username = Str ''alice1'', name = Str ''Alice A'', password = Str ''h'', date = Str ''1''\<rparr>;
       s = \<lparr>db = Map.empty, disk = None\<rparr>
   in js_String (username u) = Inr ''alice1'' \<and> fst (saveUser u s) = Inr True \<and>
      getUser (snd (saveUser u s)) (username u) = Inr (Own u) \<and>
      disk (snd (saveUser u s)) = Some (snapshot_of (db (snd (saveUser u s))))"
proof -
  let ?u = "\<lparr>username = Str ''alice1'', name = Str ''Alice A'', password = Str ''h'', date = Str ''1''\<rparr>"
  let ?s = "\<lparr>db = Map.empty, disk = None\<rparr> :: store"
  have k: "js_String (username ?u) = Inr ''alice1''" by simp
  show ?thesis
    using saveUser_result [OF k, of ?s] by (simp add: object_proto_keys_def)
qed

end
