(* ===== verification/BodyParser.thy ===== *)
theory BodyParser
  imports JsRuntime
begin

text \<open>
  The body parser: \<^verbatim>\<open>bodyparser.urlencoded({extended: true})\<close> (line 66 of
  \<^verbatim>\<open>src/src/index.js\<close>) fills \<^verbatim>\<open>req.body\<close> from a form-encoded request body with the
  \<^verbatim>\<open>qs\<close> library.  The library is not part of the repository; what the handlers
  depend on is the shape of its result, modelled here.  A field that is not in the
  body reads as \<^verbatim>\<open>undefined\<close>; a present field is a string (\<^verbatim>\<open>name=v\<close>), an array
  (\<^verbatim>\<open>name[]=v\<close>, \<^verbatim>\<open>name[0]=v\<close>, or a name given twice), or an object
  (\<^verbatim>\<open>name[key]=v\<close>, with \<^verbatim>\<open>allowPrototypes\<close> set by body-parser, so that keys such as
  \<^verbatim>\<open>toString\<close> are kept), nested to any depth, with strings at the leaves.  The
  parser never produces \<^verbatim>\<open>null\<close> or an \<^verbatim>\<open>undefined\<close> inside a value.
\<close>

record form =
  body_username :: jsval
  body_name :: jsval
  body_password :: jsval

text \<open>The values \<^verbatim>\<open>qs\<close> can produce for a present field.\<close>

fun qs_value :: "jsval \<Rightarrow> bool" where
  "qs_value (Str s) = True"
| "qs_value (Arr vs) = (\<forall>v\<in>set vs. qs_value v)"
| "qs_value (Obj fs) = (\<forall>f\<in>set fs. qs_value (snd f))"
| "qs_value _ = False"

definition parsed_field :: "jsval \<Rightarrow> bool" where
  "parsed_field v \<longleftrightarrow> v = Undefined \<or> qs_value v"

definition parsed_form :: "form \<Rightarrow> bool" where
  "parsed_form b \<longleftrightarrow>
     parsed_field (body_username b) \<and> parsed_field (body_name b) \<and> parsed_field (body_password b)"

subsection \<open>Lemmas\<close>

lemma parsed_field_simps [simp]:
  "parsed_field Undefined" "\<not> parsed_field Null" "parsed_field (Str s)"
  "parsed_field (Arr vs) \<longleftrightarrow> (\<forall>v\<in>set vs. qs_value v)"
  "parsed_field (Obj fs) \<longleftrightarrow> (\<forall>f\<in>set fs. qs_value (snd f))"
  by (simp_all add: parsed_field_def)

end
