(* ===== verification/Validator.thy ===== *)
theory Validator
  imports BodyParser
begin

text \<open>
  The Validator of the spec: the length guard of the \<^verbatim>\<open>POST /users\<close> handler
  (\<^verbatim>\<open>src/src/index.js\<close> lines 105--116) and \<^verbatim>\<open>containsInvalidChars\<close> (lines 87--89),
  the regular expression \<^verbatim>\<open>/[^\d \w]/.test(string)\<close>.  Without the \<^verbatim>\<open>u\<close> flag
  \<^verbatim>\<open>\d\<close> is \<^verbatim>\<open>[0-9]\<close> and \<^verbatim>\<open>\w\<close> is \<^verbatim>\<open>[A-Za-z0-9_]\<close>; \<^verbatim>\<open>test\<close> converts its
  argument with ToString, so \<^verbatim>\<open>undefined\<close> is tested as the text \<^verbatim>\<open>"undefined"\<close>,
  an array as its comma-joined elements and an object as \<^verbatim>\<open>[object Object]\<close>.

  The guard reads \<^verbatim>\<open>.length\<close> of each field behind its \<^verbatim>\<open>undefined\<close> and \<^verbatim>\<open>null\<close>
  tests.  On a string it is the number of characters and on an array the number of
  elements; an object from the body parser has no \<^verbatim>\<open>length\<close> unless the form gave it
  one (\<^verbatim>\<open>password[length]=...\<close>), so the read gives \<^verbatim>\<open>undefined\<close> or that value.
  The comparisons \<^verbatim>\<open><= 3\<close> and \<^verbatim>\<open>>= 50\<close> convert it with ToNumber; NaN compares
  false both ways.
\<close>

fun js_length :: "jsval \<Rightarrow> exn + jsnum" where
  "js_length (Str s) = Inr (Fin (of_nat (length s)))"
| "js_length (Arr vs) = Inr (Fin (of_nat (length vs)))"
| "js_length (Obj fs) = js_ToNumber (case map_of fs ''length'' of None \<Rightarrow> Undefined | Some v \<Rightarrow> v)"
| "js_length Undefined = Inl TypeError"
| "js_length Null = Inl TypeError"

text \<open>\<^verbatim>\<open>x <= 3\<close> and \<^verbatim>\<open>x >= 50\<close> on the double nearest to the exact value: the
  doubles next to 3 are \<^verbatim>\<open>2^-51\<close> apart and those below 50 are \<^verbatim>\<open>2^-47\<close> apart,
  and a value half-way between rounds to the even neighbour, which is 3, resp. 50.\<close>

fun le_3 :: "jsnum \<Rightarrow> bool" where
  "le_3 NaN = False"
| "le_3 (Fin r) = (r \<le> 3 + 1 / 2 ^ 52)"
| "le_3 PosInf = False"
| "le_3 NegInf = True"

fun ge_50 :: "jsnum \<Rightarrow> bool" where
  "ge_50 NaN = False"
| "ge_50 (Fin r) = (50 - 1 / 2 ^ 48 \<le> r)"
| "ge_50 PosInf = True"
| "ge_50 NegInf = False"

definition length_le_3 :: "jsval \<Rightarrow> exn + bool" where
  "length_le_3 v = map_sum id le_3 (js_length v)"

definition length_ge_50 :: "jsval \<Rightarrow> exn + bool" where
  "length_ge_50 v = map_sum id ge_50 (js_length v)"

definition invalid_length :: "form \<Rightarrow> exn + bool" where
  "invalid_length b =
     js_or
       [Inr (Undefined = body_username b), Inr (Undefined = body_name b), Inr (Undefined = body_password b),
        Inr (body_username b = Null), length_le_3 (body_username b), length_ge_50 (body_username b),
        Inr (body_name b = Null), length_le_3 (body_name b), length_ge_50 (body_name b),
        Inr (body_password b = Null), length_le_3 (body_password b), length_ge_50 (body_password b)]"

definition is_word_char :: "char \<Rightarrow> bool" where
  "is_word_char c \<longleftrightarrow> is_ascii_alpha c \<or> is_ascii_digit c \<or> c = CHR ''_''"

definition allowed_char :: "char \<Rightarrow> bool" where
  "allowed_char c \<longleftrightarrow> is_ascii_digit c \<or> c = CHR '' '' \<or> is_word_char c"

definition containsInvalidChars :: "jsval \<Rightarrow> exn + bool" where
  "containsInvalidChars v = map_sum id (list_ex (\<lambda>c. \<not> allowed_char c)) (js_String v)"

text \<open>The spec's reading of the guard: a field is acceptable when it is a string of
  4 to 49 characters.\<close>

fun length_ok :: "jsval \<Rightarrow> bool" where
  "length_ok (Str s) = (4 \<le> length s \<and> length s \<le> 49)"
| "length_ok _ = False"

text \<open>The fields the spec has in mind: absent, \<^verbatim>\<open>null\<close>, or a string.\<close>

fun scalar_field :: "jsval \<Rightarrow> bool" where
  "scalar_field Undefined = True"
| "scalar_field Null = True"
| "scalar_field (Str s) = True"
| "scalar_field _ = False"

text \<open>What the guard really accepts of a body-parser value that has no own
  \<^verbatim>\<open>length\<close>: a string of 4 to 49 characters, an array of 4 to 49 elements, and
  every object.\<close>

fun accepted_length :: "jsval \<Rightarrow> bool" where
  "accepted_length (Str s) = (4 \<le> length s \<and> length s \<le> 49)"
| "accepted_length (Arr vs) = (4 \<le> length vs \<and> length vs \<le> 49)"
| "accepted_length (Obj fs) = True"
| "accepted_length _ = False"

fun has_own_length :: "jsval \<Rightarrow> bool" where
  "has_own_length (Obj fs) = (''length'' \<in> set (map fst fs))"
| "has_own_length _ = False"

subsection \<open>Lemmas\<close>

lemma le_3_of_nat: "le_3 (Fin (of_nat n)) \<longleftrightarrow> n \<le> 3"
proof
  assume "le_3 (Fin (of_nat n))"
  then have "(of_nat n :: rat) < 4" by simp
  then show "n \<le> 3" by simp
qed simp

lemma ge_50_of_nat: "ge_50 (Fin (of_nat n)) \<longleftrightarrow> 50 \<le> n"
proof
  assume "ge_50 (Fin (of_nat n))"
  then have "(49 :: rat) < of_nat n" by simp
  then show "50 \<le> n" by simp
qed simp

lemma length_checks_Str [simp]:
  "length_le_3 (Str s) = Inr (length s \<le> 3)" "length_ge_50 (Str s) = Inr (50 \<le> length s)"
  by (simp_all add: length_le_3_def length_ge_50_def le_3_of_nat ge_50_of_nat del: le_3.simps ge_50.simps)

lemma length_checks_Arr [simp]:
  "length_le_3 (Arr vs) = Inr (length vs \<le> 3)" "length_ge_50 (Arr vs) = Inr (50 \<le> length vs)"
  by (simp_all add: length_le_3_def length_ge_50_def le_3_of_nat ge_50_of_nat del: le_3.simps ge_50.simps)

lemma length_checks_Obj [simp]:
  assumes "\<not> has_own_length (Obj fs)"
  shows "length_le_3 (Obj fs) = Inr False" "length_ge_50 (Obj fs) = Inr False"
proof -
  have "map_of fs ''length'' = None"
    using assms by (simp add: map_of_eq_None_iff)
  then show "length_le_3 (Obj fs) = Inr False" "length_ge_50 (Obj fs) = Inr False"
    by (simp_all add: length_le_3_def length_ge_50_def)
qed

text \<open>The twelve tests, grouped: the three \<^verbatim>\<open>undefined\<close> tests, then those of each
  field in turn.\<close>

definition field_rejected :: "jsval \<Rightarrow> exn + bool" where
  "field_rejected v = js_or [Inr (v = Null), length_le_3 v, length_ge_50 v]"

lemma js_or_append: "js_or (xs @ ys) = (case js_or xs of Inr False \<Rightarrow> js_or ys | r \<Rightarrow> r)"
  by (induction xs rule: js_or.induct) simp_all

lemma invalid_length_fields:
  "invalid_length b =
     (if Undefined = body_username b \<or> Undefined = body_name b \<or> Undefined = body_password b
      then Inr True
      else case field_rejected (body_username b) of
        Inr False \<Rightarrow> (case field_rejected (body_name b) of
                        Inr False \<Rightarrow> field_rejected (body_password b)
                      | r \<Rightarrow> r)
      | r \<Rightarrow> r)"
proof -
  have "invalid_length b =
          js_or ([Inr (Undefined = body_username b), Inr (Undefined = body_name b),
                  Inr (Undefined = body_password b)] @
                 [Inr (body_username b = Null), length_le_3 (body_username b), length_ge_50 (body_username b)] @
                 [Inr (body_name b = Null), length_le_3 (body_name b), length_ge_50 (body_name b)] @
                 [Inr (body_password b = Null), length_le_3 (body_password b), length_ge_50 (body_password b)])"
    by (simp add: invalid_length_def)
  then show ?thesis
    by (simp only: js_or_append field_rejected_def [symmetric]) simp
qed

lemma field_rejected_accepted:
  "v \<noteq> Undefined \<Longrightarrow> \<not> has_own_length v \<Longrightarrow> field_rejected v = Inr (\<not> accepted_length v)"
  by (cases v) (auto simp: field_rejected_def)

lemma containsInvalidChars_Str:
  "containsInvalidChars (Str s) = Inr (\<exists>c\<in>set s. \<not> allowed_char c)"
  by (simp add: containsInvalidChars_def list_ex_iff)

lemma containsInvalidChars_Undefined [simp]: "containsInvalidChars Undefined = Inr False"
  by (simp add: containsInvalidChars_def allowed_char_def is_word_char_def is_ascii_alpha_def)

lemma containsInvalidChars_Null [simp]: "containsInvalidChars Null = Inr False"
  by (simp add: containsInvalidChars_def allowed_char_def is_word_char_def is_ascii_alpha_def)

lemma containsInvalidChars_Obj:
  "containsInvalidChars (Obj fs) =
     (if ''toString'' \<in> set (map fst fs) then Inl TypeError else Inr True)"
  by (simp add: containsInvalidChars_def allowed_char_def is_word_char_def is_ascii_alpha_def
                is_ascii_digit_def)

lemma scalar_accepted: "scalar_field v \<Longrightarrow> accepted_length v = length_ok v"
  by (cases v) simp_all

lemma scalar_no_own_length: "scalar_field v \<Longrightarrow> \<not> has_own_length v"
  by (cases v) simp_all

text \<open>The guard on fields without an own \<^verbatim>\<open>length\<close>: rejected exactly when a field
  is not accepted; no test throws.\<close>

lemma invalid_length_by_field:
  assumes "\<not> has_own_length (body_username b)" and "\<not> has_own_length (body_name b)"
    and "\<not> has_own_length (body_password b)"
  shows "invalid_length b =
           Inr (\<not> (accepted_length (body_username b) \<and> accepted_length (body_name b) \<and>
                    accepted_length (body_password b)))"
proof (cases "Undefined = body_username b \<or> Undefined = body_name b \<or> Undefined = body_password b")
  case True
  then show ?thesis by (auto simp: invalid_length_fields)
next
  case False
  have u: "field_rejected (body_username b) = Inr (\<not> accepted_length (body_username b))"
    using False assms(1) by (intro field_rejected_accepted) auto
  have n: "field_rejected (body_name b) = Inr (\<not> accepted_length (body_name b))"
    using False assms(2) by (intro field_rejected_accepted) auto
  have p: "field_rejected (body_password b) = Inr (\<not> accepted_length (body_password b))"
    using False assms(3) by (intro field_rejected_accepted) auto
  show ?thesis
    using False
    by (cases "accepted_length (body_username b)"; cases "accepted_length (body_name b)")
       (simp_all add: invalid_length_fields u n p)
qed

lemma invalid_length_False_password:
  assumes "invalid_length b = Inr False" and "body_password b = Str p"
  shows "4 \<le> length p \<and> length p \<le> 49"
proof -
  have "field_rejected (body_password b) = Inr False"
    using assms(1) by (auto simp: invalid_length_fields split: if_splits sum.splits bool.splits)
  then show ?thesis
    using assms(2) by (simp add: field_rejected_def split: if_splits)
qed

text \<open>C13: on fields that are absent, \<^verbatim>\<open>null\<close> or strings, the source's twelve-way
  guard rejects a registration exactly when one of the three fields is not a string
  of 4 to 49 characters, the range the spec states, and never throws.\<close>

theorem invalid_length_iff:
  assumes "scalar_field (body_username b)" and "scalar_field (body_name b)"
    and "scalar_field (body_password b)"
  shows "invalid_length b =
           Inr (\<not> (length_ok (body_username b) \<and> length_ok (body_name b) \<and> length_ok (body_password b)))"
  using invalid_length_by_field [of b] assms by (simp add: scalar_accepted scalar_no_own_length)

theorem invalid_length_iff_witness:
  "let b = \<lparr>body_username = Str ''abcd'', body_name = Null, body_password = Undefined\<rparr>
   in scalar_field (body_username b) \<and> scalar_field (body_name b) \<and> scalar_field (body_password b) \<and>
      invalid_length b = Inr True"
  using invalid_length_iff [where b = "\<lparr>body_username = Str ''abcd'', body_name = Null, body_password = Undefined\<rparr>"]
  by simp

text \<open>C28: the guard on what the body parser delivers: an array passes when it has 4
  to 49 elements, whatever they are, and an object without an own \<^verbatim>\<open>length\<close>
  always passes, since \<^verbatim>\<open>undefined <= 3\<close> and \<^verbatim>\<open>undefined >= 50\<close> are both false.\<close>

theorem invalid_length_structured:
  assumes "\<not> has_own_length (body_username b)" and "\<not> has_own_length (body_name b)"
    and "\<not> has_own_length (body_password b)"
  shows "invalid_length b =
           Inr (\<not> (accepted_length (body_username b) \<and> accepted_length (body_name b) \<and>
                    accepted_length (body_password b)))"
  using assms by (rule invalid_length_by_field)

theorem invalid_length_structured_witness:
  "let b = \<lparr>body_username = Str ''alice1'', body_name = Arr [Str ''A'', Str ''l'', Str ''i'', Str ''ce''],
            body_password = Obj [(''x'', Str ''1'')]\<rparr>
   in \<not> has_own_length (body_username b) \<and> \<not> has_own_length (body_name b) \<and>
      \<not> has_own_length (body_password b) \<and> invalid_length b = Inr False"
  using invalid_length_structured
    [where b = "\<lparr>body_username = Str ''alice1'', body_name = Arr [Str ''A'', Str ''l'', Str ''i'', Str ''ce''],
                body_password = Obj [(''x'', Str ''1'')]\<rparr>"]
  by simp

text \<open>The Validator on the spec's examples: a 2-character user name is rejected
  and a 4-character one accepted, a 50-character field is rejected and a 49-character
  one accepted; \<^verbatim>\<open>bad!name\<close> contains an invalid character and \<^verbatim>\<open>good name 2\<close>
  does not.  A password object with an own \<^verbatim>\<open>length\<close> is measured by ToNumber of
  that value: \<^verbatim>\<open>"10"\<close> and \<^verbatim>\<open>"0x1F"\<close> pass, \<^verbatim>\<open>" 2 "\<close> and \<^verbatim>\<open>"1e3"\<close> are
  rejected, \<^verbatim>\<open>"abc"\<close> (NaN) passes, and an object with an own \<^verbatim>\<open>toString\<close> makes
  the guard throw.\<close>

theorem validator_examples:
  "invalid_length \<lparr>body_username = Str ''ab'', body_name = Str ''Alice A'', body_password = Str ''secret1''\<rparr> = Inr True \<and>
   invalid_length \<lparr>body_username = Str ''abcd'', body_name = Str ''Alice A'', body_password = Str ''secret1''\<rparr> = Inr False \<and>
   invalid_length \<lparr>body_username = Str ''abcd'', body_name = Str (replicate 50 CHR ''a''), body_password = Str ''secret1''\<rparr> = Inr True \<and>
   invalid_length \<lparr>body_username = Str ''abcd'', body_name = Str (replicate 49 CHR ''a''), body_password = Str ''secret1''\<rparr> = Inr False \<and>
   containsInvalidChars (Str ''bad!name'') = Inr True \<and> containsInvalidChars (Str ''good name 2'') = Inr False \<and>
   map (\<lambda>l. invalid_length \<lparr>body_username = Str ''abcd'', body_name = Str ''Alice A'',
                             body_password = Obj [(''length'', l)]\<rparr>)
     [Str ''10'', Str ''0x1F'', Str '' 2 '', Str ''1e3'', Str ''abc'', Obj [(''toString'', Str ''x'')]] =
   [Inr False, Inr False, Inr True, Inr True, Inr False, Inl TypeError]"
  by (simp add: invalid_length_def length_le_3_def length_ge_50_def containsInvalidChars_def
                allowed_char_def is_word_char_def is_ascii_alpha_def is_ascii_digit_def
                str_to_number_def trim_space_def nondecimal_def unsigned_decimal_def
                radix_value_def hex_value_def exponent_value_def)


text \<open>C40: a form field sent as an object whose own \<^verbatim>\<open>length\<close> is a decimal string, as
  \<^verbatim>\<open>password[length]=10\<close> in the extended URL-encoded body delivers, is measured by the
  guard as that number: ToNumber reads back the digits, so the guard's comparisons
  see the number n.\<close>

theorem object_length_decimal:
  assumes "map_of fs ''length'' = Some (Str (decimal n))"
  shows "js_length (Obj fs) = Inr (Fin (of_nat n)) \<and>
         length_le_3 (Obj fs) = Inr (n \<le> 3) \<and> length_ge_50 (Obj fs) = Inr (50 \<le> n)"
  using assms
  by (simp add: str_to_number_decimal length_le_3_def length_ge_50_def le_3_of_nat ge_50_of_nat
           del: le_3.simps ge_50.simps)

theorem object_length_decimal_witness:
  "js_length (Obj [(''length'', Str ''10'')]) = Inr (Fin 10) \<and>
   length_le_3 (Obj [(''length'', Str ''10'')]) = Inr False \<and>
   length_ge_50 (Obj [(''length'', Str ''10'')]) = Inr False"
proof -
  have d: "decimal 10 = ''10''" by code_simp
  show ?thesis
    using object_length_decimal [of "[(''length'', Str ''10'')]" 10] by (simp add: d)
qed
end
