(* ===== verification/Server.thy ===== *)
theory Server
  imports Hasher UserStore Validator
begin

text \<open>
  The AuthService and the transport shell of the spec: the Express route handlers of
  \<^verbatim>\<open>src/src/index.js\<close> and the way Express runs them.  A handler runs on a context
  holding the user store, the \<^verbatim>\<open>name\<close> field of the requesting client's session and
  the response sent so far.  \<^verbatim>\<open>res.send\<close> and \<^verbatim>\<open>res.redirect\<close> end the response; a
  second one on the same response sets a header after the headers were sent and
  throws (\<^verbatim>\<open>ERR_HTTP_HEADERS_SENT\<close>, here \<open>HeadersSent\<close>).  None of the handlers
  returns after a redirect, so execution goes on past every failed check: that is
  modelled as it is written, each step of the handler a step of the action.  When a
  handler throws, Express's error handler answers 500 if nothing was sent yet, and
  otherwise only closes the connection; the mutations done before the throw remain.
\<close>

datatype response = Send nat string | Redirect string | ServerError

record ctx =
  cstore :: store
  sess_name :: jsval
  sent :: "response option"

type_synonym 'a handler = "(ctx, exn, 'a) act"

subsection \<open>Express primitives\<close>

definition res_send :: "nat \<Rightarrow> string \<Rightarrow> unit handler" where
  "res_send st body c =
     (if sent c = None then (Inr (), c\<lparr>sent := Some (Send st body)\<rparr>) else (Inl HeadersSent, c))"

definition res_redirect :: "string \<Rightarrow> unit handler" where
  "res_redirect loc c =
     (if sent c = None then (Inr (), c\<lparr>sent := Some (Redirect loc)\<rparr>) else (Inl HeadersSent, c))"

definition read_store :: "(store \<Rightarrow> 'a) \<Rightarrow> 'a handler" where
  "read_store f c = (Inr (f (cstore c)), c)"

definition read_storeE :: "(store \<Rightarrow> exn + 'a) \<Rightarrow> 'a handler" where
  "read_storeE f c = (f (cstore c), c)"

definition store_act :: "(store, exn, 'a) act \<Rightarrow> 'a handler" where
  "store_act f c = (fst (f (cstore c)), c\<lparr>cstore := snd (f (cstore c))\<rparr>)"

definition set_session_name :: "jsval \<Rightarrow> unit handler" where
  "set_session_name v c = (Inr (), c\<lparr>sess_name := v\<rparr>)"

definition with_fragment :: "string \<Rightarrow> string \<Rightarrow> string" where
  "with_fragment page msg = page @ ''#'' @ encodeURIComponent msg"

definition msg_length :: string where
  "msg_length = ''Error, parameter was of an invalid length.''"

definition msg_chars :: string where
  "msg_chars = ''Error, parameter contained invalid characters.''"

definition msg_no_user :: string where
  "msg_no_user = ''Error, username does not exist.''"

definition msg_mismatch :: string where
  "msg_mismatch = ''Error, password did not match.''"

lemmas [act_simps] = res_send_def res_redirect_def read_store_def read_storeE_def store_act_def
  set_session_name_def

subsection \<open>Route handlers\<close>

text \<open>\<^verbatim>\<open>GET /\<close> (lines 69--71).\<close>

definition get_root :: "unit handler" where
  "get_root = res_send 200 ''Hello World!''"

text \<open>\<^verbatim>\<open>GET /users/:username\<close> (lines 74--85): truthiness of \<^verbatim>\<open>db[username]\<close>.\<close>

definition get_users :: "string \<Rightarrow> unit handler" where
  "get_users p =
     bindA (read_store (\<lambda>s. lookup_truthy (db_get (db s) p))) (\<lambda>ex.
       if ex then res_send 200 ''Username exists.''
       else res_send 404 ''Error, username does not exist.'')"

text \<open>The record built by \<^verbatim>\<open>POST /users\<close> at line 126, before its password is hashed.\<close>

definition new_user :: "nat \<Rightarrow> form \<Rightarrow> user" where
  "new_user now b =
     \<lparr>username = body_username b, name = body_name b, password = body_password b,
      date = Str (decimal now)\<rparr>"

text \<open>The same record after \<^verbatim>\<open>user.password = sha256(user.password, user.date)\<close>
  (line 127) succeeded on the password string \<open>p\<close>.\<close>

definition hashed_user :: "nat \<Rightarrow> form \<Rightarrow> string \<Rightarrow> user" where
  "hashed_user now b p = (new_user now b)\<lparr>password := Str (hmac_hex (decimal now) p)\<rparr>"

text \<open>\<^verbatim>\<open>POST /users\<close> (lines 99--133); \<open>now\<close> is the value of \<^verbatim>\<open>Date.now()\<close>.  The
  result of \<^verbatim>\<open>saveUser\<close> is not inspected.\<close>

definition post_users :: "nat \<Rightarrow> form \<Rightarrow> unit handler" where
  "post_users now b =
     bindA (liftE (invalid_length b)) (\<lambda>bad.
     bindA (when_do bad (res_redirect (with_fragment ''registration.html'' msg_length))) (\<lambda>_.
     bindA (liftE (js_or [containsInvalidChars (body_username b), containsInvalidChars (body_name b)])) (\<lambda>bad_chars.
     bindA (when_do bad_chars (res_redirect (with_fragment ''registration.html'' msg_chars))) (\<lambda>_.
     (let u = new_user now b in
      bindA (liftE (sha256 (password u) (date u))) (\<lambda>h.
      bindA (store_act (saveUser (u\<lparr>password := Str h\<rparr>))) (\<lambda>_.
      res_redirect ''login.html'')))))))"

text \<open>Property reads on what \<^verbatim>\<open>getUser\<close> returned: a record's field, or
  \<^verbatim>\<open>undefined\<close> on \<^verbatim>\<open>false\<close> and on a built-in (whose \<^verbatim>\<open>password\<close> and \<^verbatim>\<open>date\<close>
  are \<^verbatim>\<open>undefined\<close>; its \<^verbatim>\<open>name\<close> is read only after a password match, which a
  built-in never passes).\<close>

fun lk_password :: "lookup \<Rightarrow> jsval" where
  "lk_password (Own u) = password u"
| "lk_password _ = Undefined"

fun lk_date :: "lookup \<Rightarrow> jsval" where
  "lk_date (Own u) = date u"
| "lk_date _ = Undefined"

fun lk_name :: "lookup \<Rightarrow> jsval" where
  "lk_name (Own u) = name u"
| "lk_name _ = Undefined"

text \<open>\<^verbatim>\<open>POST /auth\<close> (lines 135--159).  The guard \<^verbatim>\<open>user !== null\<close> always holds,
  since \<^verbatim>\<open>getUser\<close> returns \<^verbatim>\<open>false\<close>, never \<^verbatim>\<open>null\<close>; \<^verbatim>\<open>user.password\<close> is read
  before \<^verbatim>\<open>sha256\<close> is called.\<close>

definition post_auth :: "form \<Rightarrow> unit handler" where
  "post_auth b =
     bindA (read_storeE (\<lambda>s. getUser s (body_username b))) (\<lambda>g.
     bindA (when_do (g = Absent) (res_redirect (with_fragment ''login.html'' msg_no_user))) (\<lambda>_.
     bindA (read_storeE (\<lambda>s. getUser s (body_username b))) (\<lambda>user.
     bindA (liftE (sha256 (body_password b) (lk_date user))) (\<lambda>h.
       if js_strict_eq (lk_password user) (Str h)
       then bindA (set_session_name (lk_name user)) (\<lambda>_. res_redirect ''index.html'')
       else res_redirect (with_fragment ''login.html'' msg_mismatch)))))"

text \<open>\<^verbatim>\<open>GET /index.html\<close> (lines 161--177).  \<^verbatim>\<open>"Hi "+name+"!"\<close> turns an
  array or object name into a primitive with the default hint, \<^verbatim>\<open>valueOf\<close> first;
  the inherited \<^verbatim>\<open>valueOf\<close> returns the object, so the result is that of
  \<open>js_String\<close>, or its \<^verbatim>\<open>TypeError\<close>.\<close>

definition greeting :: "jsval \<Rightarrow> exn + string" where
  "greeting v = (if js_truthy v then map_sum id (\<lambda>s. ''Hi '' @ s @ ''!'') (js_String v) else Inr [])"

definition quoted :: "string \<Rightarrow> string" where
  "quoted s = CHR 0x22 # s @ [CHR 0x22]"

definition index_page :: "string \<Rightarrow> string" where
  "index_page hello =
     join_with (CHR 0x0A)
       [[], CHR 0x09 # ''<!DOCTYPE html>'', CHR 0x09 # ''<title>Project 3</title>'',
        CHR 0x09 # ''<h1>Project 3</h1>'', CHR 0x09 # ''<section>'',
        CHR 0x09 # CHR 0x09 # ''<p>'', CHR 0x09 # CHR 0x09 # hello,
        CHR 0x09 # CHR 0x09 # ''Go <a href='' @ quoted ''static/login.html'' @
          ''>here to login</a> or <a href='' @ quoted ''static/registration.html'' @
          ''>here to register</a>.'',
        CHR 0x09 # CHR 0x09 # ''</p>'', CHR 0x09 # ''</section>'']"

definition get_index :: "unit handler" where
  "get_index c = bindA (liftE (greeting (sess_name c))) (\<lambda>hello. res_send 200 (index_page hello)) c"

subsection \<open>Dispatch, start-up and runs\<close>

datatype request = GetRoot | GetUser string | PostUsers form | PostAuth form | GetIndex

fun route :: "nat \<Rightarrow> request \<Rightarrow> unit handler" where
  "route now GetRoot = get_root"
| "route now (GetUser p) = get_users p"
| "route now (PostUsers b) = post_users now b"
| "route now (PostAuth b) = post_auth b"
| "route now GetIndex = get_index"

text \<open>What the client receives: the first response sent; else a 500 from Express's
  error handler when the handler threw; else nothing.\<close>

definition outcome :: "(exn + unit) \<times> ctx \<Rightarrow> response option" where
  "outcome rc =
     (case sent (snd rc) of
        Some r \<Rightarrow> Some r
      | None \<Rightarrow> (case fst rc of Inl e \<Rightarrow> Some ServerError | Inr _ \<Rightarrow> None))"

record server =
  sstore :: store
  sessions :: "nat \<Rightarrow> jsval"

definition startup :: "snapshot option \<Rightarrow> server" where
  "startup f = \<lparr>sstore = \<lparr>db = load_db f, disk = f\<rparr>, sessions = (\<lambda>_. Undefined)\<rparr>"

text \<open>One request from session \<open>sid\<close> at clock value \<open>now\<close>, run to completion.\<close>

definition serve :: "server \<Rightarrow> nat \<Rightarrow> nat \<Rightarrow> request \<Rightarrow> server \<times> response option" where
  "serve s sid now rq =
     (let rc = route now rq \<lparr>cstore = sstore s, sess_name = sessions s sid, sent = None\<rparr>
      in (\<lparr>sstore = cstore (snd rc), sessions = (sessions s)(sid := sess_name (snd rc))\<rparr>,
          outcome rc))"

text \<open>A request as the routes see it: its form is what the body parser delivers.\<close>

fun request_ok :: "request \<Rightarrow> bool" where
  "request_ok (PostUsers b) = parsed_form b"
| "request_ok (PostAuth b) = parsed_form b"
| "request_ok _ = True"

inductive reachable :: "snapshot option \<Rightarrow> server \<Rightarrow> bool" for f where
  start: "reachable f (startup f)"
| step: "reachable f s \<Longrightarrow> request_ok rq \<Longrightarrow> reachable f (fst (serve s sid now rq))"

subsection \<open>Store effects of the handlers\<close>

text \<open>Only \<^verbatim>\<open>POST /users\<close> changes the store, and only through one \<^verbatim>\<open>saveUser\<close>
  of a record whose password field is the hash of the form password.\<close>

lemma get_root_store: "cstore (snd (get_root c)) = cstore c"
  by (simp add: get_root_def act_simps)

lemma get_users_store: "cstore (snd (get_users p c)) = cstore c"
  by (simp add: get_users_def act_simps split: prod.splits sum.splits)

lemma get_index_store: "cstore (snd (get_index c)) = cstore c"
  by (simp add: get_index_def act_simps split: prod.splits sum.splits)

lemma post_auth_store: "cstore (snd (post_auth b c)) = cstore c"
  by (simp add: post_auth_def act_simps split: prod.splits sum.splits)

lemma post_users_store:
  "cstore (snd (post_users now b c)) = cstore c \<or>
   (\<exists>p. js_toString (body_password b) = Inr p \<and>
        cstore (snd (post_users now b c)) = snd (saveUser (hashed_user now b p) (cstore c)))"
  by (auto simp: post_users_def act_simps hashed_user_def new_user_def split: prod.splits sum.splits)

lemma route_store:
  "cstore (snd (route now rq c)) = cstore c \<or>
   (\<exists>b p. rq = PostUsers b \<and> cstore (snd (route now rq c)) = snd (saveUser (hashed_user now b p) (cstore c)))"
proof (cases rq)
  case (PostUsers b)
  then show ?thesis using post_users_store [of now b c] by auto
qed (simp_all add: get_root_store get_users_store get_index_store post_auth_store)

lemma serve_sstore:
  "sstore (fst (serve s sid now rq)) =
     cstore (snd (route now rq \<lparr>cstore = sstore s, sess_name = sessions s sid, sent = None\<rparr>))"
  by (simp add: serve_def Let_def)

lemma username_hashed_user [simp]: "username (hashed_user now b p) = body_username b"
  by (simp add: hashed_user_def new_user_def)

lemma reachable_store_induct:
  assumes "reachable f s"
    and "P (sstore (startup f))"
    and "\<And>st now b p. parsed_form b \<Longrightarrow> P st \<Longrightarrow> P (snd (saveUser (hashed_user now b p) st))"
  shows "P (sstore s)"
  using assms(1)
proof (induction rule: reachable.induct)
  case start
  show ?case by (rule assms(2))
next
  case (step s rq sid now)
  then show ?case
    using route_store [of now rq "\<lparr>cstore = sstore s, sess_name = sessions s sid, sent = None\<rparr>"]
      assms(3)
    by (auto simp: serve_sstore)
qed

lemma qs_value_safe: "qs_value v \<Longrightarrow> json_safe v"
  by (induction v rule: qs_value.induct) (auto elim: qs_value.elims)

lemma parsed_field_safe: "parsed_field v \<Longrightarrow> json_safe v"
  by (auto simp: parsed_field_def qs_value_safe)

lemma hashed_user_safe: "parsed_form b \<Longrightarrow> user_safe (hashed_user now b p)"
  by (simp add: parsed_form_def user_safe_def hashed_user_def new_user_def parsed_field_safe)

subsection \<open>Registration\<close>

lemma containsInvalidChars_key: "containsInvalidChars v = Inr x \<Longrightarrow> \<exists>k. js_String v = Inr k"
  by (auto simp: containsInvalidChars_def)

lemma js_or_Inr_hd: "js_or (r # rs) = Inr x \<Longrightarrow> \<exists>y. r = Inr y"
  by (cases r) simp_all

lemma saveUser_Inr: "js_String (username u) = Inr k \<Longrightarrow> \<exists>r. fst (saveUser u s) = Inr r"
  by (auto simp: saveUser_def)

lemma new_user_fields [simp]:
  "password (new_user now b) = body_password b" "date (new_user now b) = Str (decimal now)"
  by (simp_all add: new_user_def)

text \<open>\<^verbatim>\<open>POST /users\<close> once its two checks have been evaluated without throwing
  and the password converts: when both fail the second error redirect throws before
  anything is stored; otherwise the record is saved, and the handler ends with the
  redirect to \<^verbatim>\<open>login.html\<close>, which throws when an error redirect was sent.\<close>

lemma post_users_checked:
  assumes "invalid_length b = Inr bad"
    and "js_or [containsInvalidChars (body_username b), containsInvalidChars (body_name b)] = Inr chars"
    and "js_toString (body_password b) = Inr p" and "sent c = None"
  shows "post_users now b c =
           (if bad \<and> chars
            then (Inl HeadersSent, c\<lparr>sent := Some (Redirect (with_fragment ''registration.html'' msg_length))\<rparr>)
            else (if bad \<or> chars then Inl HeadersSent else Inr (),
                  c\<lparr>cstore := snd (saveUser (hashed_user now b p) (cstore c)),
                    sent := Some (Redirect (if bad then with_fragment ''registration.html'' msg_length
                                            else if chars then with_fragment ''registration.html'' msg_chars
                                            else ''login.html''))\<rparr>))"
proof -
  obtain x where "containsInvalidChars (body_username b) = Inr x"
    using js_or_Inr_hd [OF assms(2)] by blast
  then obtain k where "js_String (body_username b) = Inr k"
    using containsInvalidChars_key by blast
  then obtain r where r: "fst (saveUser (hashed_user now b p) (cstore c)) = Inr r"
    using saveUser_Inr [of "hashed_user now b p"] by auto
  have h: "(new_user now b)\<lparr>password := Str (hmac_hex (decimal now) p)\<rparr> = hashed_user now b p"
    by (simp add: hashed_user_def)
  show ?thesis
    using assms r
    by (cases bad; cases chars) (simp_all add: post_users_def act_simps h split: prod.split)
qed

lemmas form_check_simps = invalid_length_def containsInvalidChars_def allowed_char_def
  is_word_char_def is_ascii_alpha_def is_ascii_digit_def

text \<open>C1: a registration whose three fields pass the checks, for a user name not yet
  taken, adds the record with the HMAC of the password keyed by the timestamp salt,
  writes the whole store to disk, and redirects to \<^verbatim>\<open>login.html\<close>.\<close>

theorem post_users_fresh:
  assumes "invalid_length b = Inr False"
    and "containsInvalidChars (body_username b) = Inr False" and "containsInvalidChars (body_name b) = Inr False"
    and "js_toString (body_password b) = Inr p" and "sent c = None"
    and "js_String (body_username b) = Inr k" and "db_get (db (cstore c)) k = Absent"
  shows "post_users now b c =
           (Inr (), c\<lparr>cstore := \<lparr>db = (db (cstore c))(k \<mapsto> hashed_user now b p),
                       disk = Some (snapshot_of ((db (cstore c))(k \<mapsto> hashed_user now b p)))\<rparr>,
                     sent := Some (Redirect ''login.html'')\<rparr>)"
  using post_users_checked [OF assms(1) _ assms(4,5), of False now] assms(2,3)
    saveUser_fresh [of "hashed_user now b p" k "cstore c"] assms(6,7)
  by simp

theorem post_users_fresh_witness:
  "let b = \<lparr>body_username = Str ''alice1'', body_name = Str ''Alice A'', body_password = Str ''secret1''\<rparr>;
       c = \<lparr>cstore = \<lparr>db = Map.empty, disk = None\<rparr>, sess_name = Undefined, sent = None\<rparr>
   in invalid_length b = Inr False \<and> containsInvalidChars (body_username b) = Inr False \<and>
      containsInvalidChars (body_name b) = Inr False \<and> js_toString (body_password b) = Inr ''secret1'' \<and>
      sent c = None \<and> js_String (body_username b) = Inr ''alice1'' \<and>
      db_get (db (cstore c)) ''alice1'' = Absent \<and>
      post_users 7 b c =
        (Inr (), c\<lparr>cstore := \<lparr>db = [''alice1'' \<mapsto> hashed_user 7 b ''secret1''],
                    disk = Some (snapshot_of [''alice1'' \<mapsto> hashed_user 7 b ''secret1''])\<rparr>,
                  sent := Some (Redirect ''login.html'')\<rparr>)"
  using post_users_fresh
    [where b = "\<lparr>body_username = Str ''alice1'', body_name = Str ''Alice A'', body_password = Str ''secret1''\<rparr>"
       and c = "\<lparr>cstore = \<lparr>db = Map.empty, disk = None\<rparr>, sess_name = Undefined, sent = None\<rparr>"
       and p = "''secret1''" and k = "''alice1''" and now = 7]
  by (simp add: form_check_simps db_get_def object_proto_keys_def)

text \<open>C9: registering a user name that is taken (an own record, or a name inherited
  from \<^verbatim>\<open>Object.prototype\<close>) leaves the store and the file as they were, and the
  client gets the same redirect to \<^verbatim>\<open>login.html\<close> as a successful registration: the
  \<^verbatim>\<open>false\<close> of \<^verbatim>\<open>saveUser\<close> is dropped.\<close>

theorem post_users_taken:
  assumes "invalid_length b = Inr False"
    and "containsInvalidChars (body_username b) = Inr False" and "containsInvalidChars (body_name b) = Inr False"
    and "js_toString (body_password b) = Inr p" and "sent c = None"
    and "js_String (body_username b) = Inr k" and "lookup_truthy (db_get (db (cstore c)) k)"
  shows "post_users now b c = (Inr (), c\<lparr>sent := Some (Redirect ''login.html'')\<rparr>)"
  using post_users_checked [OF assms(1) _ assms(4,5), of False now] assms(2,3)
    saveUser_taken [of "hashed_user now b p" k "cstore c"] assms(6,7)
  by simp

theorem post_users_taken_witness:
  "let b = \<lparr>body_username = Str ''alice1'', body_name = Str ''Alice A'', body_password = Str ''secret1''\<rparr>;
       u = \<lparr>username = Str ''alice1'', name = Str ''Alice'', password = Str ''x'', date = Str ''1''\<rparr>;
       c = \<lparr>cstore = \<lparr>db = [''alice1'' \<mapsto> u], disk = None\<rparr>, sess_name = Undefined, sent = None\<rparr>
   in invalid_length b = Inr False \<and> containsInvalidChars (body_username b) = Inr False \<and>
      containsInvalidChars (body_name b) = Inr False \<and> js_toString (body_password b) = Inr ''secret1'' \<and>
      sent c = None \<and> js_String (body_username b) = Inr ''alice1'' \<and>
      lookup_truthy (db_get (db (cstore c)) ''alice1'') \<and>
      post_users 7 b c = (Inr (), c\<lparr>sent := Some (Redirect ''login.html'')\<rparr>)"
  using post_users_taken
    [where b = "\<lparr>body_username = Str ''alice1'', body_name = Str ''Alice A'', body_password = Str ''secret1''\<rparr>"
       and c = "\<lparr>cstore = \<lparr>db = [''alice1'' \<mapsto> \<lparr>username = Str ''alice1'', name = Str ''Alice'',
                  password = Str ''x'', date = Str ''1''\<rparr>], disk = None\<rparr>, sess_name = Undefined, sent = None\<rparr>"
       and p = "''secret1''" and k = "''alice1''" and now = 7]
  by (simp add: form_check_simps)

text \<open>C10: a registration that fails the length check but has a password that
  converts and no invalid character is still saved: the handler sends the error
  redirect, goes on, stores the record and only then throws on the second redirect.\<close>

theorem post_users_bad_length:
  assumes "invalid_length b = Inr True"
    and "containsInvalidChars (body_username b) = Inr False" and "containsInvalidChars (body_name b) = Inr False"
    and "js_toString (body_password b) = Inr p" and "sent c = None"
  shows "post_users now b c =
           (Inl HeadersSent,
            c\<lparr>cstore := snd (saveUser (hashed_user now b p) (cstore c)),
              sent := Some (Redirect (with_fragment ''registration.html'' msg_length))\<rparr>)"
  using post_users_checked [OF assms(1) _ assms(4,5), of False now] assms(2,3)
  by simp

theorem post_users_bad_length_witness:
  "let b = \<lparr>body_username = Str ''ab'', body_name = Str ''Alice A'', body_password = Str ''secret1''\<rparr>;
       c = \<lparr>cstore = \<lparr>db = Map.empty, disk = None\<rparr>, sess_name = Undefined, sent = None\<rparr>;
       u = hashed_user 7 b ''secret1''
   in invalid_length b = Inr True \<and> containsInvalidChars (body_username b) = Inr False \<and>
      containsInvalidChars (body_name b) = Inr False \<and> js_toString (body_password b) = Inr ''secret1'' \<and>
      sent c = None \<and>
      post_users 7 b c =
        (Inl HeadersSent,
         c\<lparr>cstore := \<lparr>db = [''ab'' \<mapsto> u], disk = Some (snapshot_of [''ab'' \<mapsto> u])\<rparr>,
           sent := Some (Redirect (with_fragment ''registration.html'' msg_length))\<rparr>)"
  using post_users_bad_length
    [where b = "\<lparr>body_username = Str ''ab'', body_name = Str ''Alice A'', body_password = Str ''secret1''\<rparr>"
       and c = "\<lparr>cstore = \<lparr>db = Map.empty, disk = None\<rparr>, sess_name = Undefined, sent = None\<rparr>"
       and p = "''secret1''" and now = 7]
  by (simp add: form_check_simps saveUser_def db_get_def object_proto_keys_def writeDB_def)

text \<open>C11: a registration with a valid length but a forbidden character in the user
  name or the display name is saved in the same way.\<close>

theorem post_users_bad_chars:
  assumes "invalid_length b = Inr False"
    and "js_or [containsInvalidChars (body_username b), containsInvalidChars (body_name b)] = Inr True"
    and "js_toString (body_password b) = Inr p" and "sent c = None"
  shows "post_users now b c =
           (Inl HeadersSent,
            c\<lparr>cstore := snd (saveUser (hashed_user now b p) (cstore c)),
              sent := Some (Redirect (with_fragment ''registration.html'' msg_chars))\<rparr>)"
  using post_users_checked [OF assms, of now] by simp

theorem post_users_bad_chars_witness:
  "let b = \<lparr>body_username = Str ''alice1'', body_name = Str ''bad!name'', body_password = Str ''secret1''\<rparr>;
       c = \<lparr>cstore = \<lparr>db = Map.empty, disk = None\<rparr>, sess_name = Undefined, sent = None\<rparr>;
       u = hashed_user 7 b ''secret1''
   in invalid_length b = Inr False \<and>
      js_or [containsInvalidChars (body_username b), containsInvalidChars (body_name b)] = Inr True \<and>
      js_toString (body_password b) = Inr ''secret1'' \<and> sent c = None \<and>
      post_users 7 b c =
        (Inl HeadersSent,
         c\<lparr>cstore := \<lparr>db = [''alice1'' \<mapsto> u], disk = Some (snapshot_of [''alice1'' \<mapsto> u])\<rparr>,
           sent := Some (Redirect (with_fragment ''registration.html'' msg_chars))\<rparr>)"
  using post_users_bad_chars
    [where b = "\<lparr>body_username = Str ''alice1'', body_name = Str ''bad!name'', body_password = Str ''secret1''\<rparr>"
       and c = "\<lparr>cstore = \<lparr>db = Map.empty, disk = None\<rparr>, sess_name = Undefined, sent = None\<rparr>"
       and p = "''secret1''" and now = 7]
  by (simp add: form_check_simps saveUser_def db_get_def object_proto_keys_def writeDB_def)

text \<open>C12: when both checks fail, the second error redirect throws before the record
  is built: nothing is stored and the client sees the length error.\<close>

theorem post_users_both_bad:
  assumes "invalid_length b = Inr True"
    and "js_or [containsInvalidChars (body_username b), containsInvalidChars (body_name b)] = Inr True"
    and "sent c = None"
  shows "post_users now b c =
           (Inl HeadersSent, c\<lparr>sent := Some (Redirect (with_fragment ''registration.html'' msg_length))\<rparr>)"
  using assms
  by (simp add: post_users_def act_simps)

theorem post_users_both_bad_witness:
  "let b = \<lparr>body_username = Str ''a!'', body_name = Str ''Alice A'', body_password = Str ''secret1''\<rparr>;
       c = \<lparr>cstore = \<lparr>db = Map.empty, disk = None\<rparr>, sess_name = Undefined, sent = None\<rparr>
   in invalid_length b = Inr True \<and>
      js_or [containsInvalidChars (body_username b), containsInvalidChars (body_name b)] = Inr True \<and>
      sent c = None \<and>
      post_users 7 b c =
        (Inl HeadersSent, c\<lparr>sent := Some (Redirect (with_fragment ''registration.html'' msg_length))\<rparr>)"
  using post_users_both_bad
    [where b = "\<lparr>body_username = Str ''a!'', body_name = Str ''Alice A'', body_password = Str ''secret1''\<rparr>"
       and c = "\<lparr>cstore = \<lparr>db = Map.empty, disk = None\<rparr>, sess_name = Undefined, sent = None\<rparr>"
       and now = 7]
  by (simp add: form_check_simps)

text \<open>C19: a registration without a \<^verbatim>\<open>username\<close> field fails the length check but is
  stored anyway, under the key \<^verbatim>\<open>"undefined"\<close>.\<close>

theorem post_users_missing_username:
  assumes "body_username b = Undefined" and "containsInvalidChars (body_name b) = Inr False"
    and "js_toString (body_password b) = Inr p" and "sent c = None"
    and "db_get (db (cstore c)) ''undefined'' = Absent"
  shows "db (cstore (snd (post_users now b c))) = (db (cstore c))(''undefined'' \<mapsto> hashed_user now b p)"
proof -
  have "invalid_length b = Inr True"
    using assms(1) by (simp add: invalid_length_def)
  from post_users_checked [OF this _ assms(3,4), of False now] assms(1,2,5)
  show ?thesis by (simp add: saveUser_fresh)
qed

theorem post_users_missing_username_witness:
  "let b = \<lparr>body_username = Undefined, body_name = Str ''Alice A'', body_password = Str ''secret1''\<rparr>;
       c = \<lparr>cstore = \<lparr>db = Map.empty, disk = None\<rparr>, sess_name = Undefined, sent = None\<rparr>
   in body_username b = Undefined \<and> containsInvalidChars (body_name b) = Inr False \<and>
      js_toString (body_password b) = Inr ''secret1'' \<and> sent c = None \<and>
      db_get (db (cstore c)) ''undefined'' = Absent \<and>
      db (cstore (snd (post_users 7 b c))) = [''undefined'' \<mapsto> hashed_user 7 b ''secret1'']"
  using post_users_missing_username
    [where b = "\<lparr>body_username = Undefined, body_name = Str ''Alice A'', body_password = Str ''secret1''\<rparr>"
       and c = "\<lparr>cstore = \<lparr>db = Map.empty, disk = None\<rparr>, sess_name = Undefined, sent = None\<rparr>"
       and p = "''secret1''" and now = 7]
  by (simp add: form_check_simps db_get_def object_proto_keys_def)

subsection \<open>Authentication\<close>

text \<open>\<^verbatim>\<open>POST /auth\<close> for a stored user, once the salt and the submitted password
  convert.\<close>

lemma post_auth_found:
  assumes "js_String (body_username b) = Inr k" and "db (cstore c) k = Some u"
    and "js_toString (date u) = Inr d" and "js_toString (body_password b) = Inr p" and "sent c = None"
  shows "post_auth b c =
           (if password u = Str (hmac_hex d p)
            then (Inr (), c\<lparr>sess_name := name u, sent := Some (Redirect ''index.html'')\<rparr>)
            else (Inr (), c\<lparr>sent := Some (Redirect (with_fragment ''login.html'' msg_mismatch))\<rparr>))"
  using assms by (simp add: post_auth_def act_simps getUser_db_get sha256_def)

text \<open>C2: logging in as a stored user with the password whose HMAC, keyed by the
  record's salt, is the stored hash stores the display name in the session and
  redirects to \<^verbatim>\<open>index.html\<close>.\<close>

theorem post_auth_match:
  assumes "js_String (body_username b) = Inr k" and "db (cstore c) k = Some u"
    and "js_toString (date u) = Inr d" and "js_toString (body_password b) = Inr p"
    and "password u = Str (hmac_hex d p)" and "sent c = None"
  shows "post_auth b c = (Inr (), c\<lparr>sess_name := name u, sent := Some (Redirect ''index.html'')\<rparr>)"
  using post_auth_found [OF assms(1-4,6)] assms(5) by simp

theorem post_auth_match_witness:
  "let u = \<lparr>username = Str ''alice1'', name = Str ''Alice A'', password = Str (hmac_hex ''1'' ''secret1''),
            date = Str ''1''\<rparr>;
       b = \<lparr>body_username = Str ''alice1'', body_name = Undefined, body_password = Str ''secret1''\<rparr>;
       c = \<lparr>cstore = \<lparr>db = [''alice1'' \<mapsto> u], disk = None\<rparr>, sess_name = Undefined, sent = None\<rparr>
   in js_String (body_username b) = Inr ''alice1'' \<and> db (cstore c) ''alice1'' = Some u \<and>
      js_toString (date u) = Inr ''1'' \<and> js_toString (body_password b) = Inr ''secret1'' \<and>
      password u = Str (hmac_hex ''1'' ''secret1'') \<and> sent c = None \<and>
      post_auth b c = (Inr (), c\<lparr>sess_name := Str ''Alice A'', sent := Some (Redirect ''index.html'')\<rparr>)"
  using post_auth_match
    [where b = "\<lparr>body_username = Str ''alice1'', body_name = Undefined, body_password = Str ''secret1''\<rparr>"
       and c = "\<lparr>cstore = \<lparr>db = [''alice1'' \<mapsto> \<lparr>username = Str ''alice1'', name = Str ''Alice A'',
                  password = Str (hmac_hex ''1'' ''secret1''), date = Str ''1''\<rparr>], disk = None\<rparr>,
                sess_name = Undefined, sent = None\<rparr>"
       and u = "\<lparr>username = Str ''alice1'', name = Str ''Alice A'',
                  password = Str (hmac_hex ''1'' ''secret1''), date = Str ''1''\<rparr>"
       and k = "''alice1''" and d = "''1''" and p = "''secret1''"]
  by simp

text \<open>C4: with a stored user and a password whose HMAC differs from the stored hash,
  the client is redirected to the login page with the mismatch message and the
  session is left alone.\<close>

theorem post_auth_mismatch:
  assumes "js_String (body_username b) = Inr k" and "db (cstore c) k = Some u"
    and "js_toString (date u) = Inr d" and "js_toString (body_password b) = Inr p"
    and "password u \<noteq> Str (hmac_hex d p)" and "sent c = None"
  shows "post_auth b c = (Inr (), c\<lparr>sent := Some (Redirect (with_fragment ''login.html'' msg_mismatch))\<rparr>)"
  using post_auth_found [OF assms(1-4,6)] assms(5) by simp

theorem post_auth_mismatch_witness:
  "let u = \<lparr>username = Str ''alice1'', name = Str ''Alice A'', password = Str ''x'', date = Str ''1''\<rparr>;
       b = \<lparr>body_username = Str ''alice1'', body_name = Undefined, body_password = Str ''wrong''\<rparr>;
       c = \<lparr>cstore = \<lparr>db = [''alice1'' \<mapsto> u], disk = None\<rparr>, sess_name = Undefined, sent = None\<rparr>
   in js_String (body_username b) = Inr ''alice1'' \<and> db (cstore c) ''alice1'' = Some u \<and>
      js_toString (date u) = Inr ''1'' \<and> js_toString (body_password b) = Inr ''wrong'' \<and>
      password u \<noteq> Str (hmac_hex ''1'' ''wrong'') \<and> sent c = None \<and>
      post_auth b c = (Inr (), c\<lparr>sent := Some (Redirect (with_fragment ''login.html'' msg_mismatch))\<rparr>)"
  using post_auth_mismatch
    [where b = "\<lparr>body_username = Str ''alice1'', body_name = Undefined, body_password = Str ''wrong''\<rparr>"
       and c = "\<lparr>cstore = \<lparr>db = [''alice1'' \<mapsto> \<lparr>username = Str ''alice1'', name = Str ''Alice A'',
                  password = Str ''x'', date = Str ''1''\<rparr>], disk = None\<rparr>,
                sess_name = Undefined, sent = None\<rparr>"
       and u = "\<lparr>username = Str ''alice1'', name = Str ''Alice A'', password = Str ''x'', date = Str ''1''\<rparr>"
       and k = "''alice1''" and d = "''1''" and p = "''wrong''"]
    hmac_hex_neq [of "''x''" "''1''" "''wrong''"]
  by auto

text \<open>C5: for a user name with no record (and not inherited), the client gets the
  redirect with the unknown-user message; the handler then falls through, reads
  \<^verbatim>\<open>false.date\<close> and throws a \<^verbatim>\<open>TypeError\<close> in \<^verbatim>\<open>sha256\<close>, changing nothing else.\<close>

theorem post_auth_absent:
  assumes "js_String (body_username b) = Inr k" and "db_get (db (cstore c)) k = Absent" and "sent c = None"
  shows "post_auth b c = (Inl TypeError, c\<lparr>sent := Some (Redirect (with_fragment ''login.html'' msg_no_user))\<rparr>)"
  using assms
  by (simp add: post_auth_def act_simps getUser_db_get sha256_def)

theorem post_auth_absent_witness:
  "let b = \<lparr>body_username = Str ''nosuchuser'', body_name = Undefined, body_password = Str ''x''\<rparr>;
       c = \<lparr>cstore = \<lparr>db = Map.empty, disk = None\<rparr>, sess_name = Undefined, sent = None\<rparr>
   in js_String (body_username b) = Inr ''nosuchuser'' \<and> db_get (db (cstore c)) ''nosuchuser'' = Absent \<and>
      sent c = None \<and>
      post_auth b c = (Inl TypeError, c\<lparr>sent := Some (Redirect (with_fragment ''login.html'' msg_no_user))\<rparr>)"
  using post_auth_absent
    [where b = "\<lparr>body_username = Str ''nosuchuser'', body_name = Undefined, body_password = Str ''x''\<rparr>"
       and c = "\<lparr>cstore = \<lparr>db = Map.empty, disk = None\<rparr>, sess_name = Undefined, sent = None\<rparr>"
       and k = "''nosuchuser''"]
  by (simp add: db_get_def object_proto_keys_def)

text \<open>C20: a login for a stored user without a \<^verbatim>\<open>password\<close> field throws a
  \<^verbatim>\<open>TypeError\<close> before any response is sent, so the client gets a 500.\<close>

theorem post_auth_no_password:
  assumes "js_String (body_username b) = Inr k" and "db (cstore c) k = Some u"
    and "js_toString (date u) = Inr d" and "body_password b = Undefined" and "sent c = None"
  shows "outcome (post_auth b c) = Some ServerError"
  using assms
  by (simp add: post_auth_def act_simps getUser_db_get sha256_def outcome_def)

theorem post_auth_no_password_witness:
  "let u = \<lparr>username = Str ''alice1'', name = Str ''Alice A'', password = Str ''x'', date = Str ''1''\<rparr>;
       b = \<lparr>body_username = Str ''alice1'', body_name = Undefined, body_password = Undefined\<rparr>;
       c = \<lparr>cstore = \<lparr>db = [''alice1'' \<mapsto> u], disk = None\<rparr>, sess_name = Undefined, sent = None\<rparr>
   in js_String (body_username b) = Inr ''alice1'' \<and> db (cstore c) ''alice1'' = Some u \<and>
      js_toString (date u) = Inr ''1'' \<and> body_password b = Undefined \<and> sent c = None \<and>
      outcome (post_auth b c) = Some ServerError"
  using post_auth_no_password
    [where b = "\<lparr>body_username = Str ''alice1'', body_name = Undefined, body_password = Undefined\<rparr>"
       and c = "\<lparr>cstore = \<lparr>db = [''alice1'' \<mapsto> \<lparr>username = Str ''alice1'', name = Str ''Alice A'',
                  password = Str ''x'', date = Str ''1''\<rparr>], disk = None\<rparr>,
                sess_name = Undefined, sent = None\<rparr>"
       and u = "\<lparr>username = Str ''alice1'', name = Str ''Alice A'', password = Str ''x'', date = Str ''1''\<rparr>"
       and k = "''alice1''" and d = "''1''"]
  by simp

text \<open>C29: a login or a registration whose user name is an object with an own
  \<^verbatim>\<open>toString\<close> (the form field \<^verbatim>\<open>username[toString]=x\<close>) throws a
  \<^verbatim>\<open>TypeError\<close> before any response is sent, and the client gets a 500 with the
  store unchanged: the key conversion of \<^verbatim>\<open>getUser\<close>, resp. the
  \<^verbatim>\<open>containsInvalidChars\<close> test, throws.\<close>

theorem username_toString_500:
  assumes "body_username b = Obj fs" and "''toString'' \<in> set (map fst fs)"
    and "\<not> has_own_length (body_username b)" and "invalid_length b = Inr False" and "sent c = None"
  shows "outcome (post_auth b c) = Some ServerError \<and> cstore (snd (post_auth b c)) = cstore c \<and>
         outcome (post_users now b c) = Some ServerError \<and> cstore (snd (post_users now b c)) = cstore c"
  using assms
  by (simp add: post_auth_def post_users_def act_simps getUser_def outcome_def containsInvalidChars_def)

theorem username_toString_500_witness:
  "let b = \<lparr>body_username = Obj [(''toString'', Str ''x'')], body_name = Str ''Alice A'',
            body_password = Str ''secret1''\<rparr>;
       c = \<lparr>cstore = \<lparr>db = Map.empty, disk = None\<rparr>, sess_name = Undefined, sent = None\<rparr>
   in body_username b = Obj [(''toString'', Str ''x'')] \<and> ''toString'' \<in> set (map fst [(''toString'', Str ''x'')]) \<and>
      \<not> has_own_length (body_username b) \<and> invalid_length b = Inr False \<and> sent c = None \<and>
      outcome (post_auth b c) = Some ServerError \<and> outcome (post_users 7 b c) = Some ServerError"
  using username_toString_500
    [where b = "\<lparr>body_username = Obj [(''toString'', Str ''x'')], body_name = Str ''Alice A'',
                 body_password = Str ''secret1''\<rparr>"
       and fs = "[(''toString'', Str ''x'')]"
       and c = "\<lparr>cstore = \<lparr>db = Map.empty, disk = None\<rparr>, sess_name = Undefined, sent = None\<rparr>"
       and now = 7]
  by (simp add: invalid_length_def)

subsection \<open>Lookup route\<close>

text \<open>C22: \<^verbatim>\<open>GET /users/:username\<close> answers 200 exactly when the name has a record or
  is a property every object inherits, and 404 otherwise.\<close>

theorem get_users_response:
  assumes "sent c = None"
  shows "outcome (get_users k c) =
           Some (if k \<in> dom (db (cstore c)) \<or> k \<in> set object_proto_keys
                 then Send 200 ''Username exists.'' else Send 404 ''Error, username does not exist.'')"
  using assms
  by (simp add: get_users_def act_simps outcome_def db_get_truthy_iff)

theorem get_users_response_witness:
  "let c = \<lparr>cstore = \<lparr>db = Map.empty, disk = None\<rparr>, sess_name = Undefined, sent = None\<rparr>
   in sent c = None \<and> outcome (get_users ''constructor'' c) = Some (Send 200 ''Username exists.'')"
  using get_users_response
    [where c = "\<lparr>cstore = \<lparr>db = Map.empty, disk = None\<rparr>, sess_name = Undefined, sent = None\<rparr>"
       and k = "''constructor''"]
  by (simp add: object_proto_keys_def)

text \<open>C38: the spec's registration property of section 8: after a registration
  that passes both checks, with a password string, for a name not yet taken,
  \<^verbatim>\<open>getUser\<close> finds a record whose salt is the registration time and whose password
  field is the HMAC of the password keyed by that salt, and never the plaintext
  password, since a digest has 64 characters and an accepted password at most 49.\<close>

theorem registered_hash_not_plaintext:
  assumes "invalid_length b = Inr False"
    and "containsInvalidChars (body_username b) = Inr False" and "containsInvalidChars (body_name b) = Inr False"
    and "body_password b = Str p" and "sent c = None"
    and "js_String (body_username b) = Inr k" and "db_get (db (cstore c)) k = Absent"
  shows "\<exists>u. getUser (cstore (snd (post_users now b c))) (body_username b) = Inr (Own u) \<and>
             date u = Str (decimal now) \<and> password u = Str (hmac_hex (decimal now) p) \<and>
             password u \<noteq> body_password b"
proof -
  have run: "cstore (snd (post_users now b c)) = snd (saveUser (hashed_user now b p) (cstore c))"
    using post_users_checked [OF assms(1) _ _ assms(5), of False p now] assms(2-4) by simp
  have db: "db (cstore (snd (post_users now b c))) k = Some (hashed_user now b p)"
    using run saveUser_fresh [of "hashed_user now b p" k "cstore c"] assms(6,7) by simp
  have "length p \<le> 49"
    using invalid_length_False_password [OF assms(1,4)] by simp
  then have "hmac_hex (decimal now) p \<noteq> p"
    by (intro hmac_hex_neq) simp
  then show ?thesis
    using db assms(4,6) by (simp add: getUser_db_get hashed_user_def new_user_def)
qed

theorem registered_hash_not_plaintext_witness:
  "let b = \<lparr>body_username = Str ''alice1'', body_name = Str ''Alice A'', body_password = Str ''secret1''\<rparr>;
       c = \<lparr>cstore = \<lparr>db = Map.empty, disk = None\<rparr>, sess_name = Undefined, sent = None\<rparr>
   in invalid_length b = Inr False \<and> containsInvalidChars (body_username b) = Inr False \<and>
      containsInvalidChars (body_name b) = Inr False \<and> body_password b = Str ''secret1'' \<and> sent c = None \<and>
      js_String (body_username b) = Inr ''alice1'' \<and> db_get (db (cstore c)) ''alice1'' = Absent \<and>
      (\<exists>u. getUser (cstore (snd (post_users 7 b c))) (body_username b) = Inr (Own u) \<and>
           date u = Str (decimal 7) \<and> password u = Str (hmac_hex (decimal 7) ''secret1'') \<and>
           password u \<noteq> body_password b)"
  using registered_hash_not_plaintext
    [where b = "\<lparr>body_username = Str ''alice1'', body_name = Str ''Alice A'', body_password = Str ''secret1''\<rparr>"
       and c = "\<lparr>cstore = \<lparr>db = Map.empty, disk = None\<rparr>, sess_name = Undefined, sent = None\<rparr>"
       and p = "''secret1''" and k = "''alice1''" and now = 7]
  by (simp add: form_check_simps db_get_def object_proto_keys_def)

subsection \<open>The unused helper authUser\<close>

text \<open>C36: \<^verbatim>\<open>authUser\<close> (lines 50--55), which no route calls, does not implement the
  spec's \<^verbatim>\<open>authenticate\<close>: for a record stored by a registration it accepts exactly
  the stored digest as the password, so the plaintext password fails unless it is its
  own digest, and for an unknown name it throws a \<^verbatim>\<open>TypeError\<close> instead of
  reporting \<open>NotFound\<close>.\<close>

theorem authUser_compares_digest:
  assumes "js_String uname = Inr k"
  shows "(db st k = Some (hashed_user now b p) \<longrightarrow>
            authUser st uname pw = Inr (pw = Str (hmac_hex (decimal now) p))) \<and>
         (db_get (db st) k = Absent \<longrightarrow> authUser st uname pw = Inl TypeError)"
proof -
  have e: "js_strict_eq (Str h) v \<longleftrightarrow> v = Str h" for h v
    by (cases v) auto
  show ?thesis
    using assms by (auto simp: authUser_def hashed_user_def e)
qed

theorem authUser_compares_digest_witness:
  "let b = \<lparr>body_username = Str ''alice1'', body_name = Str ''Alice A'', body_password = Str ''secret1''\<rparr>;
       st = \<lparr>db = [''alice1'' \<mapsto> hashed_user 7 b ''secret1''], disk = None\<rparr>
   in js_String (Str ''alice1'') = Inr ''alice1'' \<and>
      authUser st (Str ''alice1'') (Str (hmac_hex (decimal 7) ''secret1'')) = Inr True \<and>
      authUser st (Str ''bob1'') (Str ''secret1'') = Inl TypeError"
proof -
  let ?b = "\<lparr>body_username = Str ''alice1'', body_name = Str ''Alice A'', body_password = Str ''secret1''\<rparr>"
  let ?st = "\<lparr>db = [''alice1'' \<mapsto> hashed_user 7 ?b ''secret1''], disk = None\<rparr>"
  have a: "authUser ?st (Str ''alice1'') (Str (hmac_hex (decimal 7) ''secret1'')) = Inr True"
    using authUser_compares_digest [where uname = "Str ''alice1''" and k = "''alice1''" and st = ?st
            and now = 7 and b = ?b and p = "''secret1''" and pw = "Str (hmac_hex (decimal 7) ''secret1'')"]
    by simp
  have n: "authUser ?st (Str ''bob1'') (Str ''secret1'') = Inl TypeError"
    using authUser_compares_digest [where uname = "Str ''bob1''" and k = "''bob1''" and st = ?st
            and now = 7 and b = ?b and p = "''secret1''" and pw = "Str ''secret1''"]
    by (simp add: db_get_def object_proto_keys_def)
  show ?thesis using a n by simp
qed

subsection \<open>Invariants of runs\<close>

text \<open>C6: in every state reachable from start-up, reloading the file reproduces the
  in-memory store: each change of the store is written through before the request
  ends, and every value the body parser delivers survives the JSON round trip.\<close>

theorem reachable_consistent:
  assumes "reachable f s"
  shows "load_db (disk (sstore s)) = db (sstore s)"
proof -
  have "store_consistent (sstore s) \<and> db_safe (db (sstore s))"
  proof (rule reachable_store_induct [OF assms])
    show "store_consistent (sstore (startup f)) \<and> db_safe (db (sstore (startup f)))"
      by (simp add: startup_def store_consistent_def load_db_safe)
  next
    fix st :: store and now b p
    assume "parsed_form b" and "store_consistent st \<and> db_safe (db st)"
    then show "store_consistent (snd (saveUser (hashed_user now b p) st)) \<and>
               db_safe (db (snd (saveUser (hashed_user now b p) st)))"
      by (simp add: saveUser_consistent hashed_user_safe)
  qed
  then show ?thesis by (simp add: store_consistent_def)
qed

theorem reachable_consistent_witness:
  "reachable None (startup None) \<and>
   load_db (disk (sstore (startup None))) = db (sstore (startup None))"
  using reachable_consistent [OF reachable.start [of None]] reachable.start [of None] by simp

text \<open>C7: no request removes or overwrites a stored record; in particular the salt of a
  record never changes once it is stored.\<close>

theorem serve_no_overwrite: "db (sstore s) \<subseteq>\<^sub>m db (sstore (fst (serve s sid now rq)))"
  using route_store [of now rq "\<lparr>cstore = sstore s, sess_name = sessions s sid, sent = None\<rparr>"]
  by (auto simp: serve_sstore saveUser_mono)

text \<open>C8: in every reachable state each record either came from the file read at
  start-up or holds, as its password, the HMAC of some password keyed by its own salt:
  no request stores a plaintext password.\<close>

theorem reachable_hashed:
  assumes "reachable f s" and "db (sstore s) k = Some u"
  shows "load_db f k = Some u \<or> (\<exists>d p. date u = Str d \<and> password u = Str (hmac_hex d p))"
proof -
  let ?P = "\<lambda>st. \<forall>k u. db st k = Some u \<longrightarrow>
              load_db f k = Some u \<or> (\<exists>d p. date u = Str d \<and> password u = Str (hmac_hex d p))"
  have "?P (sstore s)"
  proof (rule reachable_store_induct [OF assms(1)])
    show "?P (sstore (startup f))" by (simp add: startup_def)
  next
    fix st :: store and now b p
    assume "?P st"
    then show "?P (snd (saveUser (hashed_user now b p) st))"
      by (fastforce dest: saveUser_db_cases simp: hashed_user_def new_user_def)
  qed
  with assms(2) show ?thesis by blast
qed

theorem reachable_hashed_witness:
  "let b = \<lparr>body_username = Str ''alice1'', body_name = Str ''Alice A'', body_password = Str ''secret1''\<rparr>;
       s = fst (serve (startup None) 0 7 (PostUsers b))
   in reachable None s \<and> db (sstore s) ''alice1'' = Some (hashed_user 7 b ''secret1'') \<and>
      (load_db None ''alice1'' = Some (hashed_user 7 b ''secret1'') \<or>
       (\<exists>d p. date (hashed_user 7 b ''secret1'') = Str d \<and>
              password (hashed_user 7 b ''secret1'') = Str (hmac_hex d p)))"
proof -
  let ?b = "\<lparr>body_username = Str ''alice1'', body_name = Str ''Alice A'', body_password = Str ''secret1''\<rparr>"
  let ?s = "fst (serve (startup None) 0 7 (PostUsers ?b))"
  have r: "reachable None ?s"
    by (rule reachable.step [OF reachable.start]) (simp add: parsed_form_def)
  have d: "db (sstore ?s) ''alice1'' = Some (hashed_user 7 ?b ''secret1'')"
    by (simp add: serve_def post_users_def act_simps startup_def load_db_def form_check_simps
                  hashed_user_def new_user_def saveUser_def db_get_def object_proto_keys_def writeDB_def)
  show ?thesis
    using reachable_hashed [OF r d] r d by simp
qed

subsection \<open>Sessions\<close>

lemma sess_unchanged:
  "sess_name (snd (get_root c)) = sess_name c"
  "sess_name (snd (get_users k c)) = sess_name c"
  "sess_name (snd (get_index c)) = sess_name c"
  by (simp_all add: get_root_def get_users_def get_index_def act_simps split: prod.splits sum.splits)

lemma post_users_sess: "sess_name (snd (post_users now b c)) = sess_name c"
  by (simp add: post_users_def act_simps split: prod.splits sum.splits)

lemma post_auth_sess:
  "sess_name (snd (post_auth b c)) = sess_name c \<or>
   (\<exists>k u d p. js_String (body_username b) = Inr k \<and> db (cstore c) k = Some u \<and>
      js_toString (body_password b) = Inr p \<and> js_toString (date u) = Inr d \<and>
      password u = Str (hmac_hex d p) \<and> sess_name (snd (post_auth b c)) = name u)"
proof (cases "js_String (body_username b)")
  case (Inl e)
  then show ?thesis by (simp add: post_auth_def act_simps getUser_throws)
next
  case (Inr k)
  then show ?thesis
    by (cases "db_get (db (cstore c)) k")
       (auto simp: post_auth_def act_simps getUser_db_get sha256_def db_get_def
             split: prod.splits sum.splits if_splits option.splits)
qed

text \<open>C24: a request changes its session's name only by a login that names a stored
  user and presents a password whose HMAC under that user's salt is the stored hash;
  the name it stores is that user's.\<close>

theorem serve_login_sound:
  assumes "sessions (fst (serve s sid now rq)) sid \<noteq> sessions s sid"
  shows "\<exists>b k u d p. rq = PostAuth b \<and> js_String (body_username b) = Inr k \<and> db (sstore s) k = Some u \<and>
           js_toString (body_password b) = Inr p \<and> js_toString (date u) = Inr d \<and>
           password u = Str (hmac_hex d p) \<and> sessions (fst (serve s sid now rq)) sid = name u"
proof (cases rq)
  case (PostAuth b)
  with assms show ?thesis
    using post_auth_sess [of b "\<lparr>cstore = sstore s, sess_name = sessions s sid, sent = None\<rparr>"]
    by (auto simp: serve_def Let_def)
qed (use assms in \<open>simp_all add: serve_def Let_def sess_unchanged post_users_sess\<close>)

theorem serve_login_sound_witness:
  "let u = \<lparr>username = Str ''alice1'', name = Str ''Alice A'', password = Str (hmac_hex ''1'' ''secret1''),
            date = Str ''1''\<rparr>;
       s = \<lparr>sstore = \<lparr>db = [''alice1'' \<mapsto> u], disk = None\<rparr>, sessions = (\<lambda>_. Undefined)\<rparr>;
       rq = PostAuth \<lparr>body_username = Str ''alice1'', body_name = Undefined, body_password = Str ''secret1''\<rparr>
   in sessions (fst (serve s 0 5 rq)) 0 \<noteq> sessions s 0 \<and>
      (\<exists>b k u d p. rq = PostAuth b \<and> js_String (body_username b) = Inr k \<and> db (sstore s) k = Some u \<and>
         js_toString (body_password b) = Inr p \<and> js_toString (date u) = Inr d \<and>
         password u = Str (hmac_hex d p) \<and> sessions (fst (serve s 0 5 rq)) 0 = name u)"
proof -
  let ?u = "\<lparr>username = Str ''alice1'', name = Str ''Alice A'', password = Str (hmac_hex ''1'' ''secret1''),
            date = Str ''1''\<rparr>"
  let ?s = "\<lparr>sstore = \<lparr>db = [''alice1'' \<mapsto> ?u], disk = None\<rparr>, sessions = (\<lambda>_. Undefined)\<rparr>"
  let ?rq = "PostAuth \<lparr>body_username = Str ''alice1'', body_name = Undefined, body_password = Str ''secret1''\<rparr>"
  have h: "sessions (fst (serve ?s 0 5 ?rq)) 0 \<noteq> sessions ?s 0"
    by (simp add: serve_def post_auth_def act_simps getUser_db_get)
  show ?thesis
    using serve_login_sound [OF h] h by simp
qed




text \<open>C31: every request is answered: the handler either sends a response or throws,
  and when it throws before sending, Express's error handler sends the 500.\<close>

lemma handlers_answer:
  assumes "sent c = None" and "fst (route now rq c) = Inr ()"
  shows "sent (snd (route now rq c)) \<noteq> None"
  using assms
  by (cases rq)
     (auto simp: get_root_def get_users_def post_users_def post_auth_def get_index_def act_simps
           split: prod.splits sum.splits if_splits)

theorem serve_answers: "snd (serve s sid now rq) \<noteq> None"
  using handlers_answer [of "\<lparr>cstore = sstore s, sess_name = sessions s sid, sent = None\<rparr>" now rq]
  by (auto simp: serve_def Let_def outcome_def split: option.splits sum.splits)




end
