(* ===== verification/AuthSpec.thy ===== *)
theory AuthSpec
  imports Server
begin

text \<open>
  The abstract AuthService of the spec (sections 3, 4.2--4.4 and 6 of \<^verbatim>\<open>spec.md\<close>)
  and its refinement by the Express handlers of \<^verbatim>\<open>src/src/index.js\<close>.  The abstract
  store maps user names to records of strings (display name, password hash, salt);
  the abstract operations are lookup, register and authenticate, each returning a
  typed outcome; the transport mapping \<open>respond\<close> turns an outcome into the response
  the spec's interface table recommends, and leaves open the response to
  \<open>AlreadyExists\<close>, which the spec asks to surface but does not fix.  The
  abstraction function reads a concrete record of string fields as an abstract
  record and a session's \<^verbatim>\<open>name\<close> string as its display name.
\<close>

record urec =
  u_name :: string
  u_hash :: string
  u_salt :: string

type_synonym astore = "string \<rightharpoonup> urec"

datatype reg_error = MissingField | InvalidLength | InvalidCharacters

datatype outcome =
    Registered | ValidationFailed reg_error | AlreadyExists
  | Authenticated string | NotFound | WrongPassword
  | Exists | DoesNotExist

subsection \<open>The abstract operations\<close>

definition spec_length_ok :: "string \<Rightarrow> bool" where
  "spec_length_ok s \<longleftrightarrow> 3 < length s \<and> length s < 50"

definition spec_chars_ok :: "string \<Rightarrow> bool" where
  "spec_chars_ok s \<longleftrightarrow> (\<forall>c\<in>set s. allowed_char c)"

text \<open>Presence, then the lengths of the three fields, then the characters of the
  user name and the display name (section 4.3).\<close>

definition spec_validate :: "string option \<Rightarrow> string option \<Rightarrow> string option \<Rightarrow> reg_error option" where
  "spec_validate u n p =
     (case (u, n, p) of
        (Some u, Some n, Some p) \<Rightarrow>
          if \<not> (spec_length_ok u \<and> spec_length_ok n \<and> spec_length_ok p) then Some InvalidLength
          else if \<not> (spec_chars_ok u \<and> spec_chars_ok n) then Some InvalidCharacters
          else None
      | _ \<Rightarrow> Some MissingField)"

text \<open>\<^verbatim>\<open>register\<close>: the salt is the creation time as a decimal string (section
  4.4), the hash the Hasher's HMAC of the password keyed by the salt.\<close>

definition spec_register ::
  "nat \<Rightarrow> string option \<Rightarrow> string option \<Rightarrow> string option \<Rightarrow> astore \<Rightarrow> outcome \<times> astore" where
  "spec_register now u n p A =
     (case spec_validate u n p of
        Some r \<Rightarrow> (ValidationFailed r, A)
      | None \<Rightarrow>
          (let u = the u; n = the n; p = the p in
           if u \<in> dom A then (AlreadyExists, A)
           else (Registered,
                 A(u \<mapsto> \<lparr>u_name = n, u_hash = hmac_hex (decimal now) p, u_salt = decimal now\<rparr>))))"

definition spec_authenticate :: "astore \<Rightarrow> string \<Rightarrow> string \<Rightarrow> outcome" where
  "spec_authenticate A u p =
     (case A u of
        None \<Rightarrow> NotFound
      | Some r \<Rightarrow> if hmac_hex (u_salt r) p = u_hash r then Authenticated (u_name r) else WrongPassword)"

definition spec_lookup :: "astore \<Rightarrow> string \<Rightarrow> outcome" where
  "spec_lookup A u = (if u \<in> dom A then Exists else DoesNotExist)"

text \<open>The transport mapping of section 6, with the messages and pages of the
  source.  A missing field is reported with the length message, as the source's
  single presence-and-length test does.\<close>

fun respond :: "outcome \<Rightarrow> response option" where
  "respond Registered = Some (Redirect ''login.html'')"
| "respond (ValidationFailed InvalidCharacters) = Some (Redirect (with_fragment ''registration.html'' msg_chars))"
| "respond (ValidationFailed _) = Some (Redirect (with_fragment ''registration.html'' msg_length))"
| "respond AlreadyExists = None"
| "respond (Authenticated n) = Some (Redirect ''index.html'')"
| "respond NotFound = Some (Redirect (with_fragment ''login.html'' msg_no_user))"
| "respond WrongPassword = Some (Redirect (with_fragment ''login.html'' msg_mismatch))"
| "respond Exists = Some (Send 200 ''Username exists.'')"
| "respond DoesNotExist = Some (Send 404 ''Error, username does not exist.'')"

subsection \<open>The abstract machine\<close>

record astate =
  a_users :: astore
  a_sess :: "nat \<Rightarrow> string option"

datatype areq = ALookup string | ARegister "string option" "string option" "string option"
  | ALogin string string

definition spec_serve :: "astate \<Rightarrow> nat \<Rightarrow> nat \<Rightarrow> areq \<Rightarrow> astate \<times> outcome" where
  "spec_serve a sid now q =
     (case q of
        ALookup u \<Rightarrow> (a, spec_lookup (a_users a) u)
      | ARegister u n p \<Rightarrow>
          (let (r, A') = spec_register now u n p (a_users a) in (a\<lparr>a_users := A'\<rparr>, r))
      | ALogin u p \<Rightarrow>
          (case spec_authenticate (a_users a) u p of
             Authenticated n \<Rightarrow> (a\<lparr>a_sess := (a_sess a)(sid := Some n)\<rparr>, Authenticated n)
           | r \<Rightarrow> (a, r)))"

subsection \<open>Abstraction of the concrete state\<close>

fun str_of :: "jsval \<Rightarrow> string option" where
  "str_of (Str s) = Some s"
| "str_of _ = None"

definition abs_user :: "user \<Rightarrow> urec option" where
  "abs_user u =
     (case (str_of (name u), str_of (password u), str_of (date u)) of
        (Some n, Some h, Some s) \<Rightarrow> Some \<lparr>u_name = n, u_hash = h, u_salt = s\<rparr>
      | _ \<Rightarrow> None)"

definition abs_db :: "db \<Rightarrow> astore" where
  "abs_db d k = Option.bind (d k) abs_user"

definition abs_server :: "server \<Rightarrow> astate" where
  "abs_server s = \<lparr>a_users = abs_db (db (sstore s)), a_sess = (\<lambda>sid. str_of (sessions s sid))\<rparr>"

text \<open>The concrete states the abstraction reads faithfully: every record has
  string fields, and every session's name is absent or a string.\<close>

fun sess_ok :: "jsval \<Rightarrow> bool" where
  "sess_ok Undefined = True"
| "sess_ok (Str s) = True"
| "sess_ok _ = False"

definition wf_db :: "db \<Rightarrow> bool" where
  "wf_db d \<longleftrightarrow> (\<forall>u\<in>ran d. abs_user u \<noteq> None)"

definition wf_server :: "server \<Rightarrow> bool" where
  "wf_server s \<longleftrightarrow> wf_db (db (sstore s)) \<and> (\<forall>sid. sess_ok (sessions s sid))"

text \<open>The requests the abstract machine describes: a registration with three string
  fields that pass the Validator, a login with a string user name and password, and a
  lookup, each for a name that is not inherited from \<^verbatim>\<open>Object.prototype\<close>.  Other
  requests (\<^verbatim>\<open>GET /\<close>, \<^verbatim>\<open>GET /index.html\<close>) are outside the AuthService.\<close>

fun abs_req :: "request \<Rightarrow> areq option" where
  "abs_req (GetUser k) = Some (ALookup k)"
| "abs_req (PostUsers b) =
     Some (ARegister (str_of (body_username b)) (str_of (body_name b)) (str_of (body_password b)))"
| "abs_req (PostAuth b) =
     (case (body_username b, body_password b) of
        (Str u, Str p) \<Rightarrow> Some (ALogin u p)
      | _ \<Rightarrow> None)"
| "abs_req _ = None"

fun valid_req :: "request \<Rightarrow> bool" where
  "valid_req (GetUser k) = (k \<notin> set object_proto_keys)"
| "valid_req (PostUsers b) =
     (case (body_username b, body_name b, body_password b) of
        (Str u, Str n, Str p) \<Rightarrow>
          spec_validate (Some u) (Some n) (Some p) = None \<and> u \<notin> set object_proto_keys
      | _ \<Rightarrow> False)"
| "valid_req (PostAuth b) =
     (case (body_username b, body_password b) of
        (Str u, Str p) \<Rightarrow> u \<notin> set object_proto_keys
      | _ \<Rightarrow> False)"
| "valid_req _ = True"

fun serve_run :: "server \<Rightarrow> (nat \<times> nat \<times> request) list \<Rightarrow> server" where
  "serve_run s [] = s"
| "serve_run s ((sid, now, rq) # rs) = serve_run (fst (serve s sid now rq)) rs"

fun spec_run :: "astate \<Rightarrow> (nat \<times> nat \<times> request) list \<Rightarrow> astate" where
  "spec_run a [] = a"
| "spec_run a ((sid, now, rq) # rs) =
     spec_run (case abs_req rq of None \<Rightarrow> a | Some q \<Rightarrow> fst (spec_serve a sid now q)) rs"

subsection \<open>Lemmas on the abstraction\<close>

lemma abs_db_dom: "wf_db d \<Longrightarrow> (k \<in> dom (abs_db d)) = (k \<in> dom d)"
  by (cases "d k") (auto simp: wf_db_def abs_db_def ran_def)

lemma abs_db_upd: "abs_db (d(k \<mapsto> v)) = (abs_db d)(k := abs_user v)"
  by (simp add: abs_db_def fun_eq_iff)

lemma abs_user_hashed:
  "body_name b = Str n \<Longrightarrow>
   abs_user (hashed_user now b p) = Some \<lparr>u_name = n, u_hash = hmac_hex (decimal now) p, u_salt = decimal now\<rparr>"
  by (simp add: abs_user_def hashed_user_def new_user_def)

lemma wf_db_upd: "wf_db d \<Longrightarrow> abs_user v \<noteq> None \<Longrightarrow> wf_db (d(k \<mapsto> v))"
  by (auto simp: wf_db_def ran_def)

lemma wf_db_abs_user: "wf_db d \<Longrightarrow> d k = Some u \<Longrightarrow> \<exists>n h t. name u = Str n \<and> password u = Str h \<and> date u = Str t"
  by (cases "name u"; cases "password u"; cases "date u")
     (auto simp: wf_db_def ran_def abs_user_def dest!: bspec [where x = u])

lemma serve_state:
  "fst (serve s sid now rq) =
     (let rc = route now rq \<lparr>cstore = sstore s, sess_name = sessions s sid, sent = None\<rparr>
      in \<lparr>sstore = cstore (snd rc), sessions = (sessions s)(sid := sess_name (snd rc))\<rparr>)"
  by (simp add: serve_def Let_def)

lemma server_eta [simp]: "\<lparr>sstore = sstore s, sessions = sessions s\<rparr> = s"
  by simp

lemma serve_response:
  "snd (serve s sid now rq) = outcome (route now rq \<lparr>cstore = sstore s, sess_name = sessions s sid, sent = None\<rparr>)"
  by (simp add: serve_def Let_def)

lemma valid_register_checks:
  assumes "spec_validate (Some u) (Some n) (Some p) = None"
  shows "invalid_length \<lparr>body_username = Str u, body_name = Str n, body_password = Str p\<rparr> = Inr False"
    and "containsInvalidChars (Str u) = Inr False" and "containsInvalidChars (Str n) = Inr False"
proof -
  have l: "spec_length_ok u" "spec_length_ok n" "spec_length_ok p"
   and c: "spec_chars_ok u" "spec_chars_ok n"
    using assms by (auto simp: spec_validate_def split: if_splits)
  show "invalid_length \<lparr>body_username = Str u, body_name = Str n, body_password = Str p\<rparr> = Inr False"
    using l by (simp add: invalid_length_def spec_length_ok_def)
  show "containsInvalidChars (Str u) = Inr False" "containsInvalidChars (Str n) = Inr False"
    using c by (simp_all add: containsInvalidChars_Str spec_chars_ok_def)
qed

subsection \<open>Refinement, one operation at a time\<close>

lemma refine_register:
  assumes wf: "wf_server s"
    and b: "b = \<lparr>body_username = Str u, body_name = Str n, body_password = Str p\<rparr>"
    and v: "spec_validate (Some u) (Some n) (Some p) = None" and np: "u \<notin> set object_proto_keys"
  shows "abs_server (fst (serve s sid now (PostUsers b))) =
           fst (spec_serve (abs_server s) sid now (ARegister (Some u) (Some n) (Some p))) \<and>
         wf_server (fst (serve s sid now (PostUsers b))) \<and>
         (\<forall>r. respond (snd (spec_serve (abs_server s) sid now (ARegister (Some u) (Some n) (Some p)))) = Some r \<longrightarrow>
              snd (serve s sid now (PostUsers b)) = Some r)"
proof -
  let ?c = "\<lparr>cstore = sstore s, sess_name = sessions s sid, sent = None\<rparr>"
  let ?hu = "hashed_user now b p"
  have chk: "invalid_length b = Inr False"
    "js_or [containsInvalidChars (body_username b), containsInvalidChars (body_name b)] = Inr False"
    using valid_register_checks [OF v] b by simp_all
  have run: "post_users now b ?c =
      (Inr (), ?c\<lparr>cstore := snd (saveUser ?hu (sstore s)), sent := Some (Redirect ''login.html'')\<rparr>)"
    using post_users_checked [OF chk _, of p ?c now] b by simp
  have wfd: "wf_db (db (sstore s))" and ws: "\<forall>sid. sess_ok (sessions s sid)"
    using wf by (simp_all add: wf_server_def)
  have sv: "spec_validate (Some u) (Some n) (Some p) = None" by (rule v)
  show ?thesis
  proof (cases "u \<in> dom (db (sstore s))")
    case True
    then have "saveUser ?hu (sstore s) = (Inr False, sstore s)"
      using b by (intro saveUser_taken [of _ u]) (simp_all add: db_get_truthy_iff)
    moreover have "u \<in> dom (abs_db (db (sstore s)))"
      using True abs_db_dom [OF wfd] by simp
    ultimately show ?thesis
      using run wfd ws sv
      by (simp add: serve_state serve_response outcome_def spec_serve_def spec_register_def abs_server_def
                    wf_server_def)
  next
    case False
    then have "db_get (db (sstore s)) u = Absent"
      using np by (simp add: db_get_Absent_iff domIff)
    then have "saveUser ?hu (sstore s) =
        (Inr True, (sstore s)\<lparr>db := (db (sstore s))(u \<mapsto> ?hu),
                              disk := Some (snapshot_of ((db (sstore s))(u \<mapsto> ?hu)))\<rparr>)"
      using b by (intro saveUser_fresh) simp_all
    moreover have "u \<notin> dom (abs_db (db (sstore s)))"
      using False abs_db_dom [OF wfd] by simp
    moreover have "abs_user ?hu = Some \<lparr>u_name = n, u_hash = hmac_hex (decimal now) p, u_salt = decimal now\<rparr>"
      using b by (simp add: abs_user_hashed)
    ultimately show ?thesis
      using run wfd ws sv
      by (simp add: serve_state serve_response outcome_def spec_serve_def spec_register_def
                    abs_server_def wf_server_def abs_db_upd wf_db_upd)
  qed
qed

lemma refine_login:
  assumes wf: "wf_server s"
    and b: "body_username b = Str u" "body_password b = Str p" and np: "u \<notin> set object_proto_keys"
  shows "abs_server (fst (serve s sid now (PostAuth b))) =
           fst (spec_serve (abs_server s) sid now (ALogin u p)) \<and>
         wf_server (fst (serve s sid now (PostAuth b))) \<and>
         (\<forall>r. respond (snd (spec_serve (abs_server s) sid now (ALogin u p))) = Some r \<longrightarrow>
              snd (serve s sid now (PostAuth b)) = Some r)"
proof -
  let ?c = "\<lparr>cstore = sstore s, sess_name = sessions s sid, sent = None\<rparr>"
  have wfd: "wf_db (db (sstore s))" and ws: "\<forall>sid. sess_ok (sessions s sid)"
    using wf by (simp_all add: wf_server_def)
  show ?thesis
  proof (cases "db (sstore s) u")
    case None
    then have "db_get (db (sstore s)) u = Absent"
      using np by (simp add: db_get_Absent_iff)
    then have "post_auth b ?c =
        (Inl TypeError, ?c\<lparr>sent := Some (Redirect (with_fragment ''login.html'' msg_no_user))\<rparr>)"
      using b by (simp add: post_auth_def act_simps getUser_db_get sha256_def)
    moreover have "abs_db (db (sstore s)) u = None"
      using None by (simp add: abs_db_def)
    ultimately show ?thesis
      using wfd ws
      by (simp add: serve_state serve_response outcome_def spec_serve_def spec_authenticate_def
                    abs_server_def wf_server_def)
  next
    case (Some r)
    then obtain n h t where f: "name r = Str n" "password r = Str h" "date r = Str t"
      using wf_db_abs_user [OF wfd] by blast
    have run: "post_auth b ?c =
        (if password r = Str (hmac_hex t p)
         then (Inr (), ?c\<lparr>sess_name := name r, sent := Some (Redirect ''index.html'')\<rparr>)
         else (Inr (), ?c\<lparr>sent := Some (Redirect (with_fragment ''login.html'' msg_mismatch))\<rparr>))"
      using b f Some by (intro post_auth_found) simp_all
    have a: "abs_db (db (sstore s)) u = Some \<lparr>u_name = n, u_hash = h, u_salt = t\<rparr>"
      using Some f by (simp add: abs_db_def abs_user_def)
    show ?thesis
      using run a f wfd ws
      by (auto simp: serve_state serve_response outcome_def spec_serve_def spec_authenticate_def
                     abs_server_def wf_server_def fun_eq_iff)
  qed
qed

lemma refine_lookup:
  assumes wf: "wf_server s" and np: "k \<notin> set object_proto_keys"
  shows "abs_server (fst (serve s sid now (GetUser k))) =
           fst (spec_serve (abs_server s) sid now (ALookup k)) \<and>
         wf_server (fst (serve s sid now (GetUser k))) \<and>
         (\<forall>r. respond (snd (spec_serve (abs_server s) sid now (ALookup k))) = Some r \<longrightarrow>
              snd (serve s sid now (GetUser k)) = Some r)"
proof -
  have wfd: "wf_db (db (sstore s))"
    using wf by (simp add: wf_server_def)
  show ?thesis
    using wf np abs_db_dom [OF wfd, of k]
    by (simp add: serve_state serve_response outcome_def get_users_def act_simps db_get_truthy_iff
                  spec_serve_def spec_lookup_def abs_server_def)
qed

lemma refine_other:
  assumes "wf_server s" and "rq = GetRoot \<or> rq = GetIndex"
  shows "fst (serve s sid now rq) = s"
proof -
  have "sess_ok (sessions s sid)"
    using assms(1) by (simp add: wf_server_def)
  then have "\<exists>g. greeting (sessions s sid) = Inr g"
    by (cases "sessions s sid") (simp_all add: greeting_def)
  then show ?thesis
    using assms(2)
    by (auto simp: serve_state get_root_def get_index_def act_simps)
qed

lemma step_refines:
  assumes wf: "wf_server s" and v: "valid_req rq"
  shows "abs_server (fst (serve s sid now rq)) =
           (case abs_req rq of None \<Rightarrow> abs_server s | Some q \<Rightarrow> fst (spec_serve (abs_server s) sid now q)) \<and>
         wf_server (fst (serve s sid now rq))"
proof (cases rq)
  case (GetUser k)
  then show ?thesis using refine_lookup [OF wf, of k sid now] v by simp
next
  case (PostUsers b)
  then obtain u n p where f: "body_username b = Str u" "body_name b = Str n" "body_password b = Str p"
      and sv: "spec_validate (Some u) (Some n) (Some p) = None" "u \<notin> set object_proto_keys"
    using v by (auto split: jsval.splits)
  then have "b = \<lparr>body_username = Str u, body_name = Str n, body_password = Str p\<rparr>"
    by (cases b) simp
  then show ?thesis
    using refine_register [OF wf _ sv, of b sid now] PostUsers f by simp
next
  case (PostAuth b)
  then obtain u p where f: "body_username b = Str u" "body_password b = Str p" "u \<notin> set object_proto_keys"
    using v by (auto split: jsval.splits)
  then show ?thesis
    using refine_login [OF wf f, of sid now] PostAuth by simp
qed (use wf refine_other [OF wf] in simp_all)

text \<open>The response of \<^verbatim>\<open>POST /users\<close> is its first redirect, decided by the two
  checks alone.\<close>

lemma post_users_first_response:
  assumes "invalid_length b = Inr bad"
    and "js_or [containsInvalidChars (body_username b), containsInvalidChars (body_name b)] = Inr chars"
    and "sent c = None" and "\<not> bad \<Longrightarrow> js_toString (body_password b) = Inr p"
  shows "outcome (post_users now b c) =
           Some (Redirect (if bad then with_fragment ''registration.html'' msg_length
                           else if chars then with_fragment ''registration.html'' msg_chars
                           else ''login.html''))"
proof (cases bad)
  case True
  with assms(1-3) show ?thesis
    by (cases chars) (auto simp: post_users_def act_simps outcome_def split: prod.splits sum.splits)
next
  case False
  with post_users_checked [OF assms(1,2) assms(4) assms(3), of now] show ?thesis
    by (simp add: outcome_def)
qed

lemma scalar_length_ok: "scalar_field v \<Longrightarrow> length_ok v \<longleftrightarrow> (\<exists>s. str_of v = Some s \<and> spec_length_ok s)"
  by (cases v) (auto simp: spec_length_ok_def)

lemma scalar_chars:
  "scalar_field v \<Longrightarrow>
   containsInvalidChars v = Inr (case str_of v of Some s \<Rightarrow> \<not> spec_chars_ok s | None \<Rightarrow> False)"
  by (cases v) (simp_all add: containsInvalidChars_Str spec_chars_ok_def)

lemma scalar_toString: "scalar_field v \<Longrightarrow> str_of v = Some s \<Longrightarrow> js_toString v = Inr s"
  by (cases v) simp_all

subsection \<open>Refinement theorems\<close>

text \<open>C33: one request on a well-formed state: the abstraction of the state after a
  lookup, a valid registration or a login is the state after the abstract
  operation, and every response the spec fixes for the abstract outcome is the
  response the server sends.\<close>

theorem serve_refines:
  assumes "wf_server s" and "valid_req rq" and "abs_req rq = Some q"
  shows "abs_server (fst (serve s sid now rq)) = fst (spec_serve (abs_server s) sid now q) \<and>
         (\<forall>r. respond (snd (spec_serve (abs_server s) sid now q)) = Some r \<longrightarrow>
              snd (serve s sid now rq) = Some r)"
proof (cases rq)
  case (GetUser k)
  then show ?thesis using refine_lookup [OF assms(1), of k sid now] assms(2,3) by simp
next
  case (PostUsers b)
  then obtain u n p where f: "body_username b = Str u" "body_name b = Str n" "body_password b = Str p"
      and sv: "spec_validate (Some u) (Some n) (Some p) = None" "u \<notin> set object_proto_keys"
    using assms(2) by (auto split: jsval.splits)
  then have "b = \<lparr>body_username = Str u, body_name = Str n, body_password = Str p\<rparr>"
    by (cases b) simp
  then show ?thesis
    using refine_register [OF assms(1) _ sv, of b sid now] PostUsers f assms(3) by simp
next
  case (PostAuth b)
  then obtain u p where f: "body_username b = Str u" "body_password b = Str p" "u \<notin> set object_proto_keys"
    using assms(2) by (auto split: jsval.splits)
  then show ?thesis
    using refine_login [OF assms(1) f, of sid now] PostAuth assms(3) by simp
qed (use assms(3) in simp_all)

theorem serve_refines_witness:
  "let b = \<lparr>body_username = Str ''alice1'', body_name = Str ''Alice A'', body_password = Str ''secret1''\<rparr>
   in wf_server (startup None) \<and> valid_req (PostUsers b) \<and>
      abs_req (PostUsers b) = Some (ARegister (Some ''alice1'') (Some ''Alice A'') (Some ''secret1'')) \<and>
      abs_server (fst (serve (startup None) 0 7 (PostUsers b))) =
        fst (spec_serve (abs_server (startup None)) 0 7 (ARegister (Some ''alice1'') (Some ''Alice A'') (Some ''secret1''))) \<and>
      (\<forall>r. respond (snd (spec_serve (abs_server (startup None)) 0 7
                          (ARegister (Some ''alice1'') (Some ''Alice A'') (Some ''secret1'')))) = Some r \<longrightarrow>
           snd (serve (startup None) 0 7 (PostUsers b)) = Some r)"
proof -
  let ?b = "\<lparr>body_username = Str ''alice1'', body_name = Str ''Alice A'', body_password = Str ''secret1''\<rparr>"
  have wf: "wf_server (startup None)"
    by (simp add: wf_server_def wf_db_def startup_def load_db_def)
  have v: "valid_req (PostUsers ?b)"
    by (simp add: spec_validate_def spec_length_ok_def spec_chars_ok_def allowed_char_def is_word_char_def
                  is_ascii_alpha_def is_ascii_digit_def object_proto_keys_def)
  have q: "abs_req (PostUsers ?b) = Some (ARegister (Some ''alice1'') (Some ''Alice A'') (Some ''secret1''))"
    by simp
  show ?thesis using serve_refines [OF wf v q, of 0 7] wf v q by simp
qed

text \<open>C34: a run of valid requests from a well-formed state (lookups, registrations
  that pass the Validator, logins, and the pages outside the AuthService) is
  simulated by the abstract machine: the abstraction of the final state is the
  abstract run's final state, and the state stays well-formed.\<close>

theorem serve_run_refines:
  assumes "wf_server s" and "\<forall>(sid, now, rq) \<in> set rs. valid_req rq"
  shows "abs_server (serve_run s rs) = spec_run (abs_server s) rs \<and> wf_server (serve_run s rs)"
  using assms
proof (induction rs arbitrary: s)
  case (Cons x rs)
  obtain sid now rq where x: "x = (sid, now, rq)" by (cases x)
  with Cons.prems have "valid_req rq" by simp
  with Cons.prems(1) have step:
    "abs_server (fst (serve s sid now rq)) =
       (case abs_req rq of None \<Rightarrow> abs_server s | Some q \<Rightarrow> fst (spec_serve (abs_server s) sid now q))"
    "wf_server (fst (serve s sid now rq))"
    using step_refines by blast+
  have "abs_server (serve_run (fst (serve s sid now rq)) rs) =
          spec_run (abs_server (fst (serve s sid now rq))) rs \<and>
        wf_server (serve_run (fst (serve s sid now rq)) rs)"
    using Cons.IH [OF step(2)] Cons.prems(2) x by simp
  then show ?case
    using step(1) x by (simp split: option.splits)
qed simp

theorem serve_run_refines_witness:
  "let b = \<lparr>body_username = Str ''alice1'', body_name = Str ''Alice A'', body_password = Str ''secret1''\<rparr>;
       rs = [(0, 7, PostUsers b), (1, 9, PostAuth b), (1, 9, GetIndex)]
   in wf_server (startup None) \<and> (\<forall>(sid, now, rq) \<in> set rs. valid_req rq) \<and>
      abs_server (serve_run (startup None) rs) = spec_run (abs_server (startup None)) rs \<and>
      wf_server (serve_run (startup None) rs)"
proof -
  let ?b = "\<lparr>body_username = Str ''alice1'', body_name = Str ''Alice A'', body_password = Str ''secret1''\<rparr>"
  let ?rs = "[(0::nat, 7::nat, PostUsers ?b), (1, 9, PostAuth ?b), (1, 9, GetIndex)]"
  have wf: "wf_server (startup None)"
    by (simp add: wf_server_def wf_db_def startup_def load_db_def)
  have v: "\<forall>(sid, now, rq) \<in> set ?rs. valid_req rq"
    by (simp add: spec_validate_def spec_length_ok_def spec_chars_ok_def allowed_char_def is_word_char_def
                  is_ascii_alpha_def is_ascii_digit_def object_proto_keys_def)
  show ?thesis using serve_run_refines [OF wf v] wf v by simp
qed

text \<open>C35: the response to a registration whose fields are absent, \<^verbatim>\<open>null\<close> or strings
  is the spec's response to the abstract outcome, in every state, except that the
  outcome \<open>AlreadyExists\<close> is answered like \<open>Registered\<close>: the validation message
  the client sees is the first failing category, as section 4.3 asks, although the
  handler runs on past it.\<close>

theorem register_response_refines:
  assumes "scalar_field (body_username b)" and "scalar_field (body_name b)"
    and "scalar_field (body_password b)" and "sent c = None"
  shows "outcome (post_users now b c) =
           respond (case fst (spec_register now (str_of (body_username b)) (str_of (body_name b))
                                (str_of (body_password b)) A) of
                      AlreadyExists \<Rightarrow> Registered
                    | r \<Rightarrow> r)"
proof -
  let ?u = "body_username b" and ?n = "body_name b" and ?p = "body_password b"
  define bad where "bad = (\<not> (length_ok ?u \<and> length_ok ?n \<and> length_ok ?p))"
  define chars where "chars = ((case str_of ?u of Some s \<Rightarrow> \<not> spec_chars_ok s | None \<Rightarrow> False) \<or>
                               (case str_of ?n of Some s \<Rightarrow> \<not> spec_chars_ok s | None \<Rightarrow> False))"
  have il: "invalid_length b = Inr bad"
    using invalid_length_by_field [of b] assms(1-3)
    by (simp add: bad_def scalar_accepted scalar_no_own_length)
  have ch: "js_or [containsInvalidChars ?u, containsInvalidChars ?n] = Inr chars"
    using assms(1,2) by (simp add: scalar_chars chars_def)
  obtain p where pw: "\<not> bad \<Longrightarrow> js_toString ?p = Inr p"
    using assms(3) scalar_length_ok [OF assms(3)] scalar_toString [OF assms(3)] unfolding bad_def by blast
  have o: "outcome (post_users now b c) =
             Some (Redirect (if bad then with_fragment ''registration.html'' msg_length
                             else if chars then with_fragment ''registration.html'' msg_chars
                             else ''login.html''))"
    by (rule post_users_first_response [OF il ch assms(4) pw])
  show ?thesis
    unfolding o bad_def chars_def
    using scalar_length_ok [OF assms(1)] scalar_length_ok [OF assms(2)] scalar_length_ok [OF assms(3)]
    by (auto simp: spec_register_def spec_validate_def Let_def split: option.splits)
qed

theorem register_response_refines_witness:
  "let b = \<lparr>body_username = Str ''alice1'', body_name = Str ''bad!name'', body_password = Undefined\<rparr>;
       c = \<lparr>cstore = \<lparr>db = Map.empty, disk = None\<rparr>, sess_name = Undefined, sent = None\<rparr>
   in scalar_field (body_username b) \<and> scalar_field (body_name b) \<and> scalar_field (body_password b) \<and>
      sent c = None \<and>
      outcome (post_users 7 b c) = Some (Redirect (with_fragment ''registration.html'' msg_length))"
  using register_response_refines
    [where b = "\<lparr>body_username = Str ''alice1'', body_name = Str ''bad!name'', body_password = Undefined\<rparr>"
       and c = "\<lparr>cstore = \<lparr>db = Map.empty, disk = None\<rparr>, sess_name = Undefined, sent = None\<rparr>"
       and now = 7 and A = Map.empty]
  by (simp add: spec_register_def spec_validate_def)

end
