(* ===== verification/Router.thy ===== *)
theory Router
  imports Server
begin

text \<open>Express's routing in front of the handlers.  The app's stack is the session and
  body-parser middleware (\<open>serve\<close> runs them with the handler), the five routes in
  the order \<^verbatim>\<open>app.get\<close>/\<^verbatim>\<open>app.post\<close> register them (lines 69--161), and last
  \<^verbatim>\<open>express.static('static')\<close> (line 184).  A route's path is compiled by
  path-to-regexp 0.1 (Express 4) with the router's defaults: case-insensitive, a
  trailing slash optional, \<^verbatim>\<open>:username\<close> one or more characters other than
  \<^verbatim>\<open>/\<close>.  The router matches the pathname as sent (percent escapes included),
  decodes a parameter with \<^verbatim>\<open>decodeURIComponent\<close> and turns a \<^verbatim>\<open>URIError\<close>
  into a 400; a GET route also answers HEAD; an OPTIONS request that no route handles
  is answered with the methods of the routes whose path matches.  The request's
  pathname is the part of its target before \<^verbatim>\<open>?\<close>, as \<^verbatim>\<open>parseurl\<close> delivers it;
  no route reads the query.\<close>

subsection \<open>Route paths\<close>

text \<open>The case folding of a regular expression with the \<^verbatim>\<open>i\<close> flag on the code
  units below 256: only ASCII letters fold to the ASCII letters of a route's path.\<close>

definition ascii_lower :: "char \<Rightarrow> char" where
  "ascii_lower c = (if 65 \<le> (of_char c :: nat) \<and> (of_char c :: nat) \<le> 90 then char_of (of_char c + 32 :: nat) else c)"

text \<open>A route path is a literal, \<^verbatim>\<open>^L\/?$\<close> (a final \<^verbatim>\<open>/\<close> of \<open>L\<close> made
  optional instead), or a literal prefix ending in \<^verbatim>\<open>/\<close> and one parameter,
  \<^verbatim>\<open>^P(?:([^\/]+?))\/?$\<close>: the two shapes the app registers.  The result is the
  list of the raw parameter values.\<close>

definition path_match :: "string \<Rightarrow> string \<Rightarrow> string list option" where
  "path_match pat p =
     (let low = map ascii_lower;
          lit = takeWhile (\<lambda>c. c \<noteq> CHR '':'') pat
      in if lit = pat then
           (if low p = low pat \<or>
               low p = low (if pat \<noteq> [] \<and> last pat = CHR ''/'' then butlast pat else pat @ ''/'')
            then Some [] else None)
         else if low (take (length lit) p) = low lit then
           (let r = drop (length lit) p;
                v = (if r \<noteq> [] \<and> last r = CHR ''/'' then butlast r else r)
            in if v \<noteq> [] \<and> CHR ''/'' \<notin> set v then Some [v] else None)
         else None)"

subsection \<open>The app's routes and the router\<close>

text \<open>The routes in registration order: the verb, the path as written in the source,
  and the request the handler serves, built from the decoded parameters and the
  parsed body.\<close>

type_synonym app_route = "string \<times> string \<times> (string list \<Rightarrow> form \<Rightarrow> request)"

definition app_routes :: "app_route list" where
  "app_routes =
     [(''GET'', ''/'', \<lambda>ps b. GetRoot),
      (''GET'', ''/users/:username'', \<lambda>ps b. GetUser (hd ps)),
      (''POST'', ''/users'', \<lambda>ps b. PostUsers b),
      (''POST'', ''/auth'', \<lambda>ps b. PostAuth b),
      (''GET'', ''/index.html'', \<lambda>ps b. GetIndex)]"

text \<open>What the client receives from the app: the answer of a route handler
  (\<open>serve\<close>), the \<^verbatim>\<open>Allow\<close> list of an automatic OPTIONS answer, a file of the
  static directory, or an error status of the final handler.\<close>

datatype http_answer = Answered "response option" | Allow "string list" | File string | Status nat

text \<open>\<^verbatim>\<open>express.static('static')\<close>: a GET or HEAD request for a path that names a
  file is answered with it; otherwise the request goes on (\<open>None\<close>).  The file
  system, with serve-static's reading of a path as a file name, is the parameter
  \<open>fs\<close>.\<close>

definition serve_static :: "(string \<Rightarrow> string option) \<Rightarrow> string \<Rightarrow> string \<Rightarrow> http_answer option" where
  "serve_static fs m p = (if m = ''GET'' \<or> m = ''HEAD'' then map_option File (fs p) else None)"

text \<open>The router's \<^verbatim>\<open>next()\<close> loop over the routes, with the first parameter error
  and the methods collected for OPTIONS; after the routes comes the static layer,
  skipped when a parameter failed to decode, and then the final handler.\<close>

fun router_next ::
  "(string \<Rightarrow> string option) \<Rightarrow> server \<Rightarrow> nat \<Rightarrow> nat \<Rightarrow> string \<Rightarrow> string \<Rightarrow> form \<Rightarrow>
   bool \<Rightarrow> string list \<Rightarrow> app_route list \<Rightarrow> server \<times> http_answer" where
  "router_next fs s sid now m p b err opts [] =
     (if err then (s, Status 400)
      else case serve_static fs m p of
        Some a \<Rightarrow> (s, a)
      | None \<Rightarrow> (s, if m = ''OPTIONS'' \<and> opts \<noteq> [] then Allow opts else Status 404))"
| "router_next fs s sid now m p b err opts ((v, pat, mk) # rs) =
     (case path_match pat p of
        None \<Rightarrow> router_next fs s sid now m p b err opts rs
      | Some raw \<Rightarrow>
          (case those (map uri_decode raw) of
             None \<Rightarrow> router_next fs s sid now m p b True opts rs
           | Some ps \<Rightarrow>
               if err then router_next fs s sid now m p b err opts rs
               else if m = v \<or> (m = ''HEAD'' \<and> v = ''GET'')
               then (case serve s sid now (mk ps b) of (s', r) \<Rightarrow> (s', Answered r))
               else router_next fs s sid now m p b err
                      (if m = ''OPTIONS''
                       then foldl (\<lambda>l x. if x \<in> set l then l else l @ [x]) opts
                              (if v = ''GET'' then [''GET'', ''HEAD''] else [v])
                       else opts) rs))"

text \<open>One HTTP request with method \<open>m\<close>, pathname \<open>p\<close> and parsed body \<open>b\<close>,
  from session \<open>sid\<close> at clock value \<open>now\<close>, through the app's stack.\<close>

definition serve_http ::
  "(string \<Rightarrow> string option) \<Rightarrow> server \<Rightarrow> nat \<Rightarrow> nat \<Rightarrow> string \<Rightarrow> string \<Rightarrow> form \<Rightarrow> server \<times> http_answer" where
  "serve_http fs s sid now m p b = router_next fs s sid now m p b False [] app_routes"


subsection \<open>Path matching\<close>

lemma encodeURIComponent_no_slash: "CHR ''/'' \<notin> set (encodeURIComponent n)"
  using encodeURIComponent_alphabet [of n]
  by (auto simp: uri_unreserved_def is_ascii_alpha_def is_ascii_digit_def upper_hex_digits_def)

lemma encodeURIComponent_nonempty: "n \<noteq> [] \<Longrightarrow> encodeURIComponent n \<noteq> []"
  by (cases n) (auto simp: encodeURIComponent_def utf8_char_def pct_byte_def Let_def)

lemma ascii_lower_slash [simp]: "ascii_lower c = CHR ''/'' \<longleftrightarrow> c = CHR ''/''"
proof
  assume h: "ascii_lower c = CHR ''/''"
  show "c = CHR ''/''"
  proof (cases "65 \<le> (of_char c :: nat) \<and> (of_char c :: nat) \<le> 90")
    case True
    then have "(of_char (ascii_lower c) :: nat) = of_char c + 32"
      by (simp add: ascii_lower_def of_char_of)
    with True h show ?thesis by simp
  next
    case False
    with h show ?thesis by (simp add: ascii_lower_def)
  qed
qed (simp add: ascii_lower_def)

text \<open>The parameter route takes the segment after \<^verbatim>\<open>/users/\<close>, in any letter case,
  with or without a final slash.\<close>

lemma path_match_user:
  assumes "map ascii_lower pre = ''/users/''" and "v \<noteq> []" and "CHR ''/'' \<notin> set v"
    and "t = [] \<or> t = ''/''"
  shows "path_match ''/users/:username'' (pre @ v @ t) = Some [v]"
proof -
  have len: "length pre = 7" using arg_cong [OF assms(1), of length] by simp
  have tw: "takeWhile (\<lambda>c. c \<noteq> CHR '':'') ''/users/:username'' = ''/users/''" by simp
  have lit: "ascii_lower CHR ''/'' = CHR ''/'' \<and> ascii_lower CHR ''u'' = CHR ''u'' \<and>
      ascii_lower CHR ''s'' = CHR ''s'' \<and> ascii_lower CHR ''e'' = CHR ''e'' \<and> ascii_lower CHR ''r'' = CHR ''r''"
    by (simp add: ascii_lower_def)
  have lv: "last v \<noteq> CHR ''/''" using assms(2,3) last_in_set by metis
  from assms(4) show ?thesis
  proof
    assume "t = []"
    then show ?thesis using len lv assms(2,3) by (simp add: path_match_def Let_def tw lit assms(1))
  next
    assume "t = ''/''"
    then show ?thesis using len assms(2,3) by (simp add: path_match_def Let_def tw lit assms(1) butlast_append)
  qed
qed

lemma path_match_root_long: "2 \<le> length p \<Longrightarrow> path_match ''/'' p = None"
  by (auto simp: path_match_def Let_def dest: arg_cong [of _ _ length])


lemma ascii_lower_slash_id [simp]: "ascii_lower CHR ''/'' = CHR ''/''"
  by (simp add: ascii_lower_def)

lemma path_match_root_Some: "path_match ''/'' p \<noteq> None \<Longrightarrow> p = [] \<or> p = ''/''"
  by (auto simp: path_match_def Let_def split: if_splits)

lemma those_single [simp]: "those [x] = map_option (\<lambda>y. [y]) x"
  by (cases x) simp_all

subsection \<open>The router\<close>

text \<open>A request whose route is found: the handler runs through \<open>serve\<close>.\<close>

lemma router_run:
  assumes "path_match pat p = Some raw" and "those (map uri_decode raw) = Some ps"
    and "m = v \<or> (m = ''HEAD'' \<and> v = ''GET'')"
  shows "router_next fs s sid now m p b False opts ((v, pat, mk) # rs) =
         (fst (serve s sid now (mk ps b)), Answered (snd (serve s sid now (mk ps b))))"
  using assms by (simp split: prod.split)

lemma router_skip:
  assumes "path_match pat p = None"
  shows "router_next fs s sid now m p b err opts ((v, pat, mk) # rs) = router_next fs s sid now m p b err opts rs"
  using assms by simp

text \<open>A parameter that fails to decode: every later route is skipped, and so is the
  static layer; the final handler answers 400 and nothing changes.\<close>

lemma router_error_rest: "router_next fs s sid now m p b True opts rs = (s, Status 400)"
  by (induction rs arbitrary: opts) (auto split: option.split)

lemma router_decode_error:
  assumes "path_match pat p = Some raw" and "those (map uri_decode raw) = None"
  shows "router_next fs s sid now m p b err opts ((v, pat, mk) # rs) = (s, Status 400)"
  using assms by (simp add: router_error_rest)


text \<open>A request whose pathname no route matches reaches the static layer untouched:
  a GET or HEAD is answered with the file, if there is one, and everything else
  ends in the final handler's 404 or, for OPTIONS, in an empty-handed 404 too.\<close>

lemma router_unmatched:
  assumes "\<forall>r\<in>set rs. path_match (fst (snd r)) p = None"
  shows "router_next fs s sid now m p b False [] rs =
         (s, case serve_static fs m p of Some a \<Rightarrow> a | None \<Rightarrow> Status 404)"
  using assms by (induction rs) (auto split: option.split)

text \<open>A \<^verbatim>\<open>/users/\<close> segment with a malformed escape, for any method: the
  router answers 400 before any handler or the static layer runs, and the state is
  unchanged.\<close>

lemma serve_http_decode_error:
  assumes "map ascii_lower pre = ''/users/''" and "raw \<noteq> []" and "CHR ''/'' \<notin> set raw"
    and "uri_decode raw = None"
  shows "serve_http fs s sid now m (pre @ raw) b = (s, Status 400)"
proof -
  have len: "length pre = 7" using arg_cong [OF assms(1), of length] by simp
  have "pre @ raw \<noteq> [] \<and> pre @ raw \<noteq> ''/''"
    using len by (auto dest: arg_cong [where f = length])
  then have root: "path_match ''/'' (pre @ raw) = None"
    using path_match_root_Some [of "pre @ raw"] by blast
  have user: "path_match ''/users/:username'' (pre @ raw @ []) = Some [raw]"
    using path_match_user [OF assms(1-3), of "[]"] by simp
  have dec: "those (map uri_decode [raw]) = None" using assms(4) by simp
  show ?thesis
    unfolding serve_http_def app_routes_def router_skip [OF root]
    using user by (intro router_decode_error [OF _ dec]) simp
qed

lemma serve_http_examples:
  "snd (serve_http (\<lambda>_. None) (startup None) 0 0 ''OPTIONS'' ''/users'' b) = Allow [''POST'']"
  "snd (serve_http (\<lambda>_. None) (startup None) 0 0 ''OPTIONS'' ''/Users/x'' b) = Allow [''GET'', ''HEAD'']"
  "snd (serve_http (\<lambda>_. None) (startup None) 0 0 ''GET'' ''/users/%ZZ'' b) = Status 400"
  "snd (serve_http (\<lambda>_. None) (startup None) 0 0 ''GET'' ''/users'' b) = Status 404"
  "snd (serve_http (\<lambda>p. if p = ''/login.html'' then Some ''<form>'' else None) (startup None) 0 0
      ''GET'' ''/login.html'' b) = (File ''<form>'')"
  by code_simp+

text \<open>C14: for every non-empty user name of the model's characters, a GET or HEAD of
  \<^verbatim>\<open>/users/\<close> followed by the name as \<^verbatim>\<open>encodeURIComponent\<close> writes it, with the
  literal part in any letter case and with or without a final slash, is routed to
  the handler of \<^verbatim>\<open>GET /users/:username\<close> with exactly that name: the router's
  match and decoding invert the client's encoding.\<close>

theorem get_user_route_roundtrip:
  assumes "n \<noteq> []" and "map ascii_lower pre = ''/users/''" and "t = [] \<or> t = ''/''"
    and "m = ''GET'' \<or> m = ''HEAD''"
  shows "serve_http fs s sid now m (pre @ encodeURIComponent n @ t) b =
         (fst (serve s sid now (GetUser n)), Answered (snd (serve s sid now (GetUser n))))"
proof -
  let ?p = "pre @ encodeURIComponent n @ t"
  have len: "length pre = 7" using arg_cong [OF assms(2), of length] by simp
  have "?p \<noteq> [] \<and> ?p \<noteq> ''/''"
    using len by (auto dest: arg_cong [where f = length])
  then have root: "path_match ''/'' ?p = None"
    using path_match_root_Some [of ?p] by blast
  have user: "path_match ''/users/:username'' ?p = Some [encodeURIComponent n]"
    using path_match_user [OF assms(2) encodeURIComponent_nonempty [OF assms(1)]
                              encodeURIComponent_no_slash assms(3)] .
  have dec: "those (map uri_decode [encodeURIComponent n]) = Some [n]"
    by (simp add: uri_decode_encode)
  have run: "router_next fs s sid now m ?p b False [] ((''GET'', ''/users/:username'', \<lambda>ps b. GetUser (hd ps)) # rs) =
      (fst (serve s sid now (GetUser n)), Answered (snd (serve s sid now (GetUser n))))" for rs
    using router_run [OF user dec, of m "''GET''" fs s sid now b "[]" "\<lambda>ps b. GetUser (hd ps)" rs] assms(4)
    by auto
  show ?thesis
    unfolding serve_http_def app_routes_def router_skip [OF root] by (rule run)
qed

theorem get_user_route_roundtrip_witness:
  "serve_http (\<lambda>_. None) (startup None) 0 0 ''GET'' (''/Users/'' @ encodeURIComponent ''Al ice'' @ ''/'')
      \<lparr>body_username = Undefined, body_name = Undefined, body_password = Undefined\<rparr> =
   (fst (serve (startup None) 0 0 (GetUser ''Al ice'')),
    Answered (snd (serve (startup None) 0 0 (GetUser ''Al ice''))))"
proof -
  have "map ascii_lower ''/Users/'' = ''/users/''" by code_simp
  then show ?thesis
    using get_user_route_roundtrip [of "''Al ice''" "''/Users/''" "''/''" "''GET''"] by simp
qed

end
