(* ===== verification/Spec2Isabelle.thy ===== *)
theory Spec2Isabelle
  imports AuthSpec Router
begin

text \<open>
  \<^bold>\<open>A verification model of sshoaf2020/proj4.\<close>
  The program is one Express application, \<^verbatim>\<open>src/src/index.js\<close>: user registration
  (\<^verbatim>\<open>POST /users\<close>), login (\<^verbatim>\<open>POST /auth\<close>), a user-exists lookup
  (\<^verbatim>\<open>GET /users/:username\<close>), a greeting page (\<^verbatim>\<open>GET /index.html\<close>) and
  \<^verbatim>\<open>GET /\<close>, over a global object \<^verbatim>\<open>db\<close> of user records that is loaded from
  \<^verbatim>\<open>db/database.json\<close> at start-up and rewritten in full after each successful
  \<^verbatim>\<open>saveUser\<close>.  Passwords are stored as HMAC-SHA256 digests keyed by the
  registration timestamp (the record's \<^verbatim>\<open>date\<close>, the spec's salt).  The request
  bodies are parsed by \<^verbatim>\<open>body-parser\<close> in extended mode, so a form field is a
  string, an array or an object, and the handlers convert it with the JavaScript
  conversions wherever the source uses it.

  \<^bold>\<open>Theories.\<close>
  \<^item> \<open>Prelude\<close>: byte and word types, hexadecimal digit tables, joining strings, the
    left-to-right sequencing \<open>all_Inr\<close> of computations that may fail, and the
    state-and-exception action type (\<open>ret\<close>, \<open>raise\<close>, \<open>liftE\<close>, \<open>bindA\<close>,
    \<open>when_do\<close>) in which the handlers are written; an action returns its state also
    when it throws, as a JavaScript handler leaves its mutations behind.
  \<^item> \<open>JsRuntime\<close>: JavaScript values (\<open>jsval\<close>: \<^verbatim>\<open>undefined\<close>, \<^verbatim>\<open>null\<close>,
    strings, arrays, objects as the list of their own properties), ToString
    (\<open>js_String\<close>, which joins arrays and throws on an object whose own
    \<^verbatim>\<open>toString\<close> is not callable), \<^verbatim>\<open>v.toString()\<close>, truthiness, strict
    equality, short-circuit \<^verbatim>\<open>||\<close> over operands that may throw (\<open>js_or\<close>),
    ToNumber with StringToNumber, the decimal rendering of \<^verbatim>\<open>Date.now()\<close>, the names
    inherited from \<^verbatim>\<open>Object.prototype\<close>, UTF-8, \<^verbatim>\<open>encodeURIComponent\<close> and the
    client's \<^verbatim>\<open>decodeURIComponent\<close> (built-ins, modelled from ECMAScript), with the
    decoding round trip.
  \<^item> \<open>BodyParser\<close>: the form record \<^verbatim>\<open>req.body\<close> and the values \<^verbatim>\<open>qs\<close> produces
    for it (line 66).
  \<^item> \<open>Hasher\<close> (spec 4.1): SHA-256 (FIPS 180-4) on 32-bit words, HMAC (FIPS 198-1),
    the hex digest, and the source's helper \<open>sha256\<close> (lines 94--97).  Lemmas: digest
    lengths, the padding fills whole blocks, the helper's outcomes; the model
    reproduces RFC 4231's second test vector in the kernel.
  \<^item> \<open>UserStore\<close> (spec 4.2): the user record, the store \<open>db\<close> with its file
    \<open>disk\<close> (the JSON document, \<open>None\<close> when missing or corrupt), \<open>db_get\<close> (a
    read \<^verbatim>\<open>db[k]\<close> on a plain object: own record, inherited built-in, or
    \<^verbatim>\<open>undefined\<close>), JSON serialisation of nested values (\<open>leaf_of\<close>, \<open>jval\<close>),
    \<open>load_db\<close> (lines 18--26), \<open>writeDB\<close>, \<open>getUser\<close>, \<open>saveUser\<close> (an action on
    the store that may throw on the key conversion), \<open>authUser\<close> (lines 30--55).
    Lemmas: snapshot round trip, \<open>saveUser\<close>'s contract, write-through consistency.
  \<^item> \<open>Validator\<close> (spec 4.3): the length guard of lines 105--116 as twelve
    short-circuited tests, with \<^verbatim>\<open>.length\<close> on strings, arrays and objects and the
    comparisons on doubles, and \<open>containsInvalidChars\<close> (lines 87--89).  Lemmas: on
    strings the guard is the spec's 4--49 range; what it accepts of arrays and
    objects; the spec's examples.
  \<^item> \<open>Server\<close> (spec 4.4 and the transport shell): Express's \<^verbatim>\<open>res.send\<close> and
    \<^verbatim>\<open>res.redirect\<close> (a second one throws \<open>HeadersSent\<close>), the five handlers
    \<open>get_root\<close>, \<open>get_users\<close>, \<open>post_users\<close>, \<open>post_auth\<close>, \<open>get_index\<close> with
    every statement of the source including the fall-through after each redirect,
    the dispatcher \<open>route\<close>, what the client receives (\<open>outcome\<close>: the first
    response, else a 500 when the handler threw), the server state with one session
    name per session id, \<open>startup\<close>, one request \<open>serve\<close>, and the inductive set
    \<open>reachable\<close> of states after any sequence of requests whose forms come from the
    body parser.  Lemmas: each handler's behaviour on every branch, the store effect
    of every route, and invariants of all reachable states by rule induction.
  \<^item> \<open>AuthSpec\<close>: the spec's AuthService as an abstract machine over a store of
    string records (\<open>spec_register\<close>, \<open>spec_authenticate\<close>, \<open>spec_lookup\<close>, the
    transport mapping \<open>respond\<close>), the abstraction \<open>abs_server\<close> of the concrete
    state, and the refinement theorems.
  \<^item> \<open>Router\<close>: Express's routing in front of \<open>serve\<close>: the route table
    \<open>app_routes\<close> in registration order (lines 69--161), path-to-regexp's matching
    of the two path shapes the app uses (\<open>path_match\<close>: case-insensitive, optional
    trailing slash, one \<^verbatim>\<open>:username\<close> segment), the router's loop \<open>router_next\<close>
    (parameter decoding with a 400 on a \<^verbatim>\<open>URIError\<close>, GET routes answering HEAD,
    the automatic OPTIONS answer), \<^verbatim>\<open>express.static\<close> after the routes
    (\<open>serve_static\<close>, line 184, over a file-system parameter) and the final 404;
    \<open>serve_http\<close> runs one HTTP request through the whole stack.  Lemmas: which
    route a pathname reaches, the decode error, the static fallback.
  \<^item> this theory: properties that span registration, the store and login.

  \<^bold>\<open>What the theorems show.\<close>  A valid registration of a new name stores the hashed
  record and persists it (C1); login with the right password sets the session name
  (C2), and one right after registration succeeds (C3); a wrong password, an unknown
  user or a missing password field fail as the code says (C4, C5, C20); every
  reachable state's file reloads to its store (C6), no request overwrites a record
  (C7), no request stores a plaintext password (C8), every stored value and session
  name is a JSON value without holes (C30), and every request is answered (C31).  On
  well-formed states the server refines the abstract AuthService, one request at a
  time with its response (C33) and over whole runs of valid requests (C34), and the
  registration response follows the spec's order of checks for every form of strings
  (C35).  The same development also proves what the code does where the spec says
  otherwise: a taken name is answered like a success (C9, C35); registrations that
  fail the length or character checks are still saved, because no handler returns
  after its error redirect (C10, C11, C19); the names of \<^verbatim>\<open>Object.prototype\<close> can
  never be registered and always "exist" (C18, C22); the length guard lets every
  object through (C28), so an account registered with an object password accepts
  any object password (C32), while an object whose own \<^verbatim>\<open>length\<close> is a decimal string is measured as that number (C40); and a user name object with an own \<^verbatim>\<open>toString\<close>
  makes both POST handlers answer 500 (C29).  The salt is the millisecond clock, so two
  registrations in the same millisecond with the same password store the same hash
  (C37), and the unused \<open>authUser\<close> accepts the stored digest instead of the
  password (C36).  The stored password of a fresh valid registration is the HMAC
  digest of the submitted password under the registration time and never the
  password itself (C38).  A session's name changes only through a
  login with a matching password (C24), and the error redirects carry the
  percent-encoded messages in their fragment, which the client decodes back to the
  message (C25, C26, C27).  In front of the handlers, the router sends
  \<^verbatim>\<open>GET /users/\<close> followed by any encoded non-empty name, in any letter case and
  with or without a final slash, to the lookup handler with exactly that name (C14).

  \<^bold>\<open>Choices.\<close>  The clock value \<^verbatim>\<open>Date.now()\<close> and the session id are inputs of a
  request.  No loop of the program is unbounded: the only recursions are over lists,
  numbers and nested values (SHA-256 blocks, the message schedule, decimal digits,
  ToString and JSON of arrays and objects) and are total functions, so no fuel is
  needed; the block loop of SHA-256 is a \<open>function\<close> whose termination is proved with
  the measure \<open>length\<close>, and C39 counts the rounds each call of \<open>sha256\<close> makes.  Strings are lists of 8-bit characters, which covers JavaScript strings of
  Latin-1 code units.  Numbers are exact rationals; the two comparisons of the
  length guard apply the rounding to the nearest double through their thresholds
  (\<open>le_3\<close>, \<open>ge_50\<close>), which is exact for every input (ECMAScript lets an engine
  round a literal of more than 20 significant digits differently; the model takes the
  correctly rounded value, as V8 does).  Two arrays or objects
  are never the same reference, since the source only compares a stored value with a
  request's value or a fresh string.

  \<^bold>\<open>Not modelled.\<close>  What \<^verbatim>\<open>express.static\<close> finds for a path (the
  files of \<^verbatim>\<open>static/\<close>, with serve-static's decoding, dot-file and directory
  rules) is the parameter \<open>fs\<close> of \<open>serve_static\<close>; port binding and logging
  are I/O; the request target's split into pathname and query is \<^verbatim>\<open>parseurl\<close>'s
  and the router is given the pathname; the text syntax of JSON and of the
  URL-encoded body is the libraries': \<open>qs\<close> is described by the values it
  returns, not by its parsing; the cookie transport of \<^verbatim>\<open>express-session\<close> is
  reduced to a session id per request, and its store's JSON round trip of the
  session is the identity on the values C30 shows are stored.  The routing follows
  Express 4 (path-to-regexp 0.1), the version of the code's time; the repository
  has no package manifest that fixes it.

  What remains outside the model is library code the source only configures: the
  text syntax of \<open>qs\<close> (bracketed keys, array limits, merging) would be a model of
  that library and not of this program, which reads only the values it delivers;
  the body parser is therefore modelled by its value space (\<open>parsed_form\<close>), as
  the static middleware is by its file-system parameter.
\<close>

text \<open>A registration that passes its checks followed by a login, from any session
  and at any later time, with a password value that converts to the same string.\<close>

lemma register_login_run:
  assumes "invalid_length b = Inr False"
    and "containsInvalidChars (body_username b) = Inr False" and "containsInvalidChars (body_name b) = Inr False"
    and "js_toString (body_password b) = Inr p" and "js_toString q = Inr p"
    and "js_String (body_username b) = Inr k" and "db_get (db (sstore s)) k = Absent"
  shows "let (s1, r1) = serve s sid now (PostUsers b);
             (s2, r2) = serve s1 sid' now' (PostAuth \<lparr>body_username = body_username b,
                                                       body_name = Undefined, body_password = q\<rparr>)
         in r1 = Some (Redirect ''login.html'') \<and> r2 = Some (Redirect ''index.html'') \<and>
            sessions s2 sid' = body_name b"
proof -
  let ?c = "\<lparr>cstore = sstore s, sess_name = sessions s sid, sent = None\<rparr>"
  let ?u = "hashed_user now b p"
  have reg: "post_users now b ?c =
      (Inr (), ?c\<lparr>cstore := snd (saveUser ?u (sstore s)), sent := Some (Redirect ''login.html'')\<rparr>)"
    using post_users_checked [OF assms(1) _ assms(4), of False ?c now] assms(2,3) by simp
  have st: "db (snd (saveUser ?u (sstore s))) k = Some ?u"
    using saveUser_fresh [of ?u k "sstore s"] assms(6,7) by simp
  show ?thesis
    using reg st assms(5,6)
    by (simp add: serve_def outcome_def post_auth_def act_simps getUser_db_get sha256_def
                  hashed_user_def new_user_def)
qed

text \<open>C3: registering a new name with valid fields and then logging in with the same
  password, from any session and at any later time, succeeds and stores the display
  name in the second session.\<close>

theorem register_then_login:
  assumes "invalid_length b = Inr False"
    and "containsInvalidChars (body_username b) = Inr False" and "containsInvalidChars (body_name b) = Inr False"
    and "js_toString (body_password b) = Inr p"
    and "js_String (body_username b) = Inr k" and "db_get (db (sstore s)) k = Absent"
  shows "let (s1, r1) = serve s sid now (PostUsers b);
             (s2, r2) = serve s1 sid' now' (PostAuth \<lparr>body_username = body_username b,
                                                       body_name = Undefined, body_password = body_password b\<rparr>)
         in r1 = Some (Redirect ''login.html'') \<and> r2 = Some (Redirect ''index.html'') \<and>
            sessions s2 sid' = body_name b"
  using register_login_run [OF assms(1-4) assms(4) assms(5,6)] .

theorem register_then_login_witness:
  "let b = \<lparr>body_username = Str ''alice1'', body_name = Str ''Alice A'', body_password = Str ''secret1''\<rparr>
   in invalid_length b = Inr False \<and> containsInvalidChars (body_username b) = Inr False \<and>
      containsInvalidChars (body_name b) = Inr False \<and> js_toString (body_password b) = Inr ''secret1'' \<and>
      js_String (body_username b) = Inr ''alice1'' \<and> db_get (db (sstore (startup None))) ''alice1'' = Absent \<and>
      (let (s1, r1) = serve (startup None) 0 7 (PostUsers b);
           (s2, r2) = serve s1 1 9 (PostAuth \<lparr>body_username = body_username b,
                                              body_name = Undefined, body_password = body_password b\<rparr>)
       in r1 = Some (Redirect ''login.html'') \<and> r2 = Some (Redirect ''index.html'') \<and>
          sessions s2 1 = body_name b)"
  using register_then_login
    [where b = "\<lparr>body_username = Str ''alice1'', body_name = Str ''Alice A'', body_password = Str ''secret1''\<rparr>"
       and s = "startup None" and p = "''secret1''" and k = "''alice1''" and sid = 0 and now = 7
       and sid' = 1 and now' = 9]
  by (simp add: form_check_simps db_get_def object_proto_keys_def startup_def load_db_def)

text \<open>C32: a user who registered with an object as password (the form field
  \<^verbatim>\<open>password[x]=...\<close>, which passes the length check, C28) has the HMAC of
  \<^verbatim>\<open>[object Object]\<close> stored, and anyone can then log in as that user with any
  other object password: both convert to the same string.\<close>

theorem object_password_login:
  assumes "invalid_length b = Inr False"
    and "containsInvalidChars (body_username b) = Inr False" and "containsInvalidChars (body_name b) = Inr False"
    and "body_password b = Obj fs" and "''toString'' \<notin> set (map fst fs)"
    and "''toString'' \<notin> set (map fst gs)"
    and "js_String (body_username b) = Inr k" and "db_get (db (sstore s)) k = Absent"
  shows "let (s1, r1) = serve s sid now (PostUsers b);
             (s2, r2) = serve s1 sid' now' (PostAuth \<lparr>body_username = body_username b,
                                                       body_name = Undefined, body_password = Obj gs\<rparr>)
         in r1 = Some (Redirect ''login.html'') \<and> r2 = Some (Redirect ''index.html'') \<and>
            sessions s2 sid' = body_name b"
proof -
  have "js_toString (body_password b) = Inr ''[object Object]''" "js_toString (Obj gs) = Inr ''[object Object]''"
    using assms(4-6) by simp_all
  from register_login_run [OF assms(1-3) this assms(7,8)] show ?thesis .
qed

theorem object_password_login_witness:
  "let b = \<lparr>body_username = Str ''alice1'', body_name = Str ''Alice A'', body_password = Obj [(''a'', Str ''1'')]\<rparr>
   in invalid_length b = Inr False \<and> containsInvalidChars (body_username b) = Inr False \<and>
      containsInvalidChars (body_name b) = Inr False \<and> body_password b = Obj [(''a'', Str ''1'')] \<and>
      ''toString'' \<notin> set (map fst [(''a'', Str ''1'')]) \<and> ''toString'' \<notin> set (map fst [(''b'', Str ''2'')]) \<and>
      js_String (body_username b) = Inr ''alice1'' \<and> db_get (db (sstore (startup None))) ''alice1'' = Absent \<and>
      (let (s1, r1) = serve (startup None) 0 7 (PostUsers b);
           (s2, r2) = serve s1 1 9 (PostAuth \<lparr>body_username = body_username b,
                                              body_name = Undefined, body_password = Obj [(''b'', Str ''2'')]\<rparr>)
       in r1 = Some (Redirect ''login.html'') \<and> r2 = Some (Redirect ''index.html'') \<and>
          sessions s2 1 = body_name b)"
  using object_password_login
    [where b = "\<lparr>body_username = Str ''alice1'', body_name = Str ''Alice A'', body_password = Obj [(''a'', Str ''1'')]\<rparr>"
       and fs = "[(''a'', Str ''1'')]" and gs = "[(''b'', Str ''2'')]"
       and s = "startup None" and k = "''alice1''" and sid = 0 and now = 7 and sid' = 1 and now' = 9]
  by (simp add: form_check_simps length_le_3_def length_ge_50_def db_get_def object_proto_keys_def
                startup_def load_db_def)

text \<open>C37: the salt is the registration time in milliseconds, so it is not unique per
  user as the spec's data model requires: two users who register in the same
  millisecond with the same password are stored with the same salt and the same
  hash.\<close>

theorem same_millisecond_same_hash:
  assumes "invalid_length ba = Inr False" and "containsInvalidChars (body_username ba) = Inr False"
    and "containsInvalidChars (body_name ba) = Inr False"
    and "invalid_length bb = Inr False" and "containsInvalidChars (body_username bb) = Inr False"
    and "containsInvalidChars (body_name bb) = Inr False"
    and "js_toString (body_password ba) = Inr p" and "js_toString (body_password bb) = Inr p"
    and "js_String (body_username ba) = Inr ka" and "js_String (body_username bb) = Inr kb" and "ka \<noteq> kb"
    and "db_get (db (sstore s)) ka = Absent" and "db_get (db (sstore s)) kb = Absent"
  shows "let sc = fst (serve (fst (serve s sa now (PostUsers ba))) sb now (PostUsers bb))
         in \<exists>ua ub. db (sstore sc) ka = Some ua \<and> db (sstore sc) kb = Some ub \<and>
                    date ua = date ub \<and> password ua = password ub"
proof -
  let ?ca = "\<lparr>cstore = sstore s, sess_name = sessions s sa, sent = None\<rparr>"
  let ?ua = "hashed_user now ba p" and ?ub = "hashed_user now bb p"
  let ?s1 = "fst (serve s sa now (PostUsers ba))"
  have ra: "post_users now ba ?ca =
      (Inr (), ?ca\<lparr>cstore := snd (saveUser ?ua (sstore s)), sent := Some (Redirect ''login.html'')\<rparr>)"
    using post_users_checked [OF assms(1) _ assms(7), of False ?ca now] assms(2,3) by simp
  have da: "db (sstore ?s1) = (db (sstore s))(ka \<mapsto> ?ua)"
    using ra saveUser_fresh [of ?ua ka "sstore s"] assms(9,12) by (simp add: serve_def Let_def)
  then have ab: "db_get (db (sstore ?s1)) kb = Absent"
    using assms(11,13) by (simp add: db_get_def)
  let ?cc = "\<lparr>cstore = sstore ?s1, sess_name = sessions ?s1 sb, sent = None\<rparr>"
  have rb: "post_users now bb ?cc =
      (Inr (), ?cc\<lparr>cstore := snd (saveUser ?ub (sstore ?s1)), sent := Some (Redirect ''login.html'')\<rparr>)"
    using post_users_checked [OF assms(4) _ assms(8), of False ?cc now] assms(5,6) by simp
  have db2: "db (sstore (fst (serve ?s1 sb now (PostUsers bb)))) = (db (sstore ?s1))(kb \<mapsto> ?ub)"
    using rb saveUser_fresh [of ?ub kb "sstore ?s1"] assms(10) ab by (simp add: serve_def Let_def)
  show ?thesis
    using da db2 assms(11) by (simp add: Let_def hashed_user_def new_user_def)
qed

theorem same_millisecond_same_hash_witness:
  "let ba = \<lparr>body_username = Str ''alice1'', body_name = Str ''Alice A'', body_password = Str ''secret1''\<rparr>;
       bb = \<lparr>body_username = Str ''bobby2'', body_name = Str ''Bob B'', body_password = Str ''secret1''\<rparr>;
       s = startup None
   in invalid_length ba = Inr False \<and> containsInvalidChars (body_username ba) = Inr False \<and>
      containsInvalidChars (body_name ba) = Inr False \<and>
      invalid_length bb = Inr False \<and> containsInvalidChars (body_username bb) = Inr False \<and>
      containsInvalidChars (body_name bb) = Inr False \<and>
      js_toString (body_password ba) = Inr ''secret1'' \<and> js_toString (body_password bb) = Inr ''secret1'' \<and>
      js_String (body_username ba) = Inr ''alice1'' \<and> js_String (body_username bb) = Inr ''bobby2'' \<and>
      ''alice1'' \<noteq> ''bobby2'' \<and>
      db_get (db (sstore s)) ''alice1'' = Absent \<and> db_get (db (sstore s)) ''bobby2'' = Absent \<and>
      (let sc = fst (serve (fst (serve s 0 7 (PostUsers ba))) 1 7 (PostUsers bb))
       in \<exists>ua ub. db (sstore sc) ''alice1'' = Some ua \<and> db (sstore sc) ''bobby2'' = Some ub \<and>
                  date ua = date ub \<and> password ua = password ub)"
  using same_millisecond_same_hash
    [where ba = "\<lparr>body_username = Str ''alice1'', body_name = Str ''Alice A'', body_password = Str ''secret1''\<rparr>"
       and bb = "\<lparr>body_username = Str ''bobby2'', body_name = Str ''Bob B'', body_password = Str ''secret1''\<rparr>"
       and s = "startup None" and p = "''secret1''" and ka = "''alice1''" and kb = "''bobby2''"
       and sa = 0 and sb = 1 and now = 7]
  by (simp add: form_check_simps db_get_def object_proto_keys_def startup_def load_db_def)

text \<open>C18: a name that every object inherits (such as \<^verbatim>\<open>constructor\<close>) and that has no
  record of its own can never be registered, while the lookup route reports it as an
  existing user.\<close>

theorem prototype_name_never_registered:
  assumes "body_username b = Str k" and "k \<in> set object_proto_keys" and "db (sstore s) k = None"
  shows "db (sstore (fst (serve s sid now (PostUsers b)))) = db (sstore s) \<and>
         snd (serve s sid' now' (GetUser k)) = Some (Send 200 ''Username exists.'')"
proof -
  let ?c = "\<lparr>cstore = sstore s, sess_name = sessions s sid, sent = None\<rparr>"
  have taken: "lookup_truthy (db_get (db st) k)" if "db st k = None" for st
    using that assms(2) by (simp add: db_get_def)
  have "cstore (snd (post_users now b ?c)) = sstore s"
    using post_users_store [of now b ?c] saveUser_taken taken [OF assms(3)] assms(1)
    by auto
  then have "db (sstore (fst (serve s sid now (PostUsers b)))) = db (sstore s)"
    by (simp add: serve_sstore)
  moreover have "snd (serve s sid' now' (GetUser k)) = Some (Send 200 ''Username exists.'')"
    using taken [OF assms(3)]
    by (simp add: serve_def outcome_def get_users_def act_simps)
  ultimately show ?thesis by simp
qed

theorem prototype_name_never_registered_witness:
  "let b = \<lparr>body_username = Str ''constructor'', body_name = Str ''Alice A'', body_password = Str ''secret1''\<rparr>
   in body_username b = Str ''constructor'' \<and> ''constructor'' \<in> set object_proto_keys \<and>
      db (sstore (startup None)) ''constructor'' = None \<and>
      db (sstore (fst (serve (startup None) 0 7 (PostUsers b)))) = db (sstore (startup None)) \<and>
      snd (serve (startup None) 0 7 (GetUser ''constructor'')) = Some (Send 200 ''Username exists.'')"
  using prototype_name_never_registered
    [where b = "\<lparr>body_username = Str ''constructor'', body_name = Str ''Alice A'', body_password = Str ''secret1''\<rparr>"
       and k = "''constructor''" and s = "startup None" and sid = 0 and now = 7 and sid' = 0 and now' = 7]
  by (simp add: object_proto_keys_def startup_def load_db_def)

text \<open>C23: the spec's scenario end to end: from an empty store, register
  \<^verbatim>\<open>alice1\<close>, log in from session 1, and the greeting page of session 1 says
  \<^verbatim>\<open>Hi Alice A!\<close> while another session gets no greeting.\<close>

theorem login_greeting:
  "let b = \<lparr>body_username = Str ''alice1'', body_name = Str ''Alice A'', body_password = Str ''secret1''\<rparr>;
       s1 = fst (serve (startup None) 0 now (PostUsers b));
       s2 = fst (serve s1 1 now' (PostAuth \<lparr>body_username = Str ''alice1'', body_name = Undefined,
                                             body_password = Str ''secret1''\<rparr>))
   in snd (serve s2 1 now'' GetIndex) = Some (Send 200 (index_page ''Hi Alice A!''))
      \<and> snd (serve s2 2 now'' GetIndex) = Some (Send 200 (index_page []))"
proof -
  let ?b = "\<lparr>body_username = Str ''alice1'', body_name = Str ''Alice A'', body_password = Str ''secret1''\<rparr>"
  let ?l = "\<lparr>body_username = Str ''alice1'', body_name = Undefined, body_password = Str ''secret1''\<rparr>"
  let ?s2 = "fst (serve (fst (serve (startup None) 0 now (PostUsers ?b))) 1 now' (PostAuth ?l))"
  have "let (s1, r1) = serve (startup None) 0 now (PostUsers ?b);
            (s2, r2) = serve s1 1 now' (PostAuth \<lparr>body_username = body_username ?b,
                                                   body_name = Undefined, body_password = Str ''secret1''\<rparr>)
        in r1 = Some (Redirect ''login.html'') \<and> r2 = Some (Redirect ''index.html'') \<and>
           sessions s2 1 = body_name ?b"
    by (rule register_login_run [where k = "''alice1''" and p = "''secret1''"])
       (simp_all add: form_check_simps db_get_def object_proto_keys_def startup_def load_db_def)
  then have n1: "sessions ?s2 1 = Str ''Alice A''"
    by (simp add: split_beta Let_def)
  have n2: "sessions ?s2 2 = Undefined"
    by (simp add: serve_def Let_def startup_def)
  show ?thesis
    using n1 n2 by (simp add: serve_def get_index_def act_simps outcome_def greeting_def Let_def)
qed

end
